(* ===== verification/Prelude.thy ===== *)
theory Prelude
  imports Main "HOL-Library.Word"
begin

text \<open>
  Shared ground of the development: the machine integers and byte strings of the
  firmware, the panic outcome, the collections of facts the component theories
  extend, and the generic list, option and word lemmas they share.

  A Rust \<open>u8\<close>, \<open>u16\<close>, \<open>u32\<close> or \<open>u64\<close> is a word of that width, so arithmetic wraps as it
  does in the release profile of the firmware (overflow checks are off there).
  A \<open>&str\<close>, a \<open>&[u8]\<close> and a fixed-capacity string are all lists of bytes: a Rust
  string is its UTF-8 encoding, and lengths and capacities count bytes.
\<close>

unbundle bit_operations_syntax

type_synonym u8 = "8 word"
type_synonym u16 = "16 word"
type_synonym u32 = "32 word"
type_synonym u64 = "64 word"
type_synonym bytes = "u8 list"

text \<open>Facts that unfold a component's invariant, and step equations.\<close>

named_theorems inv_defs \<open>definitions of component invariants\<close>
named_theorems step_defs \<open>definitions of component operations\<close>

section \<open>Byte literals\<close>

text \<open>The bytes of an ASCII literal of the source.\<close>

definition str :: "string \<Rightarrow> bytes" where
  "str s = map of_char s"

lemma str_Nil [simp]: "str [] = []"
  by (simp add: str_def)

lemma str_Cons [simp]: "str (c # s) = of_char c # str s"
  by (simp add: str_def)

lemma str_append [simp]: "str (s @ t) = str s @ str t"
  by (simp add: str_def)

lemma length_str [simp]: "length (str s) = length s"
  by (simp add: str_def)

lemma str_eq_Nil [simp]: "str s = [] \<longleftrightarrow> s = []" "[] = str s \<longleftrightarrow> s = []"
  by (auto simp: str_def)

section \<open>Panics\<close>

text \<open>
  A Rust panic is a value here: \<open>Inl\<close> carries the reason, \<open>Inr\<close> the value of a
  computation that returned.
\<close>

datatype panic = Char_Boundary | Unwrap_Failed | Failed_Assertion

text \<open>Sequencing: what follows a panic does not run.\<close>

fun and_then :: "panic + 'a \<Rightarrow> ('a \<Rightarrow> panic + 'b) \<Rightarrow> panic + 'b" where
  "and_then (Inl p) f = Inl p"
| "and_then (Inr x) f = f x"

section \<open>Mutexes\<close>

text \<open>
  An \<open>embassy_sync\<close> mutex around a value: \<open>try_lock\<close> answers nothing while another task holds
  the guard. An awaited \<open>lock()\<close> resumes its task when the mutex is free, so the body behind it
  is a function of the protected value.
\<close>

datatype 'a mutex = Held | Unheld 'a

fun try_lock :: "'a mutex \<Rightarrow> 'a option" where
  "try_lock Held = None"
| "try_lock (Unheld x) = Some x"

section \<open>Lists\<close>

text \<open>\<open>b[i..j]\<close> and \<open>b[i..].copy_from_slice(xs)\<close> on a buffer that is long enough.\<close>

definition sub_slice :: "nat \<Rightarrow> nat \<Rightarrow> 'a list \<Rightarrow> 'a list" where
  "sub_slice i j b = take (j - i) (drop i b)"

definition put :: "nat \<Rightarrow> 'a list \<Rightarrow> 'a list \<Rightarrow> 'a list" where
  "put i xs b = take i b @ xs @ drop (i + length xs) b"

lemma length_put [simp]: "i + length xs \<le> length b \<Longrightarrow> length (put i xs b) = length b"
  by (simp add: put_def)

lemma length_sub_slice [simp]: "j \<le> length b \<Longrightarrow> length (sub_slice i j b) = j - i"
  by (simp add: sub_slice_def)

lemma put_nth:
  "i + length xs \<le> length b \<Longrightarrow> k < length b \<Longrightarrow>
    put i xs b ! k = (if i \<le> k \<and> k < i + length xs then xs ! (k - i) else b ! k)"
  by (auto simp: put_def nth_append min_def)

lemma sub_slice_nth: "k < j - i \<Longrightarrow> j \<le> length b \<Longrightarrow> sub_slice i j b ! k = b ! (i + k)"
  by (simp add: sub_slice_def)

lemma sub_slice_put_same:
  "i + length xs \<le> length b \<Longrightarrow> j = i + length xs \<Longrightarrow> sub_slice i j (put i xs b) = xs"
  by (simp add: sub_slice_def put_def)

lemma sub_slice_put_other:
  assumes "i + length xs \<le> length b" and "m \<le> length b"
    and "m \<le> i \<or> i + length xs \<le> l"
  shows "sub_slice l m (put i xs b) = sub_slice l m b"
  using assms by (intro nth_equalityI) (auto simp: sub_slice_nth put_nth)

lemma takeWhile_append_replicate:
  "\<forall>x\<in>set s. P x \<Longrightarrow> \<not> P z \<Longrightarrow> takeWhile P (s @ replicate n z) = s"
  by (cases n) (auto simp: takeWhile_append2)

section \<open>Fallible folds\<close>

text \<open>A loop that stops at the first failure.\<close>

fun fold_option :: "('a \<Rightarrow> 's \<Rightarrow> 's option) \<Rightarrow> 'a list \<Rightarrow> 's \<Rightarrow> 's option" where
  "fold_option f [] s = Some s"
| "fold_option f (x # xs) s = (case f x s of None \<Rightarrow> None | Some s' \<Rightarrow> fold_option f xs s')"

lemma fold_option_append:
  "fold_option f (xs @ ys) s =
    (case fold_option f xs s of None \<Rightarrow> None | Some s' \<Rightarrow> fold_option f ys s')"
  by (induction xs arbitrary: s) (auto split: option.splits)

lemma fold_option_invariant:
  assumes "fold_option f xs s = Some s'" and "P s"
    and "\<And>x t t'. x \<in> set xs \<Longrightarrow> P t \<Longrightarrow> f x t = Some t' \<Longrightarrow> P t'"
  shows "P s'"
  using assms
proof (induction xs arbitrary: s)
  case (Cons x xs)
  then obtain t where t: "f x s = Some t" and r: "fold_option f xs t = Some s'"
    by (auto split: option.splits)
  from Cons.prems(2) t have "P t" by (rule Cons.prems(3) [rotated]) simp
  with r show ?case
    by (rule Cons.IH) (rule Cons.prems(3), auto)
qed simp

section \<open>Words\<close>

lemma unat_and_mask: "unat (w AND mask n) = unat w mod 2 ^ n"
  by (simp only: take_bit_eq_mask [symmetric] unsigned_take_bit_eq) (simp add: take_bit_eq_mod)

lemma unat_drop_bit: "unat (drop_bit n w) = unat w div 2 ^ n"
  by (simp only: unat_drop_bit_eq) (simp add: drop_bit_eq_div)

lemma unat_byte [simp]: "unat (b :: u8) < 256"
  by (rule order_less_le_trans [OF unsigned_less]) simp

lemma nat_shift_or:
  assumes "(l :: nat) < 2 ^ k"
  shows "push_bit k h OR l = h * 2 ^ k + l"
proof -
  from assms have l: "take_bit k l = l" by (simp add: take_bit_nat_eq_self)
  have "\<not> bit (push_bit k h) n \<or> \<not> bit l n" for n
    using bit_take_bit_iff [of k l n] by (auto simp: l bit_push_bit_iff)
  then have "push_bit k h + l = push_bit k h OR l" by (rule disjunctive_add)
  then show ?thesis by (simp add: push_bit_eq_mult)
qed

text \<open>Joining a high and a low part, as in \<open>(h << k) | l\<close>.\<close>

lemma unat_shift_or:
  fixes h l :: "'a::len word"
  assumes "unat l < 2 ^ k" and "unat h * 2 ^ k < 2 ^ LENGTH('a)"
  shows "unat (push_bit k h OR l) = unat h * 2 ^ k + unat l"
proof -
  have "push_bit k (unat h) < 2 ^ LENGTH('a)"
    using assms(2) by (simp only: push_bit_eq_mult)
  then have "unat (push_bit k h) = push_bit k (unat h)"
    by (simp only: unsigned_push_bit_eq take_bit_nat_eq_self)
  then show ?thesis
    by (simp only: unsigned_or_eq nat_shift_or [OF assms(1)])
qed

end
