(* ===== verification/Debouncer.thy ===== *)
theory Debouncer
  imports Prelude
begin

text \<open>
  \<open>logic/src/debouncer.rs\<close>: a button debouncer that keeps the last eight samples in a
  byte and reports an edge when the last \<open>STABLE_COUNT\<close> samples agree and differ from the
  stable level. The abstract specification counts the run of samples that disagree with
  the stable level; the byte-based code refines it.
\<close>

section \<open>The code\<close>

definition STABLE_COUNT :: nat where
  "STABLE_COUNT = 4"

definition STABLE_MASK :: u8 where
  "STABLE_MASK = ucast (push_bit STABLE_COUNT (1 :: u16) - 1)"

datatype edge = Rising | Falling

record debouncer =
  history :: u8
  stable :: bool

definition deb_new :: "bool \<Rightarrow> debouncer" where
  "deb_new initial = \<lparr>history = (if initial then 0xFF else 0x00), stable = initial\<rparr>"

definition shift_in :: "u8 \<Rightarrow> bool \<Rightarrow> u8" where
  "shift_in h raw = push_bit 1 h OR (if raw then 1 else 0)"

definition deb_update :: "debouncer \<Rightarrow> bool \<Rightarrow> edge option \<times> debouncer" where
  "deb_update d raw =
    (let d1 = d\<lparr>history := shift_in (history d) raw\<rparr>;
         window = history d1 AND STABLE_MASK;
         all_ones = (window = STABLE_MASK);
         all_zeros = (window = 0)
     in if all_ones \<and> \<not> stable d1 then (Some Rising, d1\<lparr>stable := True\<rparr>)
        else if all_zeros \<and> stable d1 then (Some Falling, d1\<lparr>stable := False\<rparr>)
        else (None, d1))"

definition deb_state :: "debouncer \<Rightarrow> bool" where
  "deb_state d = stable d"

text \<open>Feeding a list of samples, collecting what each update returns.\<close>

fun deb_run :: "debouncer \<Rightarrow> bool list \<Rightarrow> edge option list \<times> debouncer" where
  "deb_run d [] = ([], d)"
| "deb_run d (raw # rest) =
    (let (e, d') = deb_update d raw; (es, d'') = deb_run d' rest in (e # es, d''))"

section \<open>The specification\<close>

text \<open>
  The level, and the number of samples in a row that disagreed with it. The level flips,
  with an edge, when that number reaches \<open>STABLE_COUNT\<close>.
\<close>

fun spec_step :: "bool \<times> nat \<Rightarrow> bool \<Rightarrow> edge option \<times> (bool \<times> nat)" where
  "spec_step (level, run) raw =
    (if raw = level then (None, (level, 0))
     else if Suc run = STABLE_COUNT then (Some (if raw then Rising else Falling), (raw, 0))
     else (None, (level, Suc run)))"

fun spec_run :: "bool \<times> nat \<Rightarrow> bool list \<Rightarrow> edge option list \<times> (bool \<times> nat)" where
  "spec_run s [] = ([], s)"
| "spec_run s (raw # rest) =
    (let (e, s') = spec_step s raw; (es, s'') = spec_run s' rest in (e # es, s''))"

section \<open>Refinement\<close>

lemma STABLE_MASK_eq: "STABLE_MASK = 15"
  by (simp add: STABLE_MASK_def STABLE_COUNT_def)

lemma low_nibble_bit: "bit ((h :: u8) AND 15) n \<longleftrightarrow> n < 4 \<and> bit h n"
proof -
  have m: "(15 :: u8) = mask 4" by (simp add: mask_eq_exp_minus_1)
  show ?thesis
    unfolding m by (auto simp only: bit_and_iff bit_mask_iff dest: bit_imp_le_length)
       (auto dest: bit_imp_le_length)
qed

lemma less_4_all: "(\<forall>n < 4. P n) \<longleftrightarrow> P 0 \<and> P 1 \<and> P 2 \<and> P (3 :: nat)"
  by (auto simp: numeral_eq_Suc less_Suc_eq)

lemma word_eq_bits: "(x :: u8) = y \<longleftrightarrow> (\<forall>n. bit x n = bit y n)"
  by (auto intro: bit_eqI)

lemma bit_15: "bit (15 :: u8) n \<longleftrightarrow> n < 4"
  using low_nibble_bit [of 15 n] low_nibble_bit [of "- 1" n] by (auto dest: bit_imp_le_length)

lemma window_ones: "(h :: u8) AND 15 = 15 \<longleftrightarrow> bit h 0 \<and> bit h 1 \<and> bit h 2 \<and> bit h 3"
  unfolding word_eq_bits low_nibble_bit bit_15 by (subst less_4_all [symmetric]) auto

lemma window_zeros:
  "(h :: u8) AND 15 = 0 \<longleftrightarrow> \<not> bit h 0 \<and> \<not> bit h 1 \<and> \<not> bit h 2 \<and> \<not> bit h 3"
  unfolding word_eq_bits low_nibble_bit bit_0_eq by (subst less_4_all [symmetric]) auto

lemma shift_in_Suc: "n < 7 \<Longrightarrow> bit (shift_in h raw) (Suc n) \<longleftrightarrow> bit h n"
  unfolding shift_in_def
  by (auto simp only: bit_or_iff bit_push_bit_iff possible_bit_word bit_1_iff split: if_splits) simp_all

lemma shift_in_bits [simp]:
  "bit (shift_in h raw) 0 \<longleftrightarrow> raw"
  "bit (shift_in h raw) (Suc 0) \<longleftrightarrow> bit h 0"
  "bit (shift_in h raw) 2 \<longleftrightarrow> bit h (Suc 0)"
  "bit (shift_in h raw) 3 \<longleftrightarrow> bit h 2"
  using shift_in_Suc [of _ h raw]
  by (auto simp only: shift_in_def bit_or_iff bit_push_bit_iff numeral_eq_Suc One_nat_def
      pred_numeral_simps BitM.simps split: if_splits) simp_all

lemma deb_update_bits:
  "deb_update d raw =
    (let h = history d; d1 = d\<lparr>history := shift_in h raw\<rparr> in
     if raw \<and> bit h 0 \<and> bit h (Suc 0) \<and> bit h 2 \<and> \<not> stable d then (Some Rising, d1\<lparr>stable := True\<rparr>)
     else if \<not> raw \<and> \<not> bit h 0 \<and> \<not> bit h (Suc 0) \<and> \<not> bit h 2 \<and> stable d
       then (Some Falling, d1\<lparr>stable := False\<rparr>)
     else (None, d1))"
  by (simp add: deb_update_def Let_def STABLE_MASK_eq window_ones window_zeros)

text \<open>
  The relation: same level, and the newest samples in the history are the run of
  disagreeing ones, after a sample that agrees.
\<close>

definition deb_rel :: "debouncer \<Rightarrow> bool \<times> nat \<Rightarrow> bool" where
  "deb_rel d s \<longleftrightarrow>
    stable d = fst s \<and> snd s < STABLE_COUNT \<and>
    (\<forall>i < snd s. bit (history d) i \<noteq> fst s) \<and> bit (history d) (snd s) = fst s"

lemma deb_rel_new: "deb_rel (deb_new initial) (initial, 0)"
  by (simp add: deb_rel_def deb_new_def STABLE_COUNT_def)

lemma run_cases: "run < STABLE_COUNT \<longleftrightarrow> run \<in> {0, 1, 2, 3}"
  by (auto simp: STABLE_COUNT_def)

lemma deb_rel_simps:
  "deb_rel d (l, 0) \<longleftrightarrow> stable d = l \<and> bit (history d) 0 = l"
  "deb_rel d (l, Suc 0) \<longleftrightarrow> stable d = l \<and> bit (history d) 0 \<noteq> l \<and> bit (history d) (Suc 0) = l"
  "deb_rel d (l, 2) \<longleftrightarrow> stable d = l \<and> bit (history d) 0 \<noteq> l \<and> bit (history d) (Suc 0) \<noteq> l
    \<and> bit (history d) 2 = l"
  "deb_rel d (l, 3) \<longleftrightarrow> stable d = l \<and> bit (history d) 0 \<noteq> l \<and> bit (history d) (Suc 0) \<noteq> l
    \<and> bit (history d) 2 \<noteq> l \<and> bit (history d) 3 = l"
  by (auto simp: deb_rel_def STABLE_COUNT_def numeral_eq_Suc less_Suc_eq)

lemma deb_rel_cases:
  assumes "deb_rel d s"
  obtains "s = (stable d, 0)" | "s = (stable d, Suc 0)" | "s = (stable d, 2)" | "s = (stable d, 3)"
  using assms by (cases s) (auto simp: deb_rel_def run_cases)

lemma Suc_to_numeral: "Suc (Suc 0) = 2" "Suc 2 = 3" "STABLE_COUNT = Suc 3"
  by (simp_all add: STABLE_COUNT_def)

lemma deb_update_refines:
  assumes "deb_rel d s"
  shows "fst (deb_update d raw) = fst (spec_step s raw) \<and>
    deb_rel (snd (deb_update d raw)) (snd (spec_step s raw))"
  using assms
  by (rule deb_rel_cases; cases raw; cases "stable d")
    (use assms in \<open>simp_all only: deb_update_bits spec_step.simps\<close>,
     simp_all add: Let_def Suc_to_numeral deb_rel_simps)

lemma deb_run_refines:
  assumes "deb_rel d s"
  shows "fst (deb_run d xs) = fst (spec_run s xs) \<and>
    deb_rel (snd (deb_run d xs)) (snd (spec_run s xs))"
  using assms
proof (induction xs arbitrary: d s)
  case (Cons x xs)
  from deb_update_refines [OF Cons.prems, of x] Cons.IH show ?case
    by (auto simp: split_beta Let_def)
qed simp

text \<open>
  C39: the byte-history debouncer behaves as the counter specification on every sequence of
  samples: it reports the same edges and ends at the same level.
\<close>

theorem debouncer_refines_counter:
  "fst (deb_run (deb_new initial) samples) = fst (spec_run (initial, 0) samples)
   \<and> deb_state (snd (deb_run (deb_new initial) samples)) = fst (snd (spec_run (initial, 0) samples))"
  using deb_run_refines [OF deb_rel_new, of initial samples]
  by (simp add: deb_state_def deb_rel_def)

section \<open>Edges come from stable runs only\<close>

lemma spec_run_snoc:
  "spec_run s (xs @ [x]) =
    (let (es, s') = spec_run s xs; (e, s'') = spec_step s' x in (es @ [e], s''))"
  by (induction xs arbitrary: s) (auto simp: split_beta Let_def)

lemma deb_run_refines_new:
  "fst (deb_run (deb_new i) xs) = fst (spec_run (i, 0) xs)"
  "deb_rel (snd (deb_run (deb_new i) xs)) (snd (spec_run (i, 0) xs))"
  using deb_run_refines [OF deb_rel_new] by blast+

lemma spec_run_trailing:
  "snd (spec_run (i, 0) xs) = (level, run) \<Longrightarrow>
    run < STABLE_COUNT \<and> (\<exists>ys. xs = ys @ replicate run (\<not> level))"
proof (induction xs arbitrary: level run rule: rev_induct)
  case Nil
  then show ?case by (simp add: STABLE_COUNT_def)
next
  case (snoc x xs)
  obtain l r where lr: "snd (spec_run (i, 0) xs) = (l, r)" by fastforce
  with snoc.IH obtain ys where "r < STABLE_COUNT" "xs = ys @ replicate r (\<not> l)" by blast
  moreover have "snd (spec_step (l, r) x) = (level, run)"
    using snoc.prems lr by (simp add: spec_run_snoc split_beta Let_def)
  ultimately show ?case
    by (cases "x = l")
      (auto simp: replicate_append_same STABLE_COUNT_def split: if_splits)
qed

lemma deb_state_spec: "deb_state (snd (deb_run (deb_new i) xs)) = fst (snd (spec_run (i, 0) xs))"
  using deb_run_refines_new [of i xs] by (simp add: deb_state_def deb_rel_def)

text \<open>
  An edge reported on the last sample means that the last \<open>STABLE_COUNT\<close> samples all had
  the new level and that the debounced level before was the opposite one; so no glitch
  shorter than that raises an edge, and rising and falling edges alternate.
\<close>

lemma edge_needs_stable_run:
  assumes "last (fst (deb_run (deb_new initial) (xs @ [x]))) = Some e"
  shows "(\<exists>ys. xs @ [x] = ys @ replicate STABLE_COUNT (e = Rising))
    \<and> deb_state (snd (deb_run (deb_new initial) xs)) = (e = Falling)"
proof -
  obtain l r where lr: "snd (spec_run (initial, 0) xs) = (l, r)" by fastforce
  obtain ys where ys: "xs = ys @ replicate r (\<not> l)"
    using spec_run_trailing [OF lr] by blast
  from assms lr have "fst (spec_step (l, r) x) = Some e"
    by (simp add: deb_run_refines_new spec_run_snoc split_beta Let_def)
  then have step: "x \<noteq> l" "Suc r = STABLE_COUNT" "(e = Rising) = x" "(e = Falling) = l"
    by (auto split: if_splits)
  from step(1) have "x = (\<not> l)" by simp
  with ys step have "xs @ [x] = ys @ replicate STABLE_COUNT (e = Rising)"
    by (simp add: replicate_append_same flip: step(2))
  with step lr show ?thesis by (auto simp: deb_state_spec)
qed

text \<open>
  The debouncer always settles: after any samples, \<open>STABLE_COUNT\<close> equal samples bring the
  debounced level to their value.
\<close>

lemma debouncer_settles:
  "deb_state (snd (deb_run (deb_new initial) (xs @ replicate STABLE_COUNT v))) = v"
proof -
  obtain l r where lr: "snd (spec_run (initial, 0) xs) = (l, r)" by fastforce
  have r: "r < STABLE_COUNT" using spec_run_trailing [OF lr] by blast
  have "xs @ replicate STABLE_COUNT v = (((xs @ [v]) @ [v]) @ [v]) @ [v]"
    by (simp add: STABLE_COUNT_def numeral_eq_Suc)
  then have "fst (snd (spec_run (initial, 0) (xs @ replicate STABLE_COUNT v))) = v"
    using lr r by (simp only: spec_run_snoc) (auto simp: split_beta Let_def STABLE_COUNT_def)
  then show ?thesis by (simp only: deb_state_spec)
qed

end
