(* ===== verification/Led_Dispatch.thy ===== *)
theory Led_Dispatch
  imports Prelude
begin

text \<open>
  \<open>logic/src/led_dispatch.rs\<close>: from an MQTT topic and payload to the command for the
  outputs, with \<open>mqtt_command\<close> for the composition \<open>dispatch(..).or_else(dispatch_special)\<close>
  that \<open>handle_event\<close> in \<open>src/mqtt.rs\<close> uses.
\<close>

datatype output_cmd =
    Led1 bool
  | Led2 bool
  | AllLeds bool
  | Relay bool
  | Ping
  | Reboot
  | Unknown

definition parse_bool :: "bytes \<Rightarrow> bool option" where
  "parse_bool payload =
    (if payload = str ''1'' \<or> payload = str ''on'' \<or> payload = str ''ON'' \<or> payload = str ''true''
     then Some True
     else if payload = str ''0'' \<or> payload = str ''off'' \<or> payload = str ''OFF'' \<or> payload = str ''false''
     then Some False
     else None)"

definition dispatch :: "bytes \<Rightarrow> bytes \<Rightarrow> output_cmd option" where
  "dispatch topic payload =
    (case parse_bool payload of
       None \<Rightarrow> None
     | Some on \<Rightarrow>
         if topic = str ''stm32/led/1'' then Some (Led1 on)
         else if topic = str ''stm32/led/2'' then Some (Led2 on)
         else if topic = str ''stm32/led/all'' then Some (AllLeds on)
         else if topic = str ''stm32/relay'' then Some (Relay on)
         else None)"

definition dispatch_special :: "bytes \<Rightarrow> output_cmd option" where
  "dispatch_special topic =
    (if topic = str ''stm32/ping'' then Some Ping
     else if topic = str ''stm32/cmd/reboot'' then Some Reboot
     else None)"

definition mqtt_command :: "bytes \<Rightarrow> bytes \<Rightarrow> output_cmd option" where
  "mqtt_command topic payload =
    (case dispatch topic payload of
       Some cmd \<Rightarrow> Some cmd
     | None \<Rightarrow> dispatch_special topic)"

section \<open>What is dispatched\<close>

lemma topics_distinct:
  "distinct [str ''stm32/led/1'', str ''stm32/led/2'', str ''stm32/led/all'', str ''stm32/relay'',
     str ''stm32/ping'', str ''stm32/cmd/reboot'']"
  by simp

lemma parse_bool_payloads:
  "parse_bool payload = Some on \<longleftrightarrow>
    payload \<in> (if on then {str ''1'', str ''on'', str ''ON'', str ''true''}
                else {str ''0'', str ''off'', str ''OFF'', str ''false''})"
  by (cases on) (auto simp: parse_bool_def)

lemma dispatch_Some_iff:
  "dispatch topic payload = Some cmd \<longleftrightarrow>
    (\<exists>on. parse_bool payload = Some on \<and>
      (topic, cmd) \<in> {(str ''stm32/led/1'', Led1 on), (str ''stm32/led/2'', Led2 on),
        (str ''stm32/led/all'', AllLeds on), (str ''stm32/relay'', Relay on)})"
  by (auto simp: dispatch_def split: option.splits if_splits)

text \<open>
  The complete command table. An LED or relay command arises exactly from its own topic
  with one of the eight boolean payloads; a ping or reboot from its topic whatever the
  payload; and nothing is ever decoded as \<open>Unknown\<close>.
\<close>

lemma mqtt_command_table:
  "mqtt_command topic payload = Some cmd \<longleftrightarrow>
    (case cmd of
       Led1 on \<Rightarrow> topic = str ''stm32/led/1'' \<and> parse_bool payload = Some on
     | Led2 on \<Rightarrow> topic = str ''stm32/led/2'' \<and> parse_bool payload = Some on
     | AllLeds on \<Rightarrow> topic = str ''stm32/led/all'' \<and> parse_bool payload = Some on
     | Relay on \<Rightarrow> topic = str ''stm32/relay'' \<and> parse_bool payload = Some on
     | Ping \<Rightarrow> topic = str ''stm32/ping''
     | Reboot \<Rightarrow> topic = str ''stm32/cmd/reboot''
     | Unknown \<Rightarrow> False)"
  by (cases "parse_bool payload"; cases cmd)
     (auto simp: mqtt_command_def dispatch_def dispatch_special_def)

end
