(* ===== verification/Rust_Str.thy ===== *)
theory Rust_Str
  imports Prelude
begin

text \<open>
  The part of Rust's standard library that the firmware applies to strings, over the
  UTF-8 bytes of a string: validation (\<open>core::str::from_utf8\<close>), iteration over
  characters, \<open>trim\<close>, \<open>split\<close>, \<open>split_once\<close>, \<open>lines\<close>, \<open>split_whitespace\<close>, \<open>find\<close>,
  \<open>strip_prefix\<close>, byte slicing with its panic, unsigned \<open>parse\<close> and \<open>Display\<close>.
\<close>

section \<open>UTF-8\<close>

definition is_cont :: "u8 \<Rightarrow> bool" where
  "is_cont b \<longleftrightarrow> 0x80 \<le> b \<and> b \<le> 0xBF"

text \<open>The table of well-formed sequences that \<open>from_utf8\<close> checks.\<close>

fun utf8_valid :: "bytes \<Rightarrow> bool" where
  "utf8_valid [] = True"
| "utf8_valid (b # bs) =
    (if b < 0x80 then utf8_valid bs
     else if 0xC2 \<le> b \<and> b \<le> 0xDF then
       (case bs of c # r \<Rightarrow> is_cont c \<and> utf8_valid r | _ \<Rightarrow> False)
     else if 0xE0 \<le> b \<and> b \<le> 0xEF then
       (case bs of c # d # r \<Rightarrow>
          is_cont c \<and> is_cont d
          \<and> (b = 0xE0 \<longrightarrow> 0xA0 \<le> c) \<and> (b = 0xED \<longrightarrow> c \<le> 0x9F) \<and> utf8_valid r
        | _ \<Rightarrow> False)
     else if 0xF0 \<le> b \<and> b \<le> 0xF4 then
       (case bs of c # d # e # r \<Rightarrow>
          is_cont c \<and> is_cont d \<and> is_cont e
          \<and> (b = 0xF0 \<longrightarrow> 0x90 \<le> c) \<and> (b = 0xF4 \<longrightarrow> c \<le> 0x8F) \<and> utf8_valid r
        | _ \<Rightarrow> False)
     else False)"

declare utf8_valid.simps(2) [simp del]

definition from_utf8 :: "bytes \<Rightarrow> bytes option" where
  "from_utf8 b = (if utf8_valid b then Some b else None)"

text \<open>The characters of a string, each as its UTF-8 bytes.\<close>

function chars :: "bytes \<Rightarrow> bytes list" where
  "chars [] = []"
| "chars (b # bs) = (b # takeWhile is_cont bs) # chars (dropWhile is_cont bs)"
  by pat_completeness auto
termination
  by (relation "measure length") (auto simp: le_imp_less_Suc length_dropWhile_le)

lemma concat_chars [simp]: "concat (chars s) = s"
  by (induction s rule: chars.induct) auto

lemma chars_Nil_iff [simp]: "chars s = [] \<longleftrightarrow> s = []"
  by (cases s) auto

lemma chars_nonempty: "c \<in> set (chars s) \<Longrightarrow> c \<noteq> []"
  by (induction s rule: chars.induct) auto

lemma is_cont_ascii: "b < 0x80 \<Longrightarrow> \<not> is_cont b"
  by (simp add: is_cont_def not_le)

text \<open>An all-ASCII string is valid.\<close>

definition ascii :: "bytes \<Rightarrow> bool" where
  "ascii s \<longleftrightarrow> (\<forall>b\<in>set s. b < 0x80)"

lemma ascii_Nil [simp]: "ascii []"
  by (simp add: ascii_def)

lemma ascii_Cons [simp]: "ascii (b # s) \<longleftrightarrow> b < 0x80 \<and> ascii s"
  by (auto simp: ascii_def)

lemma ascii_append [simp]: "ascii (s @ t) \<longleftrightarrow> ascii s \<and> ascii t"
  by (auto simp: ascii_def)

lemma ascii_valid: "ascii s \<Longrightarrow> utf8_valid s"
  by (induction s) (auto simp: utf8_valid.simps)

text \<open>An ASCII string has one character per byte.\<close>

lemma chars_ascii: "ascii s \<Longrightarrow> chars s = map (\<lambda>b. [b]) s"
proof (induction s rule: chars.induct)
  case (2 b bs)
  then have "\<not> is_cont x" if "x \<in> set bs" for x
    using that by (auto simp: ascii_def is_cont_ascii)
  then have "takeWhile is_cont bs = []" and "dropWhile is_cont bs = bs"
    by (cases bs; auto)+
  with 2 show ?case by simp
qed simp

lemma utf8_first:
  assumes v: "utf8_valid (b # bs)"
  shows "\<not> is_cont b \<and> (\<exists>cs r. bs = cs @ r \<and> (\<forall>c\<in>set cs. is_cont c) \<and> utf8_valid r
    \<and> (cs = [] \<longleftrightarrow> b < 0x80))"
proof (cases "b < 0x80")
  case True
  with v show ?thesis by (simp add: utf8_valid.simps(2) is_cont_ascii)
next
  case ge: False
  have head: "\<not> is_cont b" if "0xC2 \<le> b"
    using that order_trans [of "0xC2" b "0xBF"] by (auto simp: is_cont_def)
  consider (two) "0xC2 \<le> b" "b \<le> 0xDF" | (three) "0xE0 \<le> b" "b \<le> 0xEF" "\<not> (0xC2 \<le> b \<and> b \<le> 0xDF)"
    | (four) "0xF0 \<le> b" "b \<le> 0xF4" "\<not> (0xC2 \<le> b \<and> b \<le> 0xDF)" "\<not> (0xE0 \<le> b \<and> b \<le> 0xEF)"
    using v ge by (auto simp: utf8_valid.simps(2) split: if_splits)
  then show ?thesis
  proof cases
    case two
    with v ge obtain c r where "bs = [c] @ r" "is_cont c" "utf8_valid r"
      by (cases bs) (auto simp: utf8_valid.simps(2))
    with two ge head show ?thesis by (intro conjI exI [of _ "[c]"] exI [of _ r]) auto
  next
    case three
    with v ge obtain c d r where "bs = [c, d] @ r" "is_cont c" "is_cont d" "utf8_valid r"
      by (simp add: utf8_valid.simps(2) split: list.splits)
    moreover from three have "0xC2 \<le> b" using order_trans [of "0xC2" "0xE0" b] by simp
    ultimately show ?thesis using ge head by (intro conjI exI [of _ "[c, d]"] exI [of _ r]) auto
  next
    case four
    with v ge obtain c d e r where "bs = [c, d, e] @ r" "is_cont c" "is_cont d" "is_cont e" "utf8_valid r"
      by (simp add: utf8_valid.simps(2) split: list.splits)
    moreover from four have "0xC2 \<le> b" using order_trans [of "0xC2" "0xF0" b] by simp
    ultimately show ?thesis using ge head by (intro conjI exI [of _ "[c, d, e]"] exI [of _ r]) auto
  qed
qed

lemma utf8_valid_not_cont: "utf8_valid s \<Longrightarrow> s \<noteq> [] \<Longrightarrow> \<not> is_cont (hd s)"
  by (cases s) (auto dest: utf8_first)

text \<open>The characters of a valid string: an ASCII byte, or bytes that are all above ASCII.\<close>

lemma utf8_chars:
  assumes "utf8_valid s" and "c \<in> set (chars s)"
  shows "(\<exists>b. c = [b] \<and> b < 0x80) \<or> (\<forall>b\<in>set c. 0x80 \<le> b)"
  using assms
proof (induction s rule: chars.induct)
  case (2 b bs)
  obtain cs r where r: "bs = cs @ r" "\<forall>c\<in>set cs. is_cont c" "utf8_valid r" "cs = [] \<longleftrightarrow> b < 0x80"
    using utf8_first [OF "2.prems"(1)] by blast
  have "takeWhile is_cont r = []" "dropWhile is_cont r = r"
    using utf8_valid_not_cont [OF r(3)] by (cases r; simp)+
  with r have split: "takeWhile is_cont bs = cs" "dropWhile is_cont bs = r"
    by (simp_all add: takeWhile_append2 dropWhile_append2)
  show ?case
  proof (cases "c \<in> set (chars r)")
    case True
    with "2.IH" r(3) split show ?thesis by simp
  next
    case False
    with "2.prems" split have "c = b # cs" by simp
    with r show ?thesis by (auto simp: is_cont_def not_less)
  qed
qed simp

section \<open>White space and trimming\<close>

text \<open>\<open>char::is_whitespace\<close>: the characters with the Unicode property \<open>White_Space\<close>.\<close>

definition white_space :: "bytes list" where
  "white_space =
    [[0x09], [0x0A], [0x0B], [0x0C], [0x0D], [0x20], [0xC2, 0x85], [0xC2, 0xA0],
     [0xE1, 0x9A, 0x80],
     [0xE2, 0x80, 0x80], [0xE2, 0x80, 0x81], [0xE2, 0x80, 0x82], [0xE2, 0x80, 0x83],
     [0xE2, 0x80, 0x84], [0xE2, 0x80, 0x85], [0xE2, 0x80, 0x86], [0xE2, 0x80, 0x87],
     [0xE2, 0x80, 0x88], [0xE2, 0x80, 0x89], [0xE2, 0x80, 0x8A],
     [0xE2, 0x80, 0xA8], [0xE2, 0x80, 0xA9], [0xE2, 0x80, 0xAF],
     [0xE2, 0x81, 0x9F], [0xE3, 0x80, 0x80]]"

definition is_ws :: "bytes \<Rightarrow> bool" where
  "is_ws c \<longleftrightarrow> c \<in> set white_space"

definition trim_start :: "bytes \<Rightarrow> bytes" where
  "trim_start s = concat (dropWhile is_ws (chars s))"

definition trim_end :: "bytes \<Rightarrow> bytes" where
  "trim_end s = concat (rev (dropWhile is_ws (rev (chars s))))"

definition trim :: "bytes \<Rightarrow> bytes" where
  "trim s = trim_end (trim_start s)"

text \<open>A string without white space is not changed by trimming.\<close>

definition no_ws :: "bytes \<Rightarrow> bool" where
  "no_ws s \<longleftrightarrow> (\<forall>c\<in>set (chars s). \<not> is_ws c)"

lemma dropWhile_none: "\<forall>x\<in>set xs. \<not> P x \<Longrightarrow> dropWhile P xs = xs"
  by (cases xs) auto

lemma trim_start_no_ws: "no_ws s \<Longrightarrow> trim_start s = s"
  by (simp add: trim_start_def no_ws_def dropWhile_none)

lemma trim_end_no_ws: "no_ws s \<Longrightarrow> trim_end s = s"
  by (simp add: trim_end_def no_ws_def dropWhile_none)

lemma trim_no_ws: "no_ws s \<Longrightarrow> trim s = s"
  by (simp add: trim_def trim_start_no_ws trim_end_no_ws)

lemma is_ws_single: "is_ws [b] \<longleftrightarrow> b \<in> {9, 10, 11, 12, 13, 32}"
  by (simp add: is_ws_def white_space_def)

lemma no_ws_ascii:
  "ascii s \<Longrightarrow> no_ws s \<longleftrightarrow> (\<forall>b\<in>set s. b \<notin> {9, 10, 11, 12, 13, 32})"
  by (simp add: no_ws_def chars_ascii is_ws_single)

lemma no_ws_Nil [simp]: "no_ws []"
  by (simp add: no_ws_def)

section \<open>Splitting and searching\<close>

text \<open>\<open>s.split(c)\<close> for a one-byte separator.\<close>

fun split_on :: "u8 \<Rightarrow> bytes \<Rightarrow> bytes list" where
  "split_on c [] = [[]]"
| "split_on c (b # bs) =
    (if b = c then [] # split_on c bs
     else (case split_on c bs of p # ps \<Rightarrow> (b # p) # ps | [] \<Rightarrow> [[b]]))"

lemma split_on_not_Nil [simp]: "split_on c s \<noteq> []"
  by (induction s) (auto split: list.splits)

lemma split_on_single: "c \<notin> set s \<Longrightarrow> split_on c s = [s]"
  by (induction s) auto

lemma split_on_append: "c \<notin> set s \<Longrightarrow> split_on c (s @ c # t) = s # split_on c t"
  by (induction s) auto

text \<open>The inverse of \<open>split\<close>: joining the parts with the separator.\<close>

fun join :: "u8 \<Rightarrow> bytes list \<Rightarrow> bytes" where
  "join c [] = []"
| "join c [p] = p"
| "join c (p # ps) = p @ c # join c ps"

lemma split_on_join: "ps \<noteq> [] \<Longrightarrow> \<forall>p\<in>set ps. c \<notin> set p \<Longrightarrow> split_on c (join c ps) = ps"
  by (induction c ps rule: join.induct) (auto simp: split_on_single split_on_append)

text \<open>
  \<open>s.split_once(c)\<close>. The two calls of \<open>next\<close> on \<open>s.splitn(2, c)\<close>, with the default
  \<open>""\<close>, are \<open>split_key\<close> and \<open>split_value\<close>.
\<close>

definition split_once :: "u8 \<Rightarrow> bytes \<Rightarrow> (bytes \<times> bytes) option" where
  "split_once c s =
    (if c \<in> set s then Some (takeWhile (\<lambda>b. b \<noteq> c) s, tl (dropWhile (\<lambda>b. b \<noteq> c) s)) else None)"

definition split_key :: "u8 \<Rightarrow> bytes \<Rightarrow> bytes" where
  "split_key c s = (case split_once c s of Some (k, v) \<Rightarrow> k | None \<Rightarrow> s)"

definition split_value :: "u8 \<Rightarrow> bytes \<Rightarrow> bytes" where
  "split_value c s = (case split_once c s of Some (k, v) \<Rightarrow> v | None \<Rightarrow> [])"

lemma split_once_append: "c \<notin> set k \<Longrightarrow> split_once c (k @ c # v) = Some (k, v)"
  by (simp add: split_once_def takeWhile_append dropWhile_append)

lemma split_kv_append [simp]:
  "c \<notin> set k \<Longrightarrow> split_key c (k @ c # v) = k"
  "c \<notin> set k \<Longrightarrow> split_value c (k @ c # v) = v"
  by (simp_all add: split_key_def split_value_def split_once_append)

text \<open>\<open>s.lines()\<close>: split after each line feed, then drop it with one carriage return.\<close>

fun split_inclusive :: "u8 \<Rightarrow> bytes \<Rightarrow> bytes list" where
  "split_inclusive c [] = []"
| "split_inclusive c (b # bs) =
    (if b = c then [b] # split_inclusive c bs
     else (case split_inclusive c bs of [] \<Rightarrow> [[b]] | p # ps \<Rightarrow> (b # p) # ps))"

definition strip_suffix1 :: "u8 \<Rightarrow> bytes \<Rightarrow> bytes option" where
  "strip_suffix1 c s = (if s \<noteq> [] \<and> last s = c then Some (butlast s) else None)"

definition strip_line_end :: "bytes \<Rightarrow> bytes" where
  "strip_line_end l =
    (case strip_suffix1 10 l of None \<Rightarrow> l
     | Some l' \<Rightarrow> (case strip_suffix1 13 l' of None \<Rightarrow> l' | Some l'' \<Rightarrow> l''))"

definition lines :: "bytes \<Rightarrow> bytes list" where
  "lines s = map strip_line_end (split_inclusive 10 s)"

text \<open>\<open>s.split_whitespace()\<close>.\<close>

fun split_ws_chars :: "bytes list \<Rightarrow> bytes list" where
  "split_ws_chars [] = [[]]"
| "split_ws_chars (c # cs) =
    (if is_ws c then [] # split_ws_chars cs
     else (case split_ws_chars cs of p # ps \<Rightarrow> (c @ p) # ps | [] \<Rightarrow> [c]))"

definition split_whitespace :: "bytes \<Rightarrow> bytes list" where
  "split_whitespace s = filter (\<lambda>p. p \<noteq> []) (split_ws_chars (chars s))"

text \<open>\<open>s.strip_prefix(p)\<close>, \<open>s.find(p)\<close> and \<open>s.contains(p)\<close>.\<close>

fun strip_prefix :: "bytes \<Rightarrow> bytes \<Rightarrow> bytes option" where
  "strip_prefix [] s = Some s"
| "strip_prefix (p # ps) [] = None"
| "strip_prefix (p # ps) (b # bs) = (if p = b then strip_prefix ps bs else None)"

lemma strip_prefix_append [simp]: "strip_prefix p (p @ s) = Some s"
  by (induction p) auto

fun find_sub :: "bytes \<Rightarrow> bytes \<Rightarrow> nat option" where
  "find_sub p [] = (if p = [] then Some 0 else None)"
| "find_sub p (b # bs) =
    (if strip_prefix p (b # bs) \<noteq> None then Some 0 else map_option Suc (find_sub p bs))"

definition contains_sub :: "bytes \<Rightarrow> bytes \<Rightarrow> bool" where
  "contains_sub p s \<longleftrightarrow> find_sub p s \<noteq> None"

text \<open>\<open>a.eq_ignore_ascii_case(b)\<close>.\<close>

definition ascii_lower :: "u8 \<Rightarrow> u8" where
  "ascii_lower b = (if 65 \<le> b \<and> b \<le> 90 then b + 32 else b)"

definition eq_ignore_ascii_case :: "bytes \<Rightarrow> bytes \<Rightarrow> bool" where
  "eq_ignore_ascii_case a b \<longleftrightarrow> map ascii_lower a = map ascii_lower b"

text \<open>
  \<open>&s[..n]\<close> on a string of at least \<open>n\<close> bytes panics unless \<open>n\<close> is a character
  boundary: the end of the string or a position not inside a character.
\<close>

definition is_char_boundary :: "bytes \<Rightarrow> nat \<Rightarrow> bool" where
  "is_char_boundary s n \<longleftrightarrow>
    n = 0 \<or> n = length s \<or> (n < length s \<and> \<not> is_cont (s ! n))"

definition str_slice_to :: "bytes \<Rightarrow> nat \<Rightarrow> panic + bytes" where
  "str_slice_to s n = (if is_char_boundary s n then Inr (take n s) else Inl Char_Boundary)"

lemma ascii_char_boundary: "ascii s \<Longrightarrow> n \<le> length s \<Longrightarrow> is_char_boundary s n"
  by (auto simp: is_char_boundary_def ascii_def is_cont_ascii)

section \<open>Numbers\<close>

text \<open>
  \<open>s.parse::<u8>()\<close> and its kin: an optional plus sign, then at least one digit; the
  bound \<open>m\<close> is the largest value of the type, and every overflow is an error.
\<close>

fun parse_digits :: "nat \<Rightarrow> nat \<Rightarrow> bytes \<Rightarrow> nat option" where
  "parse_digits m acc [] = Some acc"
| "parse_digits m acc (b # bs) =
    (if 48 \<le> b \<and> b \<le> 57 then
       (let v = acc * 10 + (unat b - 48) in if v \<le> m then parse_digits m v bs else None)
     else None)"

definition parse_uint :: "nat \<Rightarrow> bytes \<Rightarrow> nat option" where
  "parse_uint m s =
    (case s of [] \<Rightarrow> None
     | b # r \<Rightarrow>
       if (b = 43 \<or> b = 45) \<and> r = [] then None
       else if b = 43 then parse_digits m 0 r
       else parse_digits m 0 s)"

text \<open>\<open>Display\<close> of an unsigned integer.\<close>

fun dec_digits :: "nat \<Rightarrow> bytes" where
  "dec_digits n =
    (if n < 10 then [48 + of_nat n] else dec_digits (n div 10) @ [48 + of_nat (n mod 10)])"

declare dec_digits.simps [simp del]

lemma unat_digit: "d < 10 \<Longrightarrow> unat (48 + of_nat d :: u8) = 48 + d"
  by (simp add: unat_word_ariths unat_of_nat)

lemma digit_range:
  "d < 10 \<Longrightarrow> (48 :: u8) \<le> 48 + of_nat d \<and> (48 + of_nat d :: u8) \<le> 57"
  by (simp add: word_le_nat_alt unat_digit)

lemma dec_digits_set: "b \<in> set (dec_digits n) \<Longrightarrow> 48 \<le> b \<and> b \<le> 57"
proof (induction n rule: dec_digits.induct)
  case (1 n)
  then show ?case
    by (subst (asm) dec_digits.simps) (auto simp: digit_range split: if_splits)
qed

lemma dec_digits_not_Nil [simp]: "dec_digits n \<noteq> []"
  by (subst dec_digits.simps) simp

lemma ascii_dec_digits [simp]: "ascii (dec_digits n)"
  unfolding ascii_def
proof
  fix b
  assume "b \<in> set (dec_digits n)"
  from dec_digits_set [OF this] have "b \<le> 57" by simp
  then show "b < 0x80" by (rule order_le_less_trans) simp
qed

lemma no_ws_dec_digits [simp]: "no_ws (dec_digits n)"
  using dec_digits_set [of _ n] by (subst no_ws_ascii) (simp, force)

lemma parse_digits_append:
  "parse_digits m acc (xs @ ys) =
    (case parse_digits m acc xs of None \<Rightarrow> None | Some v \<Rightarrow> parse_digits m v ys)"
  by (induction xs arbitrary: acc) (auto simp: Let_def)

lemma parse_digits_dec: "n \<le> m \<Longrightarrow> parse_digits m 0 (dec_digits n) = Some n"
proof (induction n rule: dec_digits.induct)
  case (1 n)
  show ?case
  proof (cases "n < 10")
    case True
    with "1.prems" show ?thesis
      by (subst dec_digits.simps) (simp add: digit_range unat_digit)
  next
    case False
    from False "1.prems" have "parse_digits m 0 (dec_digits (n div 10)) = Some (n div 10)"
      by (intro "1.IH") auto
    with False "1.prems" show ?thesis
      by (subst dec_digits.simps) (simp add: parse_digits_append digit_range unat_digit)
  qed
qed

lemma parse_uint_dec: "n \<le> m \<Longrightarrow> parse_uint m (dec_digits n) = Some n"
proof -
  assume n: "n \<le> m"
  obtain b r where br: "dec_digits n = b # r"
    by (cases "dec_digits n") auto
  then have "48 \<le> b" using dec_digits_set [of b n] by simp
  then have "b \<noteq> 43" and "b \<noteq> 45" by auto
  with br parse_digits_dec [OF n] show ?thesis
    by (simp add: parse_uint_def)
qed

lemma length_dec_digits: "n < 10 ^ Suc k \<Longrightarrow> length (dec_digits n) \<le> Suc k"
proof (induction k arbitrary: n)
  case 0
  then show ?case by (subst dec_digits.simps) simp
next
  case (Suc k)
  show ?case
  proof (cases "n < 10")
    case False
    have "n div 10 < 10 ^ Suc k" using Suc.prems by (simp add: less_mult_imp_div_less)
    with False Suc.IH show ?thesis by (subst dec_digits.simps) simp
  qed (subst dec_digits.simps, simp)
qed

lemma parse_digits_le: "parse_digits m acc s = Some n \<Longrightarrow> acc \<le> m \<Longrightarrow> n \<le> m"
  by (induction s arbitrary: acc) (auto simp: Let_def split: if_splits)

lemma parse_uint_le: "parse_uint m s = Some n \<Longrightarrow> n \<le> m"
  by (auto simp: parse_uint_def simp del: parse_digits.simps
      dest!: parse_digits_le split: list.splits if_splits)

end
