(* ===== verification/Heapless.thy ===== *)
theory Heapless
  imports Rust_Str
begin

text \<open>
  The \<open>heapless\<close> crate's fixed-capacity containers. The crate is not part of the
  repository, so the one operation all its uses reduce to is a parameter of every
  definition that needs it: \<open>ext N v xs\<close> appends the bytes \<open>xs\<close> to a \<open>Vec<u8, N>\<close> or a
  \<open>String<N>\<close> that holds \<open>v\<close> and answers \<open>None\<close> for the crate's capacity error. The
  locale states the documented contract: an append that fits succeeds, an append that
  does not fit fails and (the container being returned unchanged by the caller)
  writes nothing.
\<close>

type_synonym heapless = "nat \<Rightarrow> bytes \<Rightarrow> bytes \<Rightarrow> bytes option"

section \<open>The operations the firmware calls\<close>

text \<open>\<open>Vec::push\<close>, \<open>String::try_from\<close>, and \<open>let _ = v.push(..)\<close>, which ignores the error.\<close>

definition vec_push :: "heapless \<Rightarrow> nat \<Rightarrow> bytes \<Rightarrow> u8 \<Rightarrow> bytes option" where
  "vec_push ext N v b = ext N v [b]"

definition string_try_from :: "heapless \<Rightarrow> nat \<Rightarrow> bytes \<Rightarrow> bytes option" where
  "string_try_from ext N s = ext N [] s"

definition try_append :: "heapless \<Rightarrow> nat \<Rightarrow> bytes \<Rightarrow> bytes \<Rightarrow> bytes" where
  "try_append ext N v xs = (case ext N v xs of None \<Rightarrow> v | Some v' \<Rightarrow> v')"

text \<open>
  \<open>let _ = write!(buf, ..)\<close>: the pieces of the format string are appended in order, and
  the first one that does not fit ends the formatting, keeping what was written.
\<close>

fun write_pieces :: "heapless \<Rightarrow> nat \<Rightarrow> bytes \<Rightarrow> bytes list \<Rightarrow> bytes" where
  "write_pieces ext N buf [] = buf"
| "write_pieces ext N buf (p # ps) =
    (case ext N buf p of None \<Rightarrow> buf | Some buf' \<Rightarrow> write_pieces ext N buf' ps)"

text \<open>What a string of capacity \<open>N\<close> holds when it is safe to store: valid, and free of NUL.\<close>

definition wf_string :: "nat \<Rightarrow> bytes \<Rightarrow> bool" where
  "wf_string N s \<longleftrightarrow> length s \<le> N \<and> utf8_valid s \<and> 0 \<notin> set s"

declare wf_string_def [inv_defs]

lemma wf_string_Nil [simp]: "wf_string N []"
  by (simp add: wf_string_def)

lemma wf_string_mono: "wf_string M s \<Longrightarrow> length s \<le> N \<Longrightarrow> wf_string N s"
  by (simp add: wf_string_def)

section \<open>The contract\<close>

locale fixed_capacity =
  fixes ext :: heapless
  assumes append_fits: "length v + length xs \<le> N \<Longrightarrow> ext N v xs = Some (v @ xs)"
    and append_full: "N < length v + length xs \<Longrightarrow> ext N v xs = None"
begin

lemma append_eq: "ext N v xs = (if length v + length xs \<le> N then Some (v @ xs) else None)"
  by (simp add: append_fits append_full)

lemma vec_push_eq: "vec_push ext N v b = (if length v < N then Some (v @ [b]) else None)"
  by (simp add: vec_push_def append_eq)

lemma try_from_eq: "string_try_from ext N s = (if length s \<le> N then Some s else None)"
  by (simp add: string_try_from_def append_eq)

lemma try_append_eq:
  "try_append ext N v xs = (if length v + length xs \<le> N then v @ xs else v)"
  by (simp add: try_append_def append_eq)

lemma write_pieces_fits:
  "length buf + length (concat ps) \<le> N \<Longrightarrow> write_pieces ext N buf ps = buf @ concat ps"
  by (induction ps arbitrary: buf) (auto simp: append_eq)

lemma write_pieces_bound:
  "length buf \<le> N \<Longrightarrow> length (write_pieces ext N buf ps) \<le> N"
  by (induction ps arbitrary: buf) (auto simp: append_eq)

end

section \<open>A provider\<close>

text \<open>The bounded byte buffer that meets the contract; witnesses evaluate with it.\<close>

definition bounded_append :: heapless where
  "bounded_append N v xs = (if length v + length xs \<le> N then Some (v @ xs) else None)"

interpretation hl: fixed_capacity bounded_append
  by unfold_locales (simp_all add: bounded_append_def)

lemma bounded_capacity: "fixed_capacity bounded_append"
  by (rule hl.fixed_capacity_axioms)

end
