(* ===== verification/Net_Config.thy ===== *)
theory Net_Config
  imports Heapless
begin

text \<open>
  \<open>logic/src/config.rs\<close>: the persisted network configuration, its 175-byte EEPROM image,
  the validating parser of that image, and the parsers of the web form's address and port
  fields.
\<close>

section \<open>The configuration\<close>

type_synonym ipv4 = "u8 \<times> u8 \<times> u8 \<times> u8"

fun octets :: "ipv4 \<Rightarrow> bytes" where
  "octets (a, b, c, d) = [a, b, c, d]"

definition DEFAULT_IP :: ipv4 where "DEFAULT_IP = (192, 168, 137, 2)"
definition DEFAULT_GW :: ipv4 where "DEFAULT_GW = (192, 168, 137, 1)"
definition DEFAULT_BROKER :: ipv4 where "DEFAULT_BROKER = (192, 168, 137, 1)"
definition DEFAULT_PORT :: u16 where "DEFAULT_PORT = 1883"
definition DEFAULT_PREFIX :: u8 where "DEFAULT_PREFIX = 24"
definition DEFAULT_ID :: bytes where "DEFAULT_ID = str ''stm32-jzf407''"
definition MAGIC :: bytes where "MAGIC = [0xC0, 0x4F, 0x19, 0x1E]"
definition LEN :: nat where "LEN = 175"
definition CRED_MAX :: nat where "CRED_MAX = 32"

record network_config =
  ip :: ipv4
  prefix_len :: u8
  gateway :: ipv4
  broker_ip :: ipv4
  broker_port :: u16
  client_id :: bytes
  mqtt_user :: bytes
  mqtt_pass :: bytes
  web_user :: bytes
  web_pass :: bytes

definition default_config :: "heapless \<Rightarrow> network_config" where
  "default_config ext =
    \<lparr>ip = DEFAULT_IP, prefix_len = DEFAULT_PREFIX, gateway = DEFAULT_GW,
     broker_ip = DEFAULT_BROKER, broker_port = DEFAULT_PORT,
     client_id = (case string_try_from ext 24 DEFAULT_ID of None \<Rightarrow> [] | Some s \<Rightarrow> s),
     mqtt_user = [], mqtt_pass = [], web_user = [], web_pass = []\<rparr>"

section \<open>The EEPROM image\<close>

text \<open>\<open>write_str(&mut b[i..j], s)\<close>.\<close>

definition write_str :: "nat \<Rightarrow> nat \<Rightarrow> bytes \<Rightarrow> bytes \<Rightarrow> bytes" where
  "write_str i j s b = (let n = min (length s) (j - i) in put i (take n s) b)"

definition to_bytes :: "network_config \<Rightarrow> bytes" where
  "to_bytes c =
    (let b = replicate LEN 0;
         b = put 0 MAGIC b;
         b = put 4 (octets (ip c)) b;
         b = put 8 [prefix_len c] b;
         b = put 12 (octets (gateway c)) b;
         b = put 16 (octets (broker_ip c)) b;
         b = put 20 [ucast (drop_bit 8 (broker_port c))] b;
         b = put 21 [ucast (broker_port c)] b;
         n = min (length (client_id c)) 24;
         b = put 23 (take n (client_id c)) b;
         b = write_str 47 79 (mqtt_user c) b;
         b = write_str 79 111 (mqtt_pass c) b;
         b = write_str 111 143 (web_user c) b
     in write_str 143 175 (web_pass c) b)"

text \<open>The bytes of a slot before its first NUL, or all of them.\<close>

definition until_nul :: "bytes \<Rightarrow> bytes" where
  "until_nul slot = takeWhile (\<lambda>c. c \<noteq> 0) slot"

definition read_str :: "heapless \<Rightarrow> nat \<Rightarrow> bytes \<Rightarrow> bytes" where
  "read_str ext N slot =
    (case from_utf8 (until_nul slot) of
       Some s \<Rightarrow> (case string_try_from ext N s of None \<Rightarrow> [] | Some t \<Rightarrow> t)
     | None \<Rightarrow> [])"

definition from_bytes :: "heapless \<Rightarrow> bytes \<Rightarrow> network_config option" where
  "from_bytes ext b =
    (if length b < LEN then None
     else if sub_slice 0 4 b \<noteq> MAGIC then None
     else let prefix = b ! 8 in
       if \<not> (1 \<le> prefix \<and> prefix \<le> 32) then None
       else let port = push_bit 8 (ucast (b ! 20)) OR (ucast (b ! 21) :: u16) in
         if port = 0 then None
         else (case from_utf8 (until_nul (sub_slice 23 47 b)) of
             None \<Rightarrow> None
           | Some sid \<Rightarrow>
             (case string_try_from ext 24 sid of
               None \<Rightarrow> None
             | Some cid \<Rightarrow> Some
                 \<lparr>ip = (b ! 4, b ! 5, b ! 6, b ! 7), prefix_len = prefix,
                  gateway = (b ! 12, b ! 13, b ! 14, b ! 15),
                  broker_ip = (b ! 16, b ! 17, b ! 18, b ! 19), broker_port = port,
                  client_id = cid,
                  mqtt_user = read_str ext CRED_MAX (sub_slice 47 79 b),
                  mqtt_pass = read_str ext CRED_MAX (sub_slice 79 111 b),
                  web_user = read_str ext CRED_MAX (sub_slice 111 143 b),
                  web_pass = read_str ext CRED_MAX (sub_slice 143 175 b)\<rparr>)))"

section \<open>Form fields\<close>

definition parse_u8 :: "bytes \<Rightarrow> u8 option" where
  "parse_u8 s = map_option of_nat (parse_uint 255 s)"

definition parse_u16 :: "bytes \<Rightarrow> u16 option" where
  "parse_u16 s = map_option of_nat (parse_uint 65535 s)"

text \<open>The loop over the four octets takes one part each; a fifth part is an error.\<close>

definition parse_ipv4 :: "bytes \<Rightarrow> ipv4 option" where
  "parse_ipv4 s =
    (case split_on 46 s of
       [p, q, r, t] \<Rightarrow>
         (case (parse_u8 p, parse_u8 q, parse_u8 r, parse_u8 t) of
            (Some a, Some b, Some c, Some d) \<Rightarrow> Some (a, b, c, d)
          | _ \<Rightarrow> None)
     | _ \<Rightarrow> None)"

definition parse_port :: "bytes \<Rightarrow> u16 option" where
  "parse_port s =
    (case parse_u16 (trim s) of
       None \<Rightarrow> None
     | Some p \<Rightarrow> if p = 0 then None else Some p)"

section \<open>Well-formed configurations\<close>

text \<open>
  What a stored configuration must satisfy to survive the image: strings within their slot,
  valid and free of NUL, a prefix that \<open>Ipv4Cidr::new\<close> accepts, and a nonzero port.
\<close>

definition wf_config :: "network_config \<Rightarrow> bool" where
  "wf_config c \<longleftrightarrow>
    1 \<le> prefix_len c \<and> prefix_len c \<le> 32 \<and> broker_port c \<noteq> 0 \<and>
    wf_string 24 (client_id c) \<and> wf_string CRED_MAX (mqtt_user c) \<and>
    wf_string CRED_MAX (mqtt_pass c) \<and> wf_string CRED_MAX (web_user c) \<and>
    wf_string CRED_MAX (web_pass c)"

declare wf_config_def [inv_defs]

section \<open>The layout of the image\<close>

definition pad :: "nat \<Rightarrow> bytes \<Rightarrow> bytes" where
  "pad n s = take n s @ replicate (n - length s) 0"

lemma length_pad [simp]: "length (pad n s) = n"
  by (simp add: pad_def)

lemma length_octets [simp]: "length (octets a) = 4"
  by (cases a) simp

text \<open>A partly written image: the bytes so far, then zeros.\<close>

definition img :: "bytes \<Rightarrow> bytes" where
  "img a = a @ replicate (LEN - length a) 0"

lemma put_img:
  "length a \<le> i \<Longrightarrow> i + length xs \<le> LEN \<Longrightarrow>
    put i xs (img a) = img (a @ replicate (i - length a) 0 @ xs)"
  by (auto simp: put_def img_def)

lemma img_zeros: "length a + n \<le> LEN \<Longrightarrow> img (a @ replicate n 0) = img a"
  by (simp add: img_def flip: replicate_add)

lemma write_str_img:
  assumes "length a = i" and "i \<le> j" and "j \<le> LEN"
  shows "write_str i j s (img a) = img (a @ pad (j - i) s)"
proof -
  have "write_str i j s (img a) = img (a @ take (j - i) s)"
    using assms by (simp add: write_str_def put_img min_def)
  also have "\<dots> = img ((a @ take (j - i) s) @ replicate (j - i - length s) 0)"
    using assms by (intro img_zeros [symmetric]) auto
  finally show ?thesis by (simp add: pad_def)
qed

lemma to_bytes_layout:
  "to_bytes c =
    MAGIC @ octets (ip c) @ [prefix_len c] @ [0, 0, 0] @ octets (gateway c) @ octets (broker_ip c)
    @ [ucast (drop_bit 8 (broker_port c)), ucast (broker_port c)] @ [0]
    @ pad 24 (client_id c) @ pad 32 (mqtt_user c) @ pad 32 (mqtt_pass c)
    @ pad 32 (web_user c) @ pad 32 (web_pass c)"
proof -
  have zero: "replicate 175 (0 :: u8) = img []" by (simp add: img_def LEN_def)
  have num: "LEN = 175" "length MAGIC = 4" "replicate 3 (0 :: u8) = [0, 0, 0]"
    by (simp_all add: LEN_def MAGIC_def numeral_eq_Suc)
  let ?a = "MAGIC @ octets (ip c) @ [prefix_len c] @ [0, 0, 0] @ octets (gateway c)
    @ octets (broker_ip c) @ [ucast (drop_bit 8 (broker_port c)), ucast (broker_port c)] @ [0]"
  have "img (?a @ take (min (length (client_id c)) 24) (client_id c)) = img (?a @ pad 24 (client_id c))"
    using write_str_img [of ?a 23 47 "client_id c"] by (simp add: num write_str_def put_img)
  then have "to_bytes c =
    (let b = img (?a @ pad 24 (client_id c));
         b = write_str 47 79 (mqtt_user c) b;
         b = write_str 79 111 (mqtt_pass c) b;
         b = write_str 111 143 (web_user c) b
     in write_str 143 175 (web_pass c) b)"
    by (simp add: to_bytes_def Let_def zero put_img num)
  then show ?thesis
    by (simp add: Let_def write_str_img num) (simp add: img_def num)
qed

section \<open>Reading the fields back\<close>

lemma length_to_bytes [simp]: "length (to_bytes c) = LEN"
  by (simp add: to_bytes_layout MAGIC_def LEN_def)

lemma port_join: "push_bit 8 (ucast (ucast (drop_bit 8 p) :: u8)) OR ucast (ucast p :: u8) = (p :: u16)"
  by (rule bit_word_eqI) (auto simp: bit_simps)

lemma to_bytes_fields:
  "sub_slice 0 4 (to_bytes c) = MAGIC"
  "to_bytes c ! 8 = prefix_len c"
  "(to_bytes c ! 4, to_bytes c ! 5, to_bytes c ! 6, to_bytes c ! 7) = ip c"
  "(to_bytes c ! 12, to_bytes c ! 13, to_bytes c ! 14, to_bytes c ! 15) = gateway c"
  "(to_bytes c ! 16, to_bytes c ! 17, to_bytes c ! 18, to_bytes c ! 19) = broker_ip c"
  "push_bit 8 (ucast (to_bytes c ! 20)) OR ucast (to_bytes c ! 21) = broker_port c"
  by (cases "ip c"; cases "gateway c"; cases "broker_ip c";
      simp add: to_bytes_layout MAGIC_def sub_slice_def port_join)+

lemma to_bytes_slots:
  "sub_slice 23 47 (to_bytes c) = pad 24 (client_id c)"
  "sub_slice 47 79 (to_bytes c) = pad 32 (mqtt_user c)"
  "sub_slice 79 111 (to_bytes c) = pad 32 (mqtt_pass c)"
  "sub_slice 111 143 (to_bytes c) = pad 32 (web_user c)"
  "sub_slice 143 175 (to_bytes c) = pad 32 (web_pass c)"
  by (simp_all add: to_bytes_layout MAGIC_def sub_slice_def)

lemma until_nul_pad: "length s \<le> n \<Longrightarrow> 0 \<notin> set s \<Longrightarrow> until_nul (pad n s) = s"
  by (auto simp: until_nul_def pad_def intro!: takeWhile_append_replicate)

lemma until_nul_set: "0 \<notin> set (until_nul s)"
  by (auto simp: until_nul_def dest: set_takeWhileD)

lemma length_until_nul: "length (until_nul s) \<le> length s"
  by (simp add: until_nul_def length_takeWhile_le)

lemma from_utf8_Some: "from_utf8 b = Some s \<longleftrightarrow> utf8_valid b \<and> s = b"
  by (auto simp: from_utf8_def)

section \<open>Parsing an image\<close>

context fixed_capacity
begin

lemma read_str_wf: "wf_string N (read_str ext N slot)"
  using until_nul_set [of slot]
  by (auto simp: read_str_def wf_string_def try_from_eq from_utf8_def split: option.splits if_splits)

lemma read_str_pad: "wf_string n s \<Longrightarrow> read_str ext n (pad n s) = s"
  by (simp add: read_str_def wf_string_def until_nul_pad from_utf8_def try_from_eq)

lemma from_to_bytes: "wf_config c \<Longrightarrow> from_bytes ext (to_bytes c) = Some c"
proof -
  assume wf: "wf_config c"
  then have id: "wf_string 24 (client_id c)" by (simp add: wf_config_def)
  from wf id show ?thesis
    unfolding from_bytes_def Let_def to_bytes_fields to_bytes_slots
    by (simp add: until_nul_pad from_utf8_def try_from_eq read_str_pad CRED_MAX_def inv_defs)
qed

lemma from_bytes_wf: "from_bytes ext b = Some c \<Longrightarrow> wf_config c"
  by (auto simp: from_bytes_def Let_def wf_config_def read_str_wf wf_string_def [of 24] from_utf8_Some
     try_from_eq until_nul_set split: if_splits option.splits)

lemma default_config_wf: "wf_config (default_config ext)"
proof -
  have "length DEFAULT_ID \<le> 24 \<and> utf8_valid DEFAULT_ID \<and> 0 \<notin> set DEFAULT_ID" by code_simp
  then show ?thesis
    by (auto simp: default_config_def inv_defs DEFAULT_PREFIX_def DEFAULT_PORT_def try_from_eq)
qed

end

text \<open>
  C17: a configuration survives the EEPROM image exactly when it is well-formed: its strings fit
  their slots, are valid UTF-8 without NUL, its prefix length is in 1..32 and its port is
  nonzero. Strings may fill their slot completely, with no terminator.
\<close>

theorem config_image_roundtrip:
  assumes "fixed_capacity ext"
  shows "from_bytes ext (to_bytes c) = Some c \<longleftrightarrow> wf_config c"
  using fixed_capacity.from_to_bytes [OF assms] fixed_capacity.from_bytes_wf [OF assms] by blast

theorem config_image_roundtrip_witness:
  "from_bytes bounded_append (to_bytes (default_config bounded_append)) = Some (default_config bounded_append)"
  using config_image_roundtrip [OF bounded_capacity] hl.default_config_wf by blast

text \<open>
  Whatever bytes the EEPROM holds, a configuration that the parser accepts is well-formed;
  in particular no prefix length that would panic at boot, no zero port and no string with
  an embedded NUL ever leaves the parser.
\<close>

lemma from_bytes_accepts_wf:
  assumes "fixed_capacity ext" and "from_bytes ext b = Some c"
  shows "wf_config c"
  using assms(2) by (rule fixed_capacity.from_bytes_wf [OF assms(1)])

section \<open>Images from before the credentials\<close>

definition blank_credentials :: "network_config \<Rightarrow> network_config" where
  "blank_credentials c = c\<lparr>mqtt_user := [], mqtt_pass := [], web_user := [], web_pass := []\<rparr>"

text \<open>A slot of blank or cleared cells holds no string.\<close>

lemma blank_slot_empty:
  assumes "set slot \<subseteq> {0, 0xFF}"
  shows "from_utf8 (until_nul slot) \<in> {Some [], None}"
proof (cases "until_nul slot")
  case Nil
  then show ?thesis by (simp add: from_utf8_def utf8_valid.simps)
next
  case (Cons x xs)
  then have "x \<in> set (until_nul slot)" by simp
  then have "x \<in> set slot" "x \<noteq> 0" using set_takeWhileD unfolding until_nul_def by fastforce+
  then have "x = 0xFF" using assms by auto
  then show ?thesis using Cons by (simp add: from_utf8_def utf8_valid.simps)
qed

lemma legacy_image_fields:
  assumes "length rest = 128"
  shows "k < 47 \<Longrightarrow> (take 47 (to_bytes c) @ rest) ! k = to_bytes c ! k"
    and "j \<le> 47 \<Longrightarrow> sub_slice i j (take 47 (to_bytes c) @ rest) = sub_slice i j (to_bytes c)"
    and "47 \<le> i \<Longrightarrow> sub_slice i j (take 47 (to_bytes c) @ rest) = sub_slice (i - 47) (j - 47) rest"
    and "length (take 47 (to_bytes c) @ rest) = LEN"
proof -
  have len: "length (take 47 (to_bytes c)) = 47" by (simp add: LEN_def)
  then show "k < 47 \<Longrightarrow> (take 47 (to_bytes c) @ rest) ! k = to_bytes c ! k"
    by (simp add: nth_append)
  show "47 \<le> i \<Longrightarrow> sub_slice i j (take 47 (to_bytes c) @ rest) = sub_slice (i - 47) (j - 47) rest"
    using len by (simp add: sub_slice_def)
  show "length (take 47 (to_bytes c) @ rest) = LEN" using len assms by (simp add: LEN_def)
  show "sub_slice i j (take 47 (to_bytes c) @ rest) = sub_slice i j (to_bytes c)" if "j \<le> 47"
  proof -
    have "take (j - i) (drop i (take 47 (to_bytes c))) = take (j - i) (drop i (to_bytes c))"
      using that by (simp add: drop_take min_def)
    then show ?thesis using len that by (cases "i \<le> 47") (auto simp: sub_slice_def)
  qed
qed

text \<open>
  C35: an image from before the credential slots upgrades: when the bytes from 47 on, where the
  slots are now, hold nothing but blank (\<open>0xFF\<close>) or cleared cells, it still parses, the network
  settings are kept and every credential is empty. The original 49-byte layout on a blank chip is
  one such image, with two cleared bytes before the blank ones.
\<close>

theorem legacy_image_upgrades:
  assumes "fixed_capacity ext" and "wf_config c" and "length rest = 128" and "set rest \<subseteq> {0, 0xFF}"
  shows "from_bytes ext (take 47 (to_bytes c) @ rest) = Some (blank_credentials c)"
proof -
  have slot: "read_str ext CRED_MAX (sub_slice i j rest) = []" for i j
  proof -
    have "set (sub_slice i j rest) \<subseteq> {0, 0xFF}"
      using assms(4) set_take_subset set_drop_subset unfolding sub_slice_def by fast
    then show ?thesis
      using blank_slot_empty [of "sub_slice i j rest"]
      by (auto simp: read_str_def fixed_capacity.try_from_eq [OF assms(1)])
  qed
  show ?thesis
    using assms(2) unfolding from_bytes_def Let_def
    by (cases c) (simp add: assms(3) legacy_image_fields [OF assms(3)] to_bytes_fields to_bytes_slots slot LEN_def
        blank_credentials_def until_nul_pad from_utf8_def fixed_capacity.try_from_eq [OF assms(1)] inv_defs)
qed

theorem legacy_image_upgrades_witness:
  "from_bytes bounded_append (take 49 (to_bytes (default_config bounded_append)) @ replicate 126 0xFF)
    = Some (blank_credentials (default_config bounded_append))"
proof -
  have "take 49 (to_bytes (default_config bounded_append)) @ replicate 126 0xFF
      = take 47 (to_bytes (default_config bounded_append)) @ [0, 0] @ replicate 126 0xFF" by code_simp
  then show ?thesis
    using legacy_image_upgrades [OF bounded_capacity hl.default_config_wf, of "[0, 0] @ replicate 126 0xFF"] by simp
qed

end
