(* ===== verification/Eeprom.thy ===== *)
theory Eeprom
  imports Prelude
begin

text \<open>
  \<open>src/eeprom.rs\<close>: the AT24C02 driver. The I2C peripheral belongs to \<open>embassy_stm32\<close> and the chip
  to the board, so the bus is a parameter: a record of the two blocking transfers the driver
  calls, the passing of time (a write cycle must end before the next transfer), and the error
  value \<open>config.rs\<close> names. The locale states the data sheet's contract over a memory view of
  the device; a simulated chip with a write cycle and a fault schedule meets it.
\<close>

section \<open>The bus\<close>

record ('d, 'e) i2c_bus =
  blocking_write :: "'d \<Rightarrow> u8 \<Rightarrow> bytes \<Rightarrow> ('e + unit) \<times> 'd"
  blocking_write_read :: "'d \<Rightarrow> u8 \<Rightarrow> bytes \<Rightarrow> nat \<Rightarrow> ('e + bytes) \<times> 'd"
  after_ms :: "nat \<Rightarrow> 'd \<Rightarrow> 'd"
  overrun :: 'e

section \<open>The driver\<close>

definition EEPROM_ADDR :: u8 where "EEPROM_ADDR = 0x50"
definition WRITE_CYCLE_MS :: nat where "WRITE_CYCLE_MS = 5"

text \<open>\<open>Eeprom::init_global\<close>: the global slot is filled; a held mutex would panic.\<close>

definition init_global :: "'d \<Rightarrow> 'd option mutex \<Rightarrow> panic + 'd option mutex" where
  "init_global d slot =
    (case try_lock slot of None \<Rightarrow> Inl Unwrap_Failed | Some _ \<Rightarrow> Inr (Unheld (Some d)))"

text \<open>\<open>Eeprom::read\<close> into a buffer of \<open>n\<close> bytes; on an error the callers drop the buffer.\<close>

definition read_bytes :: "('d, 'e) i2c_bus \<Rightarrow> u8 \<Rightarrow> nat \<Rightarrow> 'd \<Rightarrow> ('e + bytes) \<times> 'd" where
  "read_bytes bus addr n d = blocking_write_read bus d EEPROM_ADDR [addr] n"

text \<open>
  \<open>Eeprom::write_bytes\<close>: one byte per transfer, the first error ends the loop. One round of the
  loop ends in an await, the write cycle.
\<close>

definition write_step :: "('d, 'e) i2c_bus \<Rightarrow> u8 \<Rightarrow> nat \<Rightarrow> u8 \<Rightarrow> 'd \<Rightarrow> ('e + unit) \<times> 'd" where
  "write_step bus start i byte d =
    (let mem_addr = start + of_nat i in
     case blocking_write bus d EEPROM_ADDR [mem_addr, byte] of
       (Inl e, d') \<Rightarrow> (Inl e, d')
     | (Inr u, d') \<Rightarrow> (Inr u, after_ms bus WRITE_CYCLE_MS d'))"

fun write_loop :: "('d, 'e) i2c_bus \<Rightarrow> u8 \<Rightarrow> nat \<Rightarrow> bytes \<Rightarrow> 'd \<Rightarrow> ('e + unit) \<times> 'd" where
  "write_loop bus start i [] d = (Inr (), d)"
| "write_loop bus start i (byte # data) d =
    (case write_step bus start i byte d of
       (Inl e, d') \<Rightarrow> (Inl e, d')
     | (Inr _, d') \<Rightarrow> write_loop bus start (Suc i) data d')"

definition write_bytes :: "('d, 'e) i2c_bus \<Rightarrow> u8 \<Rightarrow> bytes \<Rightarrow> 'd \<Rightarrow> ('e + unit) \<times> 'd" where
  "write_bytes bus start data d = write_loop bus start 0 data d"

declare read_bytes_def [step_defs] write_bytes_def [step_defs]

section \<open>Memory\<close>

text \<open>
  The 256 cells of the chip as a function; \<open>overlay c a bs\<close> are the cells after \<open>bs\<close> was written
  from address \<open>a\<close> on, \<open>window c a n\<close> the \<open>n\<close> bytes a sequential read from \<open>a\<close> returns. Addresses
  wrap, as the chip's address counter does.
\<close>

type_synonym cells = "u8 \<Rightarrow> u8"

definition overlay :: "cells \<Rightarrow> u8 \<Rightarrow> bytes \<Rightarrow> cells" where
  "overlay c a bs = (\<lambda>x. if unat (x - a) < length bs then bs ! unat (x - a) else c x)"

definition window :: "cells \<Rightarrow> u8 \<Rightarrow> nat \<Rightarrow> bytes" where
  "window c a n = map (\<lambda>i. c (a + of_nat i)) [0..<n]"

lemma length_window [simp]: "length (window c a n) = n"
  by (simp add: window_def)

lemma window_nth [simp]: "i < n \<Longrightarrow> window c a n ! i = c (a + of_nat i)"
  by (simp add: window_def)

lemma overlay_Nil [simp]: "overlay c a [] = c"
  by (simp add: overlay_def)

lemma offset_eq:
  assumes "i < 256"
  shows "(x :: u8) = a + of_nat i \<longleftrightarrow> unat (x - a) = i"
proof -
  have "unat (of_nat i :: u8) = i" using assms by (simp add: unat_of_nat)
  moreover have "x = a + of_nat i \<longleftrightarrow> x - a = of_nat i" by (auto simp: algebra_simps)
  ultimately show ?thesis using word_unat_eq_iff [of "x - a" "of_nat i"] by simp
qed

lemma unat_of_nat_byte [simp]: "i < 256 \<Longrightarrow> unat (of_nat i :: u8) = i"
  by (simp add: unat_of_nat)

lemma overlay_snoc:
  assumes "i < length bs" and "length bs \<le> 256"
  shows "(overlay c a (take i bs))(a + of_nat i := bs ! i) = overlay c a (take (Suc i) bs)"
proof
  fix x
  show "((overlay c a (take i bs))(a + of_nat i := bs ! i)) x = overlay c a (take (Suc i) bs) x"
    using assms offset_eq [of i x a] by (auto simp: overlay_def less_Suc_eq)
qed

lemma window_overlay_torn:
  assumes "length bs \<le> 256" and "k \<le> length bs"
  shows "window (overlay c a (take k bs)) a (length bs) = take k bs @ drop k (window c a (length bs))"
  using assms by (intro nth_equalityI) (auto simp: overlay_def nth_append)

lemma window_overlay: "length bs \<le> 256 \<Longrightarrow> window (overlay c a bs) a (length bs) = bs"
  using window_overlay_torn [of bs "length bs" c a] by simp

lemma window_upd:
  assumes "i < n" and "n \<le> 256"
  shows "window (c(a + of_nat i := b)) a n = (window c a n)[i := b]"
proof (rule nth_equalityI)
  fix j assume "j < length (window (c(a + of_nat i := b)) a n)"
  then have j: "j < n" by simp
  then have "a + of_nat j = a + of_nat i \<longleftrightarrow> j = i"
    using assms offset_eq [of i "a + of_nat j" a] by simp
  with j show "window (c(a + of_nat i := b)) a n ! j = (window c a n)[i := b] ! j"
    by (simp add: nth_list_update)
qed simp

lemma torn_upd:
  assumes "i < length bs" and "length w = length bs"
  shows "(take i bs @ drop i w)[i := bs ! i] = take (Suc i) bs @ drop (Suc i) w"
  using assms by (intro nth_equalityI) (auto simp: nth_append nth_list_update min_def less_Suc_eq)

text \<open>A record of which the first \<open>i\<close> bytes are new.\<close>

definition torn :: "bytes \<Rightarrow> nat \<Rightarrow> bytes \<Rightarrow> bytes" where
  "torn new i old = take i new @ drop i old"

lemma torn_Suc: "i < length new \<Longrightarrow> length old = length new \<Longrightarrow> (torn new i old)[i := new ! i] = torn new (Suc i) old"
  by (simp add: torn_def torn_upd)

lemma torn_all [simp]: "length old = length new \<Longrightarrow> torn new (length new) old = new" "torn new 0 old = old"
  by (simp_all add: torn_def)

lemma window_torn:
  "length bs \<le> 256 \<Longrightarrow> i \<le> length bs \<Longrightarrow> window (overlay c a (take i bs)) a (length bs) = torn bs i (window c a (length bs))"
  by (simp add: torn_def window_overlay_torn)

lemma overlay_other: "length bs \<le> unat (x - a) \<Longrightarrow> overlay c a bs x = c x"
  by (simp add: overlay_def)

section \<open>The contract of the chip\<close>

text \<open>
  An acknowledged two-byte write stores the byte, a refused one stores nothing, a read returns
  the addressed cells and, like the passing of time, changes none.
\<close>

locale at24c02 =
  fixes bus :: "('d, 'e) i2c_bus" and cells :: "'d \<Rightarrow> cells"
  assumes write_ack: "blocking_write bus d EEPROM_ADDR [a, b] = (Inr u, d') \<Longrightarrow> cells d' = (cells d)(a := b)"
    and write_nak: "blocking_write bus d EEPROM_ADDR [a, b] = (Inl e, d') \<Longrightarrow> cells d' = cells d"
    and read_ack: "blocking_write_read bus d EEPROM_ADDR [a] n = (Inr bs, d') \<Longrightarrow> bs = window (cells d) a n"
    and read_keeps: "blocking_write_read bus d EEPROM_ADDR [a] n = (r, d') \<Longrightarrow> cells d' = cells d"
    and time_keeps: "cells (after_ms bus t d) = cells d"
begin

lemma write_loop_prefix:
  assumes "write_loop bus a i (drop i bs) d = (r, d')" and "cells d = overlay c a (take i bs)"
    and "length bs \<le> 256" and "i \<le> length bs"
  shows "\<exists>k. i \<le> k \<and> k \<le> length bs \<and> cells d' = overlay c a (take k bs) \<and>
    (case r of Inl e \<Rightarrow> k < length bs | Inr u \<Rightarrow> k = length bs)"
  using assms
proof (induction "length bs - i" arbitrary: i d)
  case 0
  then show ?case by (intro exI [of _ "length bs"]) auto
next
  case (Suc n)
  then have i: "i < length bs" by simp
  obtain s d1 where w: "blocking_write bus d EEPROM_ADDR [a + of_nat i, bs ! i] = (s, d1)"
    by (cases "blocking_write bus d EEPROM_ADDR [a + of_nat i, bs ! i]")
  have dr: "drop i bs = bs ! i # drop (Suc i) bs" using i by (simp add: Cons_nth_drop_Suc)
  show ?case
  proof (cases s)
    case (Inl e)
    with w Suc.prems dr write_nak [of d "a + of_nat i" "bs ! i" e d1]
    have "cells d' = overlay c a (take i bs) \<and> r = Inl e" by (auto simp: write_step_def)
    with i show ?thesis by (intro exI [of _ i]) auto
  next
    case (Inr u)
    let ?d = "after_ms bus WRITE_CYCLE_MS d1"
    have "write_loop bus a (Suc i) (drop (Suc i) bs) ?d = (r, d')"
      using w Inr Suc.prems(1) dr by (simp add: write_step_def)
    moreover have "cells ?d = overlay c a (take (Suc i) bs)"
      using w Inr write_ack [of d "a + of_nat i" "bs ! i" u d1] Suc.prems(2,3) overlay_snoc [OF i]
      by (simp add: time_keeps)
    ultimately have "\<exists>k. Suc i \<le> k \<and> k \<le> length bs \<and> cells d' = overlay c a (take k bs) \<and>
        (case r of Inl e \<Rightarrow> k < length bs | Inr u \<Rightarrow> k = length bs)"
      using Suc i by (intro Suc.hyps(1)) auto
    then show ?thesis using Suc_leD by blast
  qed
qed

lemma write_step_cells:
  "write_step bus a i b d = (r, d') \<Longrightarrow>
    cells d' = (case r of Inl e \<Rightarrow> cells d | Inr u \<Rightarrow> (cells d)(a + of_nat i := b))"
  using write_nak write_ack by (auto simp: write_step_def time_keeps split: prod.splits sum.splits)

lemma write_bytes_prefix:
  assumes "write_bytes bus a bs d = (r, d')" and "length bs \<le> 256"
  obtains k where "k \<le> length bs" and "cells d' = overlay (cells d) a (take k bs)"
    and "r = Inr () \<Longrightarrow> k = length bs" and "\<And>e. r = Inl e \<Longrightarrow> k < length bs"
  using write_loop_prefix [of a 0 bs d r d' "cells d"] assms
  by (cases r) (auto simp: write_bytes_def)

lemma write_bytes_ok:
  assumes "write_bytes bus a bs d = (Inr (), d')" and "length bs \<le> 256"
  shows "cells d' = overlay (cells d) a bs"
  using assms by (rule write_bytes_prefix) auto

lemma write_bytes_other:
  assumes "write_bytes bus a bs d = (r, d')" and "length bs \<le> 256" and "length bs \<le> unat (x - a)"
  shows "cells d' x = cells d x"
  using assms(1,2) by (rule write_bytes_prefix) (use assms(3) in \<open>auto intro: overlay_other\<close>)

lemma read_window:
  "read_bytes bus a n d = (Inr bs, d') \<Longrightarrow> bs = window (cells d) a n"
  by (simp add: read_bytes_def read_ack)

lemma read_cells_same: "read_bytes bus a n d = (r, d') \<Longrightarrow> cells d' = cells d"
  by (simp add: read_bytes_def read_keeps)

end

text \<open>
  A chip that answers: an idle chip acknowledges a byte write and is idle again one write cycle
  later, and an idle chip answers a read.
\<close>

locale responsive_at24c02 = at24c02 +
  fixes idle :: "'a \<Rightarrow> bool"
  assumes write_answers: "idle d \<Longrightarrow>
      \<exists>d'. blocking_write bus d EEPROM_ADDR [a, b] = (Inr (), d') \<and> idle (after_ms bus 5 d')"
    and read_answers: "idle d \<Longrightarrow>
      \<exists>bs d'. blocking_write_read bus d EEPROM_ADDR [a] n = (Inr bs, d') \<and> idle d'"
begin

lemma write_step_succeeds:
  assumes "idle d"
  shows "\<exists>d'. write_step bus a i b d = (Inr (), d') \<and> idle d' \<and> cells d' = (cells d)(a + of_nat i := b)"
proof -
  obtain d1 where "blocking_write bus d EEPROM_ADDR [a + of_nat i, b] = (Inr (), d1)" "idle (after_ms bus 5 d1)"
    using write_answers [OF assms] by blast
  then have w: "write_step bus a i b d = (Inr (), after_ms bus 5 d1)" by (simp add: write_step_def WRITE_CYCLE_MS_def)
  with \<open>idle (after_ms bus 5 d1)\<close> write_step_cells [OF w] show ?thesis by simp
qed

lemma write_loop_succeeds:
  "idle d \<Longrightarrow> \<exists>d'. write_loop bus a i bs d = (Inr (), d') \<and> idle d'"
proof (induction bs arbitrary: i d)
  case (Cons b bs)
  obtain d1 where "write_step bus a i b d = (Inr (), d1)" "idle d1"
    using write_step_succeeds [OF Cons.prems] by blast
  with Cons.IH [of d1 "Suc i"] show ?case by simp
qed simp

lemma write_bytes_succeeds:
  "idle d \<Longrightarrow> \<exists>d'. write_bytes bus a bs d = (Inr (), d') \<and> idle d'"
  by (simp add: write_bytes_def write_loop_succeeds)

lemma read_succeeds:
  "idle d \<Longrightarrow> \<exists>d'. read_bytes bus a n d = (Inr (window (cells d) a n), d') \<and> idle d'"
  using read_answers [of d a n] read_ack by (auto simp: read_bytes_def)

end

section \<open>A simulated chip\<close>

text \<open>
  A chip with 256 cells, the rest of its write cycle in milliseconds, during which it refuses
  every transfer, and a schedule that says which transfers fail for another reason; an empty
  schedule has no more faults.
\<close>

record sim =
  sim_cells :: cells
  sim_busy :: nat
  sim_faults :: "bool list"

definition sim_fails :: "sim \<Rightarrow> u8 \<Rightarrow> bool" where
  "sim_fails s addr \<longleftrightarrow> addr \<noteq> 0x50 \<or> 0 < sim_busy s \<or> (sim_faults s \<noteq> [] \<and> hd (sim_faults s))"

definition sim_next :: "sim \<Rightarrow> sim" where
  "sim_next s = s\<lparr>sim_faults := tl (sim_faults s)\<rparr>"

fun sim_write :: "sim \<Rightarrow> u8 \<Rightarrow> bytes \<Rightarrow> (bool + unit) \<times> sim" where
  "sim_write s addr [a, b] =
    (if sim_fails s addr then (Inl False, sim_next s)
     else (Inr (), (sim_next s)\<lparr>sim_cells := (sim_cells s)(a := b), sim_busy := 5\<rparr>))"
| "sim_write s addr _ = (Inl False, sim_next s)"

fun sim_read :: "sim \<Rightarrow> u8 \<Rightarrow> bytes \<Rightarrow> nat \<Rightarrow> (bool + bytes) \<times> sim" where
  "sim_read s addr [a] n =
    (if sim_fails s addr then (Inl False, sim_next s)
     else (Inr (window (sim_cells s) a n), sim_next s))"
| "sim_read s addr _ n = (Inl False, sim_next s)"

definition sim_bus :: "(sim, bool) i2c_bus" where
  "sim_bus = \<lparr>blocking_write = sim_write, blocking_write_read = sim_read,
     after_ms = (\<lambda>t s. s\<lparr>sim_busy := sim_busy s - t\<rparr>), overrun = True\<rparr>"

definition sim_idle :: "sim \<Rightarrow> bool" where
  "sim_idle s \<longleftrightarrow> sim_busy s = 0 \<and> (\<forall>f\<in>set (sim_faults s). \<not> f)"

text \<open>A chip as it leaves the factory: every cell reads \<open>0xFF\<close>.\<close>

definition blank_chip :: sim where
  "blank_chip = \<lparr>sim_cells = (\<lambda>_. 0xFF), sim_busy = 0, sim_faults = []\<rparr>"

interpretation ee: responsive_at24c02 sim_bus sim_cells sim_idle
proof unfold_locales
  fix d d' :: sim and a b u n r bs e t
  show "blocking_write sim_bus d EEPROM_ADDR [a, b] = (Inr u, d') \<Longrightarrow> sim_cells d' = (sim_cells d)(a := b)"
    by (auto simp: sim_bus_def sim_next_def split: if_splits)
  show "blocking_write sim_bus d EEPROM_ADDR [a, b] = (Inl e, d') \<Longrightarrow> sim_cells d' = sim_cells d"
    by (auto simp: sim_bus_def sim_next_def split: if_splits)
  show "blocking_write_read sim_bus d EEPROM_ADDR [a] n = (Inr bs, d') \<Longrightarrow> bs = window (sim_cells d) a n"
    by (auto simp: sim_bus_def split: if_splits)
  show "blocking_write_read sim_bus d EEPROM_ADDR [a] n = (r, d') \<Longrightarrow> sim_cells d' = sim_cells d"
    by (auto simp: sim_bus_def sim_next_def split: if_splits)
  show "sim_cells (after_ms sim_bus t d) = sim_cells d"
    by (simp add: sim_bus_def)
  assume idle: "sim_idle d"
  then have ok: "\<not> sim_fails d EEPROM_ADDR" "\<forall>f\<in>set (tl (sim_faults d)). \<not> f"
    by (cases "sim_faults d"; auto simp: sim_fails_def sim_idle_def EEPROM_ADDR_def)+
  with idle show "\<exists>bs d'. blocking_write_read sim_bus d EEPROM_ADDR [a] n = (Inr bs, d') \<and> sim_idle d'"
    by (simp add: sim_bus_def sim_next_def sim_idle_def)
  from ok show "\<exists>d'. blocking_write sim_bus d EEPROM_ADDR [a, b] = (Inr (), d') \<and> sim_idle (after_ms sim_bus 5 d')"
    by (simp add: sim_bus_def sim_next_def sim_idle_def)
qed

lemma sim_at24c02: "at24c02 sim_bus sim_cells"
  by (rule ee.at24c02_axioms)

lemma sim_responsive: "responsive_at24c02 sim_bus sim_cells sim_idle"
  by (rule ee.responsive_at24c02_axioms)

end
