(* ===== verification/Config_Store.thy ===== *)
theory Config_Store
  imports Net_Config Eeprom
begin

text \<open>
  \<open>src/config.rs\<close>: the configuration record of the EEPROM, read at boot and written by the web
  page. The EEPROM sits in a global mutex around an optional driver.
\<close>

definition CONFIG_BASE :: u8 where "CONFIG_BASE = 16"

section \<open>Operations\<close>

text \<open>
  \<open>EEPROM.try_lock().ok().and_then(..)\<close>, as \<open>load_config\<close> and \<open>load_state\<close> spell it: the bytes
  read, or nothing when the mutex is held, the driver is missing or the transfer fails.
\<close>

definition read_slot ::
  "('d, 'e) i2c_bus \<Rightarrow> u8 \<Rightarrow> nat \<Rightarrow> 'd option mutex \<Rightarrow> bytes option \<times> 'd option mutex" where
  "read_slot bus base n slot =
    (case try_lock slot of
       Some (Some ee) \<Rightarrow>
         (case read_bytes bus base n ee of
            (Inr buf, ee') \<Rightarrow> (Some buf, Unheld (Some ee'))
          | (Inl e, ee') \<Rightarrow> (None, Unheld (Some ee')))
     | _ \<Rightarrow> (None, slot))"

definition load_config ::
  "heapless \<Rightarrow> ('d, 'e) i2c_bus \<Rightarrow> 'd option mutex \<Rightarrow> network_config \<times> 'd option mutex" where
  "load_config ext bus slot =
    (let (read, slot') = read_slot bus CONFIG_BASE LEN slot in
     case read of
       None \<Rightarrow> (default_config ext, slot')
     | Some buf \<Rightarrow>
         (case from_bytes ext buf of
            None \<Rightarrow> (default_config ext, slot')
          | Some c \<Rightarrow> (c, slot')))"

text \<open>\<open>save_config\<close>, behind the awaited lock.\<close>

definition save_config ::
  "('d, 'e) i2c_bus \<Rightarrow> network_config \<Rightarrow> 'd option \<Rightarrow> ('e + unit) \<times> 'd option" where
  "save_config bus cfg guard =
    (case guard of
       None \<Rightarrow> (Inl (overrun bus), None)
     | Some ee \<Rightarrow>
         (let buf = to_bytes cfg; (r, ee') = write_bytes bus CONFIG_BASE buf ee in (r, Some ee')))"

declare read_slot_def [step_defs] load_config_def [step_defs] save_config_def [step_defs]

section \<open>Loading\<close>

lemma load_config_image:
  assumes "read_bytes bus CONFIG_BASE LEN d = (Inr bs, d')"
  shows "fst (load_config ext bus (Unheld (Some d))) =
    (case from_bytes ext bs of None \<Rightarrow> default_config ext | Some c \<Rightarrow> c)"
  using assms by (simp add: load_config_def read_slot_def split: option.splits)

lemma load_config_wf:
  assumes "fixed_capacity ext"
  shows "wf_config (fst (load_config ext bus slot))"
  using fixed_capacity.default_config_wf [OF assms] fixed_capacity.from_bytes_wf [OF assms]
  by (auto simp: load_config_def Let_def split: prod.splits option.splits)

section \<open>Saving\<close>

lemma LEN_le [simp]: "LEN \<le> 256"
  by (simp add: LEN_def)

context at24c02
begin

lemma save_config_prefix:
  assumes "save_config bus cfg (Some d) = (r, g)"
  obtains d' k where "g = Some d'" and "k \<le> LEN"
    and "cells d' = overlay (cells d) CONFIG_BASE (take k (to_bytes cfg))"
    and "r = Inr () \<Longrightarrow> k = LEN" and "\<And>e. r = Inl e \<Longrightarrow> k < LEN"
proof -
  obtain d' where w: "write_bytes bus CONFIG_BASE (to_bytes cfg) d = (r, d')" and g: "g = Some d'"
    using assms by (auto simp: save_config_def Let_def split: prod.splits)
  from w show ?thesis by (rule write_bytes_prefix) (use g that in \<open>auto\<close>)
qed

lemma saved_image:
  assumes "write_bytes bus CONFIG_BASE (to_bytes cfg) d = (Inr (), d')"
  shows "window (cells d') CONFIG_BASE LEN = to_bytes cfg"
  using write_bytes_ok [OF assms] window_overlay [of "to_bytes cfg" "cells d" CONFIG_BASE] by simp

lemma load_config_cells:
  assumes "read_bytes bus CONFIG_BASE LEN d = (Inr bs, d')"
  shows "fst (load_config ext bus (Unheld (Some d))) =
    (case from_bytes ext (window (cells d) CONFIG_BASE LEN) of
       None \<Rightarrow> default_config ext | Some c \<Rightarrow> c)"
  using load_config_image [OF assms] read_window [OF assms] by simp

end

lemma save_config_loads:
  assumes "responsive_at24c02 bus cells idle" and "fixed_capacity ext"
    and "wf_config cfg" and "idle d"
  shows "\<exists>d'. save_config bus cfg (Some d) = (Inr (), Some d') \<and> idle d' \<and>
    fst (load_config ext bus (Unheld (Some d'))) = cfg"
proof -
  note chip = responsive_at24c02.axioms(1) [OF assms(1)]
  obtain d' where w: "write_bytes bus CONFIG_BASE (to_bytes cfg) d = (Inr (), d')" and i: "idle d'"
    using responsive_at24c02.write_bytes_succeeds [OF assms(1,4)] by blast
  obtain d2 where "read_bytes bus CONFIG_BASE LEN d' = (Inr (window (cells d') CONFIG_BASE LEN), d2)"
    using responsive_at24c02.read_succeeds [OF assms(1) i] by blast
  then have "fst (load_config ext bus (Unheld (Some d'))) = cfg"
    using at24c02.saved_image [OF chip w] fixed_capacity.from_to_bytes [OF assms(2,3)]
    by (simp add: load_config_image)
  with w i show ?thesis by (simp add: save_config_def)
qed

lemma failed_save_torn:
  assumes "at24c02 bus cells" and "save_config bus cfg (Some d) = (Inl e, g)"
  shows "\<exists>d' k. g = Some d' \<and> k < LEN \<and>
    window (cells d') CONFIG_BASE LEN = take k (to_bytes cfg) @ drop k (window (cells d) CONFIG_BASE LEN) \<and>
    (\<forall>x. LEN \<le> unat (x - CONFIG_BASE) \<longrightarrow> cells d' x = cells d x)"
proof -
  obtain d' k where g: "g = Some d'" and k: "k < LEN"
    and c: "cells d' = overlay (cells d) CONFIG_BASE (take k (to_bytes cfg))"
    using at24c02.save_config_prefix [OF assms] by metis
  moreover have "window (cells d') CONFIG_BASE LEN
      = take k (to_bytes cfg) @ drop k (window (cells d) CONFIG_BASE LEN)"
    using window_overlay_torn [of "to_bytes cfg" k "cells d" CONFIG_BASE] k c by simp
  moreover have "\<forall>x. LEN \<le> unat (x - CONFIG_BASE) \<longrightarrow> cells d' x = cells d x"
    using k c by (auto simp: overlay_def)
  ultimately show ?thesis by blast
qed

text \<open>A chip whose fourteenth transfer fails, holding the default configuration.\<close>

definition moved_config :: network_config where
  "moved_config = (default_config bounded_append)\<lparr>ip := (10, 0, 0, 2), gateway := (10, 0, 0, 1)\<rparr>"

definition faulty_chip :: sim where
  "faulty_chip = \<lparr>sim_cells = overlay (\<lambda>_. 0xFF) CONFIG_BASE (to_bytes (default_config bounded_append)),
     sim_busy = 0, sim_faults = replicate 13 False @ [True]\<rparr>"

text \<open>
  C33: a save that fails has written a proper prefix of the new image over the old one, and no
  cell outside it; the web page's answer ``config NOT saved'' is true only of the last byte. The next
  boot parses that mixture.
\<close>

theorem failed_save_is_torn:
  assumes "at24c02 bus cells" and "save_config bus cfg (Some d) = (Inl e, g)"
  shows "\<exists>d' k. g = Some d' \<and> k < LEN \<and>
    window (cells d') CONFIG_BASE LEN = take k (to_bytes cfg) @ drop k (window (cells d) CONFIG_BASE LEN) \<and>
    (\<forall>x. LEN \<le> unat (x - CONFIG_BASE) \<longrightarrow> cells d' x = cells d x)"
  using assms by (rule failed_save_torn)

theorem failed_save_is_torn_witness:
  "\<exists>d' k. snd (save_config sim_bus moved_config (Some faulty_chip)) = Some d' \<and> k < LEN \<and>
    window (sim_cells d') CONFIG_BASE LEN = take k (to_bytes moved_config) @
      drop k (window (sim_cells faulty_chip) CONFIG_BASE LEN)"
proof -
  let ?r = "save_config sim_bus moved_config (Some faulty_chip)"
  have "fst ?r = Inl False" by code_simp
  then have "?r = (Inl False, snd ?r)" by (metis prod.collapse)
  from failed_save_is_torn [OF sim_at24c02 this] show ?thesis by blast
qed

text \<open>
  C34: a failed save can move the device to a configuration nobody chose: with one refused transfer
  the save reports an error, and the next boot takes the new address together with the first
  octet of the new gateway and the rest of the old one. The image carries no checksum.
\<close>

theorem failed_save_mixes:
  "\<exists>g. save_config sim_bus moved_config (Some faulty_chip) = (Inl False, g) \<and>
    ip (fst (load_config bounded_append sim_bus (Unheld g))) = ip moved_config \<and>
    gateway (fst (load_config bounded_append sim_bus (Unheld g))) = (10, 168, 137, 1)"
proof -
  let ?r = "save_config sim_bus moved_config (Some faulty_chip)"
  let ?old = "to_bytes (default_config bounded_append)"
  have "fst ?r = Inl False" "snd ?r \<noteq> None" by code_simp+
  then obtain d where r: "?r = (Inl False, Some d)" and d: "d = the (snd ?r)"
    by (metis option.exhaust option.sel prod.collapse)
  have old: "window (sim_cells faulty_chip) CONFIG_BASE LEN = ?old"
    using window_overlay [of ?old] by (simp add: faulty_chip_def)
  obtain k where k: "k < LEN"
    and w: "window (sim_cells d) CONFIG_BASE LEN = take k (to_bytes moved_config) @ drop k ?old"
    using failed_save_torn [OF sim_at24c02 r] old by auto
  have "sim_cells d 28 = 10" "sim_cells d 29 = 168" unfolding d by code_simp+
  moreover have "sim_cells d 28 = window (sim_cells d) CONFIG_BASE LEN ! 12"
    "sim_cells d 29 = window (sim_cells d) CONFIG_BASE LEN ! 13"
    by (simp_all add: LEN_def CONFIG_BASE_def)
  moreover have "?old ! 12 \<noteq> 10" "to_bytes moved_config ! 13 \<noteq> 168" by code_simp+
  ultimately have "12 < k" "k \<le> 13" using k unfolding w
    by (auto simp: nth_append min_def not_less split: if_splits)
  then have k13: "k = 13" by simp
  have "sim_idle d" unfolding d by code_simp
  then obtain d' where "read_bytes sim_bus CONFIG_BASE LEN d
      = (Inr (take 13 (to_bytes moved_config) @ drop 13 ?old), d')"
    using ee.read_succeeds [of d CONFIG_BASE LEN] w k13 by auto
  moreover have
    "map_option (\<lambda>c. (ip c, gateway c)) (from_bytes bounded_append (take 13 (to_bytes moved_config) @ drop 13 ?old))
      = Some (ip moved_config, (10, 168, 137, 1))"
    by code_simp
  ultimately show ?thesis by (auto simp: r load_config_image)
qed

end
