(* ===== verification/Persistence.thy ===== *)
theory Persistence
  imports Config_Store
begin

text \<open>
  \<open>src/persistence.rs\<close>: the LED states in the first eight EEPROM cells, and the cache that spares
  the chip a write when nothing changed. The cache and the EEPROM sit behind mutexes that a
  save takes in this order and holds to its end, so a save is one step on both.
\<close>

section \<open>State\<close>

record output_state =
  led1 :: bool
  led2 :: bool

definition default_output :: output_state where
  "default_output = \<lparr>led1 = False, led2 = False\<rparr>"

definition STATE_MAGIC :: bytes where "STATE_MAGIC = [0xCA, 0xFE, 0xF0, 0x0D]"
definition STATE_BASE :: u8 where "STATE_BASE = 0"

section \<open>Operations\<close>

definition state_of_image :: "bytes option \<Rightarrow> output_state" where
  "state_of_image read =
    (case read of
       Some buf \<Rightarrow>
         if sub_slice 0 4 buf = STATE_MAGIC
         then \<lparr>led1 = (buf ! 5 AND 1 \<noteq> 0), led2 = (buf ! 6 AND 1 \<noteq> 0)\<rparr>
         else default_output
     | None \<Rightarrow> default_output)"

text \<open>\<open>load_state\<close>: the result, the EEPROM slot and the filled cache.\<close>

definition load_state ::
  "('d, 'e) i2c_bus \<Rightarrow> 'd option mutex \<Rightarrow> output_state option mutex \<Rightarrow>
    panic + (output_state \<times> 'd option mutex \<times> output_state option mutex)" where
  "load_state bus slot cache =
    (let (read, slot') = read_slot bus STATE_BASE 8 slot; state = state_of_image read in
     case try_lock cache of
       None \<Rightarrow> Inl Unwrap_Failed
     | Some _ \<Rightarrow> Inr (state, slot', Unheld (Some state)))"

definition image_of_state :: "output_state \<Rightarrow> bytes" where
  "image_of_state s =
    [STATE_MAGIC ! 0, STATE_MAGIC ! 1, STATE_MAGIC ! 2, STATE_MAGIC ! 3, 0,
     of_bool (led1 s), of_bool (led2 s), 0]"

definition save_field ::
  "('d, 'e) i2c_bus \<Rightarrow> (output_state \<Rightarrow> output_state) \<Rightarrow> output_state option \<times> 'd option \<Rightarrow>
    output_state option \<times> 'd option" where
  "save_field bus update = (\<lambda>(cache, guard).
    let state = update (case cache of None \<Rightarrow> default_output | Some s \<Rightarrow> s) in
    if cache = Some state then (cache, guard)
    else (case guard of
       None \<Rightarrow> (cache, None)
     | Some ee \<Rightarrow>
         (case write_bytes bus STATE_BASE (image_of_state state) ee of
            (Inr _, ee') \<Rightarrow> (Some state, Some ee')
          | (Inl _, ee') \<Rightarrow> (cache, Some ee'))))"

definition save_led1 where "save_led1 bus on = save_field bus (\<lambda>s. s\<lparr>led1 := on\<rparr>)"
definition save_led2 where "save_led2 bus on = save_field bus (\<lambda>s. s\<lparr>led2 := on\<rparr>)"
definition save_leds where "save_leds bus l1 l2 = save_field bus (\<lambda>s. s\<lparr>led1 := l1, led2 := l2\<rparr>)"

declare save_led1_def [step_defs] save_led2_def [step_defs] save_leds_def [step_defs]

section \<open>Images\<close>

lemma length_image [simp]: "length (image_of_state s) = 8"
  by (simp add: image_of_state_def)

lemma state_of_image_of_state: "state_of_image (Some (image_of_state s)) = s"
  by (cases s) (simp add: state_of_image_def image_of_state_def STATE_MAGIC_def sub_slice_def)

text \<open>What a boot makes of a record of which \<open>i\<close> bytes are new.\<close>

lemma torn_state:
  assumes "length b = 8" and "i \<le> 8"
  shows "state_of_image (Some (torn (image_of_state x) i b)) =
    (if drop i (take 4 b) = drop i STATE_MAGIC
     then \<lparr>led1 = (if 5 < i then led1 x else b ! 5 AND 1 \<noteq> 0), led2 = (if 6 < i then led2 x else b ! 6 AND 1 \<noteq> 0)\<rparr>
     else default_output)"
proof -
  obtain b0 b1 b2 b3 b4 b5 b6 b7 where b: "b = [b0, b1, b2, b3, b4, b5, b6, b7]"
    using assms(1) by (auto simp: length_Suc_conv eval_nat_numeral)
  have "i \<in> {0, 1, 2, 3, 4, 5, 6, 7, 8}" using assms(2) by auto
  then show ?thesis
    by (auto simp: b torn_def state_of_image_def image_of_state_def STATE_MAGIC_def sub_slice_def
        eval_nat_numeral)
qed

text \<open>What the next boot would restore from these cells.\<close>

definition stored_state :: "cells \<Rightarrow> output_state" where
  "stored_state c = state_of_image (Some (window c STATE_BASE 8))"

lemma stored_state_overlay [simp]: "stored_state (overlay c STATE_BASE (image_of_state s)) = s"
  using window_overlay [of "image_of_state s" c STATE_BASE]
  by (simp add: stored_state_def state_of_image_of_state)

section \<open>Coherence of cache and EEPROM\<close>

text \<open>A filled cache is what the next boot restores.\<close>

definition coherent :: "('d \<Rightarrow> cells) \<Rightarrow> output_state option \<Rightarrow> 'd \<Rightarrow> bool" where
  "coherent cells cache d \<longleftrightarrow> (\<forall>s. cache = Some s \<longrightarrow> stored_state (cells d) = s)"

declare coherent_def [inv_defs]

context at24c02
begin

lemma load_state_stored:
  assumes "read_bytes bus STATE_BASE 8 d = (Inr bs, d')"
  shows "load_state bus (Unheld (Some d)) (Unheld cache) =
    Inr (stored_state (cells d), Unheld (Some d'), Unheld (Some (stored_state (cells d))))"
  using assms read_window [OF assms]
  by (simp add: load_state_def read_slot_def Let_def stored_state_def)

lemma save_field_written:
  assumes "write_bytes bus STATE_BASE (image_of_state s) d = (Inr u, d')"
  shows "stored_state (cells d') = s"
  using write_bytes_ok [of STATE_BASE "image_of_state s" d d'] assms by simp

end

context responsive_at24c02
begin

lemma save_field_step:
  assumes "idle d" and "coherent cells cache d"
  shows "\<exists>cache' d'. save_field bus update (cache, Some d) = (cache', Some d') \<and> idle d' \<and>
    cache' = Some (update (case cache of None \<Rightarrow> default_output | Some s \<Rightarrow> s)) \<and> coherent cells cache' d'"
proof -
  define s where "s = update (case cache of None \<Rightarrow> default_output | Some s \<Rightarrow> s)"
  obtain d' where w: "write_bytes bus STATE_BASE (image_of_state s) d = (Inr (), d')" and i: "idle d'"
    using write_bytes_succeeds [OF assms(1)] by blast
  have "stored_state (cells d') = s" using w by (rule save_field_written)
  then have "coherent cells (Some s) d'" by (simp add: coherent_def)
  moreover have "save_field bus update (cache, Some d) =
      (if cache = Some s then (cache, Some d) else (Some s, Some d'))"
    by (simp add: save_field_def Let_def w flip: s_def)
  ultimately show ?thesis using i assms by (simp flip: s_def) metis
qed

lemma saves_persist:
  "idle d \<Longrightarrow> coherent cells (Some s) d \<Longrightarrow>
    \<exists>d'. fold (save_field bus) us (Some s, Some d) = (Some (fold id us s), Some d') \<and> idle d' \<and>
      coherent cells (Some (fold id us s)) d'"
proof (induction us arbitrary: s d)
  case (Cons u us)
  obtain d1 where "save_field bus u (Some s, Some d) = (Some (u s), Some d1)" "idle d1"
    "coherent cells (Some (u s)) d1"
    using save_field_step [OF Cons.prems, of u] by auto
  with Cons.IH [of d1 "u s"] show ?case by simp
qed simp

end

text \<open>
  On a chip that answers, after any sequence of LED updates that follows a boot the next boot
  restores the LED states those updates add up to, whichever of them wrote to the chip.
\<close>

lemma led_states_survive_reboot:
  assumes "responsive_at24c02 bus cells idle" and "idle d"
  shows "\<exists>s d' d'' slot cache.
    load_state bus (Unheld (Some d)) (Unheld None) = Inr (s, Unheld (Some d'), Unheld (Some s)) \<and>
    fold (save_field bus) us (Some s, Some d') = (Some (fold id us s), Some d'') \<and>
    load_state bus (Unheld (Some d'')) (Unheld None) = Inr (fold id us s, slot, cache)"
proof -
  note chip = responsive_at24c02.axioms(1) [OF assms(1)]
  note read = responsive_at24c02.read_succeeds [OF assms(1)]
  obtain d' where r: "read_bytes bus STATE_BASE 8 d = (Inr (window (cells d) STATE_BASE 8), d')"
    and i: "idle d'" using read [OF assms(2)] by blast
  let ?s = "stored_state (cells d)"
  have "coherent cells (Some ?s) d'"
    using at24c02.read_cells_same [OF chip r] by (simp add: coherent_def)
  then obtain d'' where f: "fold (save_field bus) us (Some ?s, Some d') = (Some (fold id us ?s), Some d'')"
    and i2: "idle d''" and c: "coherent cells (Some (fold id us ?s)) d''"
    using responsive_at24c02.saves_persist [OF assms(1) i] by blast
  obtain d3 where "read_bytes bus STATE_BASE 8 d'' = (Inr (window (cells d'') STATE_BASE 8), d3)"
    using read [OF i2] by blast
  with r f c show ?thesis
    by (intro exI conjI) (auto simp: at24c02.load_state_stored [OF chip] coherent_def)
qed

section \<open>Failures\<close>

text \<open>
  A failed write leaves the cache as it was, so repeating the same save on a chip that answers
  again writes the state, and the next boot restores it.
\<close>

lemma failed_save_is_retried:
  assumes "responsive_at24c02 bus cells idle" and "update (update s) = update s"
    and "update s \<noteq> s" and "write_bytes bus STATE_BASE (image_of_state (update s)) d = (Inl e, d1)"
    and "idle d2"
  shows "save_field bus update (Some s, Some d) = (Some s, Some d1) \<and>
    (\<exists>d3. save_field bus update (Some s, Some d2) = (Some (update s), Some d3) \<and>
      stored_state (cells d3) = update s)"
proof -
  note chip = responsive_at24c02.axioms(1) [OF assms(1)]
  obtain d3 where w: "write_bytes bus STATE_BASE (image_of_state (update s)) d2 = (Inr (), d3)"
    using responsive_at24c02.write_bytes_succeeds [OF assms(1,5)] by blast
  have "stored_state (cells d3) = update s" by (rule at24c02.save_field_written [OF chip w])
  with w assms(3,4) show ?thesis by (simp add: save_field_def Let_def)
qed

text \<open>
  C32: a failed save can leave the EEPROM wrong for good. Whatever byte it fails at, the bytes before
  it stay written while the cache keeps the old state; so a save that goes back to that state
  writes nothing at all, and the next boot shows every LED whose byte was written before the
  failure as the failed save wanted it, not as it was switched back.
\<close>

theorem failed_save_goes_stale:
  assumes "at24c02 bus cells" and "window (cells d) STATE_BASE 4 = STATE_MAGIC" and "stored_state (cells d) = s"
    and "update s \<noteq> s" and "save_field bus update (Some s, Some d) = (Some s, Some d1)" and "undo s = s"
  shows "save_field bus undo (Some s, Some d1) = (Some s, Some d1) \<and>
    (\<exists>k<8. cells d1 = overlay (cells d) STATE_BASE (take k (image_of_state (update s))) \<and>
      stored_state (cells d1) =
        \<lparr>led1 = led1 (if 5 < k then update s else s), led2 = led2 (if 6 < k then update s else s)\<rparr>)"
proof -
  let ?b = "window (cells d) STATE_BASE 8"
  obtain e where w: "write_bytes bus STATE_BASE (image_of_state (update s)) d = (Inl e, d1)"
    using assms(4,5) by (auto simp: save_field_def Let_def split: prod.splits sum.splits)
  obtain k where k: "k < 8" "cells d1 = overlay (cells d) STATE_BASE (take k (image_of_state (update s)))"
    using at24c02.write_bytes_prefix [OF assms(1) w] by auto
  have magic: "take 4 ?b = STATE_MAGIC" using assms(2) by (simp add: window_def take_map)
  have "stored_state (cells d1) = state_of_image (Some (torn (image_of_state (update s)) k ?b))"
    using window_torn [of "image_of_state (update s)" k "cells d" STATE_BASE] k by (simp add: stored_state_def)
  moreover have "s = \<lparr>led1 = (?b ! 5 AND 1 \<noteq> 0), led2 = (?b ! 6 AND 1 \<noteq> 0)\<rparr>"
    using assms(3) magic by (auto simp: stored_state_def state_of_image_def sub_slice_def)
  ultimately have "stored_state (cells d1) =
      \<lparr>led1 = led1 (if 5 < k then update s else s), led2 = led2 (if 6 < k then update s else s)\<rparr>"
    using k(1) magic by (auto simp: torn_state)
  with k assms(6) show ?thesis by (auto simp: save_field_def)
qed

text \<open>A chip that refuses its seventh transfer.\<close>

definition weak_chip :: sim where
  "weak_chip = \<lparr>sim_cells = overlay (\<lambda>_. 0xFF) STATE_BASE (image_of_state default_output),
     sim_busy = 0, sim_faults = replicate 6 False @ [True]\<rparr>"

theorem failed_save_goes_stale_witness:
  "\<exists>d1. save_led1 sim_bus True (Some default_output, Some weak_chip) = (Some default_output, Some d1) \<and>
    save_led1 sim_bus False (Some default_output, Some d1) = (Some default_output, Some d1) \<and> sim_idle d1 \<and>
    stored_state (sim_cells d1) = \<lparr>led1 = True, led2 = False\<rparr>"
proof -
  let ?r = "save_led1 sim_bus True (Some default_output, Some weak_chip)"
  let ?d = "the (snd ?r)"
  have r: "?r = (Some default_output, Some ?d)"
  proof (rule prod_eqI)
    show "fst ?r = fst (Some default_output, Some ?d)" by code_simp
    have "snd ?r \<noteq> None" by code_simp
    then show "snd ?r = snd (Some default_output, Some ?d)" by simp
  qed
  have "window (sim_cells weak_chip) STATE_BASE 4 = STATE_MAGIC" "stored_state (sim_cells weak_chip) = default_output"
    by code_simp+
  then have "save_led1 sim_bus False (Some default_output, Some ?d) = (Some default_output, Some ?d)"
    using failed_save_goes_stale [OF sim_at24c02, of weak_chip default_output "\<lambda>s. s\<lparr>led1 := True\<rparr>" ?d "\<lambda>s. s\<lparr>led1 := False\<rparr>"]
      r [unfolded save_led1_def] by (simp add: save_led1_def default_output_def)
  moreover have "sim_idle ?d" "stored_state (sim_cells ?d) = \<lparr>led1 = True, led2 = False\<rparr>" by code_simp+
  ultimately show ?thesis using r by metis
qed

section \<open>The two records do not overlap\<close>

context at24c02
begin

lemma save_config_keeps_state:
  assumes "save_config bus cfg (Some d) = (r, Some d')"
  shows "stored_state (cells d') = stored_state (cells d)"
proof -
  have w: "write_bytes bus CONFIG_BASE (to_bytes cfg) d = (r, d')"
    using assms by (auto simp: save_config_def Let_def split: prod.splits)
  have "cells d' x = cells d x" if "unat x < 8" for x
    using write_bytes_other [OF w] that by (simp add: CONFIG_BASE_def LEN_def unat_sub_if')
  then have "window (cells d') STATE_BASE 8 = window (cells d) STATE_BASE 8"
    by (auto simp: window_def STATE_BASE_def)
  then show ?thesis by (simp add: stored_state_def)
qed

lemma save_field_keeps_config:
  assumes "save_field bus update (cache, Some d) = (cache', Some d')"
  shows "window (cells d') CONFIG_BASE LEN = window (cells d) CONFIG_BASE LEN"
proof (cases "d' = d")
  case False
  then obtain s r where w: "write_bytes bus STATE_BASE (image_of_state s) d = (r, d')"
    using assms by (auto simp: save_field_def Let_def split: prod.splits sum.splits if_splits)
  have "8 \<le> unat (CONFIG_BASE + of_nat i - STATE_BASE)" if "i < LEN" for i
    using that by (simp add: CONFIG_BASE_def STATE_BASE_def LEN_def unat_word_ariths)
  then show ?thesis using write_bytes_other [OF w] by (simp add: window_def)
qed simp

end

text \<open>
  Saving the network configuration never disturbs the stored LED states, and saving LED states
  never disturbs the stored configuration, whether or not the writes succeed.
\<close>

lemma stores_do_not_interfere:
  assumes "at24c02 bus cells"
    and "save_config bus cfg (Some d) = (r, Some d1)"
    and "save_field bus update (cache, Some d) = (cache', Some d2)"
  shows "stored_state (cells d1) = stored_state (cells d) \<and>
    window (cells d2) CONFIG_BASE LEN = window (cells d) CONFIG_BASE LEN"
  using at24c02.save_config_keeps_state [OF assms(1,2)] at24c02.save_field_keeps_config [OF assms(1,3)]
  by blast

end
