(* ===== verification/Outputs.thy ===== *)
theory Outputs
  imports Prelude
begin

text \<open>
  \<open>src/outputs.rs\<close>: the GPIO outputs behind a mutex that is only ever tried, and the task that
  owns the relay's pulse. The pins' levels are booleans (high is \<open>True\<close>); the LEDs are active low,
  the relay active high. Time is in milliseconds.
\<close>

section \<open>Pins\<close>

datatype led_id = Led1 | Led2

record output_pins =
  pin_led1 :: bool
  pin_led2 :: bool
  pin_relay :: bool

type_synonym shared_outputs = "output_pins option mutex"

text \<open>\<open>SharedOutputs::new\<close>, also the \<open>Default\<close>: nothing registered.\<close>

definition outputs_new :: shared_outputs where "outputs_new = Unheld None"

definition drive_active_low :: "bool \<Rightarrow> bool" where
  "drive_active_low on = (if on then False else True)"

fun register :: "output_pins \<Rightarrow> shared_outputs \<Rightarrow> shared_outputs" where
  "register pins Held = Held"
| "register pins (Unheld g) = Unheld (Some pins)"

fun set_led :: "led_id \<Rightarrow> bool \<Rightarrow> shared_outputs \<Rightarrow> shared_outputs" where
  "set_led led on Held = Held"
| "set_led led on (Unheld None) = Unheld None"
| "set_led led on (Unheld (Some pins)) = Unheld (Some (case led of
     Led1 \<Rightarrow> pins\<lparr>pin_led1 := drive_active_low on\<rparr>
   | Led2 \<Rightarrow> pins\<lparr>pin_led2 := drive_active_low on\<rparr>))"

fun set_relay :: "bool \<Rightarrow> shared_outputs \<Rightarrow> shared_outputs" where
  "set_relay on (Unheld (Some p)) = Unheld (Some (if on then p\<lparr>pin_relay := True\<rparr> else p\<lparr>pin_relay := False\<rparr>))"
| "set_relay on outs = outs"

fun get_relay :: "shared_outputs \<Rightarrow> bool" where
  "get_relay (Unheld (Some p)) = pin_relay p"
| "get_relay _ = False"

fun get_led :: "led_id \<Rightarrow> shared_outputs \<Rightarrow> bool" where
  "get_led led (Unheld (Some p)) = (case led of Led1 \<Rightarrow> \<not> pin_led1 p | Led2 \<Rightarrow> \<not> pin_led2 p)"
| "get_led led _ = False"

text \<open>Registered outputs whose mutex is free, as between any two steps after boot.\<close>

fun ready :: "shared_outputs \<Rightarrow> bool" where
  "ready (Unheld (Some p)) \<longleftrightarrow> True"
| "ready _ \<longleftrightarrow> False"

fun_cases readyE: "ready outs"

lemma ready_set [simp]: "ready (set_led led on outs) = ready outs" "ready (set_relay on outs) = ready outs"
  by (cases "(led, on, outs)" rule: set_led.cases; simp) (cases "(on, outs)" rule: set_relay.cases; simp)

lemma get_led_set [simp]: "ready outs \<Longrightarrow> get_led l (set_led led on outs) = (if l = led then on else get_led l outs)"
  by (erule readyE) (auto simp: drive_active_low_def split: led_id.splits)

lemma get_relay_set [simp]: "ready outs \<Longrightarrow> get_relay (set_relay on outs) = on"
  by (erule readyE) simp

lemma get_cross [simp]:
  "get_relay (set_led led on outs) = get_relay outs" "get_led l (set_relay on outs) = get_led l outs"
  by (cases "(led, on, outs)" rule: set_led.cases; simp split: led_id.splits)
    (cases "(on, outs)" rule: set_relay.cases; simp split: led_id.splits)

lemma unregistered [simp]:
  "\<not> ready outs \<Longrightarrow> set_led led on outs = outs" "\<not> ready outs \<Longrightarrow> set_relay on outs = outs"
  "\<not> ready outs \<Longrightarrow> \<not> get_led led outs" "\<not> ready outs \<Longrightarrow> \<not> get_relay outs"
  by (cases outs rule: ready.cases; simp)+

text \<open>
  What was set is what is read, polarity included: after registration an LED reads on exactly
  when it was last switched on and its pin is then low, the relay reads on exactly when its pin
  is high, and each output leaves the others alone. Before registration, or while the mutex is
  held, setting changes nothing and every output reads off.
\<close>

lemma outputs_read_back:
  "get_led l (set_led led on outs) = (ready outs \<and> (if l = led then on else get_led l outs)) \<and>
   get_relay (set_relay on outs) = (ready outs \<and> on) \<and>
   get_relay (set_led led on outs) = get_relay outs \<and>
   get_led l (set_relay on outs) = get_led l outs"
  by (cases "ready outs") auto

section \<open>The relay task\<close>

datatype relay_cmd = Pulse | Off

definition RELAY_PULSE :: nat where "RELAY_PULSE = 2000"

text \<open>
  The statics the task shares: the outputs, its trigger, and the notification to the MQTT task.
  A \<open>Signal\<close> holds the last value signalled and not yet taken.
\<close>

record relay_io =
  outputs :: shared_outputs
  relay_trigger :: "relay_cmd option"
  relay_change :: "bool option"

definition pulse_relay :: "'a relay_io_scheme \<Rightarrow> 'a relay_io_scheme" where
  "pulse_relay g = g\<lparr>relay_trigger := Some Pulse\<rparr>"

definition relay_off :: "'a relay_io_scheme \<Rightarrow> 'a relay_io_scheme" where
  "relay_off g = g\<lparr>relay_trigger := Some Off\<rparr>"

text \<open>
  Where the task is suspended: at the outer \<open>wait\<close>, or at the \<open>select\<close> inside a pulse whose timer
  expires at the given time.
\<close>

datatype relay_task = Waiting | Pulsing nat

text \<open>Entering the inner loop: the pin is driven and a fresh timer is armed.\<close>

definition start_pulse :: "nat \<Rightarrow> 'a relay_io_scheme \<Rightarrow> relay_task \<times> 'a relay_io_scheme" where
  "start_pulse now g = (Pulsing (now + RELAY_PULSE), g\<lparr>outputs := set_relay True (outputs g)\<rparr>)"

text \<open>The outer \<open>wait\<close>: an \<open>Off\<close> goes round the loop and waits again.\<close>

definition poll_waiting :: "nat \<Rightarrow> 'a relay_io_scheme \<Rightarrow> relay_task \<times> 'a relay_io_scheme" where
  "poll_waiting now g =
    (case relay_trigger g of
       None \<Rightarrow> (Waiting, g)
     | Some Off \<Rightarrow> (Waiting, g\<lparr>relay_trigger := None\<rparr>)
     | Some Pulse \<Rightarrow> start_pulse now (g\<lparr>relay_trigger := None\<rparr>))"

text \<open>After the inner loop.\<close>

definition end_pulse :: "'a relay_io_scheme \<Rightarrow> 'a relay_io_scheme" where
  "end_pulse g = g\<lparr>outputs := set_relay False (outputs g), relay_change := Some False\<rparr>"

text \<open>
  One poll of the task at time \<open>now\<close>. The \<open>select\<close> polls its timer before the trigger, so an
  expired timer ends the pulse and leaves the trigger for the outer \<open>wait\<close>.
\<close>

fun relay_poll :: "nat \<Rightarrow> relay_task \<Rightarrow> 'a relay_io_scheme \<Rightarrow> relay_task \<times> 'a relay_io_scheme" where
  "relay_poll now Waiting g = poll_waiting now g"
| "relay_poll now (Pulsing deadline) g =
    (if deadline \<le> now then poll_waiting now (end_pulse g)
     else (case relay_trigger g of
        None \<Rightarrow> (Pulsing deadline, g)
      | Some Pulse \<Rightarrow> start_pulse now (g\<lparr>relay_trigger := None\<rparr>)
      | Some Off \<Rightarrow> poll_waiting now (end_pulse (g\<lparr>relay_trigger := None\<rparr>))))"

lemmas relay_poll_defs = start_pulse_def poll_waiting_def end_pulse_def

section \<open>The task among its callers\<close>

text \<open>
  A run interleaves commands from the callers, the passing of time and polls of the task. The
  executor may poll late, early or for nothing.
\<close>

record relay_sys =
  clock :: nat
  task :: relay_task
  io :: relay_io

inductive relay_step :: "relay_sys \<Rightarrow> relay_sys \<Rightarrow> bool" where
  Pulse_Cmd: "relay_step s (s\<lparr>io := pulse_relay (io s)\<rparr>)"
| Off_Cmd: "relay_step s (s\<lparr>io := relay_off (io s)\<rparr>)"
| Change_Taken: "relay_step s (s\<lparr>io := (io s)\<lparr>relay_change := None\<rparr>\<rparr>)"
| Led_Set: "relay_step s (s\<lparr>io := (io s)\<lparr>outputs := set_led led on (outputs (io s))\<rparr>\<rparr>)"
| Time: "clock s \<le> t \<Longrightarrow> relay_step s (s\<lparr>clock := t\<rparr>)"
| Poll: "relay_poll (clock s) (task s) (io s) = (k, g) \<Longrightarrow> relay_step s (s\<lparr>task := k, io := g\<rparr>)"

inductive_cases relay_stepE: "relay_step s s'"

definition relay_boot :: "relay_sys \<Rightarrow> bool" where
  "relay_boot s \<longleftrightarrow> task s = Waiting \<and> ready (outputs (io s)) \<and> \<not> get_relay (outputs (io s))"

text \<open>The relay is closed exactly inside a pulse, and every pulse ends within the pulse time.\<close>

definition relay_ok :: "nat \<Rightarrow> relay_task \<Rightarrow> 'a relay_io_scheme \<Rightarrow> bool" where
  "relay_ok t k g \<longleftrightarrow> ready (outputs g) \<and>
    (case k of
       Waiting \<Rightarrow> \<not> get_relay (outputs g)
     | Pulsing deadline \<Rightarrow> get_relay (outputs g) \<and> deadline \<le> t + RELAY_PULSE)"

definition relay_inv :: "relay_sys \<Rightarrow> bool" where
  "relay_inv s \<longleftrightarrow> relay_ok (clock s) (task s) (io s)"

declare relay_ok_def [inv_defs] relay_inv_def [inv_defs]

lemma relay_poll_ok: "relay_ok t k g \<Longrightarrow> relay_poll t k g = (k', g') \<Longrightarrow> relay_ok t k' g'"
  by (cases k) (auto simp: relay_ok_def relay_poll_defs split: option.splits relay_cmd.splits if_splits)

lemma relay_poll_inv:
  assumes "relay_inv s" and "relay_poll (clock s) (task s) (io s) = (k, g)"
  shows "relay_inv (s\<lparr>task := k, io := g\<rparr>)"
  using relay_poll_ok [OF _ assms(2)] assms(1) by (simp add: relay_inv_def)

text \<open>A poll moves the relay's own cells only.\<close>

lemma relay_poll_frame:
  "relay_poll t k g = (k', g') \<Longrightarrow> relay_io.more g' = relay_io.more g \<and> get_led l (outputs g') = get_led l (outputs g)"
  by (cases k) (auto simp: relay_poll_defs split: option.splits relay_cmd.splits if_splits)

lemma relay_step_inv: "relay_step s s' \<Longrightarrow> relay_inv s \<Longrightarrow> relay_inv s'"
proof (induction rule: relay_step.induct)
  case (Poll s k g)
  then show ?case by (blast intro: relay_poll_inv)
qed (auto simp: inv_defs pulse_relay_def relay_off_def split: relay_task.splits)

lemma relay_reach_inv: "relay_step\<^sup>*\<^sup>* s s' \<Longrightarrow> relay_boot s \<Longrightarrow> relay_inv s'"
proof (induction rule: rtranclp_induct)
  case base
  then show ?case by (simp add: relay_boot_def inv_defs)
next
  case (step s1 s2)
  then show ?case by (blast intro: relay_step_inv)
qed

text \<open>
  C14: in every interleaving of commands, time and polls since boot, the relay's pin is high exactly
  while the task is inside a pulse, and the pulse's deadline is at most two seconds away.
\<close>

theorem relay_closed_iff_pulsing:
  assumes "relay_boot s0" and "relay_step\<^sup>*\<^sup>* s0 s"
  shows "get_relay (outputs (io s)) \<longleftrightarrow> (\<exists>deadline. task s = Pulsing deadline \<and> deadline \<le> clock s + RELAY_PULSE)"
  using relay_reach_inv [OF assms(2,1)] by (auto simp: inv_defs split: relay_task.splits)

definition boot_pins :: output_pins where
  "boot_pins = \<lparr>pin_led1 = True, pin_led2 = True, pin_relay = False\<rparr>"

definition boot_io :: relay_io where
  "boot_io = \<lparr>outputs = Unheld (Some boot_pins), relay_trigger = None, relay_change = None\<rparr>"

definition pulsed_sys :: relay_sys where
  "pulsed_sys = \<lparr>clock = 0, task = Pulsing 2000,
     io = boot_io\<lparr>outputs := Unheld (Some (boot_pins\<lparr>pin_relay := True\<rparr>))\<rparr>\<rparr>"

lemma boot_to_pulsed:
  "relay_boot \<lparr>clock = 0, task = Waiting, io = boot_io\<rparr>"
  "relay_step\<^sup>*\<^sup>* \<lparr>clock = 0, task = Waiting, io = boot_io\<rparr> pulsed_sys"
proof -
  let ?s = "\<lparr>clock = 0, task = Waiting, io = boot_io\<rparr>"
  show "relay_boot ?s" by (simp add: relay_boot_def boot_io_def boot_pins_def)
  have "relay_step ?s (?s\<lparr>io := pulse_relay (io ?s)\<rparr>)" by (rule Pulse_Cmd)
  moreover have "relay_step (?s\<lparr>io := pulse_relay (io ?s)\<rparr>) pulsed_sys"
    using Poll [of "?s\<lparr>io := pulse_relay (io ?s)\<rparr>" "task pulsed_sys" "io pulsed_sys"]
    by (simp add: pulse_relay_def relay_poll_defs pulsed_sys_def boot_io_def boot_pins_def RELAY_PULSE_def)
  ultimately show "relay_step\<^sup>*\<^sup>* ?s pulsed_sys" by auto
qed

theorem relay_closed_iff_pulsing_witness: "get_relay (outputs (io pulsed_sys))"
  using relay_closed_iff_pulsing [OF boot_to_pulsed]
  by (simp add: pulsed_sys_def RELAY_PULSE_def)

text \<open>
  C19: the relay cannot stay closed: from any reachable state with no command pending, a poll two
  seconds later or more opens it, and if it was closed the MQTT task is told so.
\<close>

theorem relay_opens_in_time:
  assumes "relay_boot s0" and "relay_step\<^sup>*\<^sup>* s0 s" and "relay_trigger (io s) = None"
    and "clock s + RELAY_PULSE \<le> t"
  shows "\<exists>g. relay_poll t (task s) (io s) = (Waiting, g) \<and> \<not> get_relay (outputs g) \<and>
    (get_relay (outputs (io s)) \<longrightarrow> relay_change g = Some False)"
  using relay_reach_inv [OF assms(2,1)] assms(3,4)
  by (cases "task s") (auto simp: inv_defs relay_poll_defs)

theorem relay_opens_in_time_witness:
  "\<exists>g. relay_poll 2000 (Pulsing 2000) (io pulsed_sys) = (Waiting, g) \<and> \<not> get_relay (outputs g) \<and>
    relay_change g = Some False"
proof -
  have "relay_trigger (io pulsed_sys) = None" by (simp add: pulsed_sys_def boot_io_def)
  moreover have "clock pulsed_sys + RELAY_PULSE \<le> 2000" by (simp add: pulsed_sys_def RELAY_PULSE_def)
  ultimately show ?thesis
    using relay_opens_in_time [OF boot_to_pulsed, of 2000] by (simp add: pulsed_sys_def)
qed

section \<open>The pulse as seen by its caller\<close>

fun relay_polls :: "nat list \<Rightarrow> relay_task \<times> relay_io \<Rightarrow> relay_task \<times> relay_io" where
  "relay_polls [] s = s"
| "relay_polls (t # ts) (k, g) = relay_polls ts (relay_poll t k g)"

lemma polls_pulsing:
  assumes "relay_trigger g = None" and "\<forall>t\<in>set ts. t < deadline"
  shows "relay_polls ts (Pulsing deadline, g) = (Pulsing deadline, g)"
  using assms by (induction ts) auto

text \<open>
  C18: a pulse lasts two seconds from the poll that took its command, whether it starts or restarts
  the pulse: through any polls before that the relay is closed, and the first poll after it opens
  the relay and notifies MQTT.
\<close>

theorem pulse_lasts_exactly:
  assumes "ready (outputs g)" and "relay_trigger g = Some Pulse"
    and "\<forall>t\<in>set ts. t < t0 + RELAY_PULSE" and "t0 + RELAY_PULSE \<le> t1"
  shows "\<exists>g1 g2. relay_polls (t0 # ts) (k, g) = (Pulsing (t0 + RELAY_PULSE), g1) \<and> get_relay (outputs g1) \<and>
    relay_poll t1 (Pulsing (t0 + RELAY_PULSE)) g1 = (Waiting, g2) \<and>
    \<not> get_relay (outputs g2) \<and> relay_change g2 = Some False"
proof -
  obtain g1 where g1: "relay_poll t0 k g = (Pulsing (t0 + RELAY_PULSE), g1)"
    and t: "relay_trigger g1 = None" and r: "ready (outputs g1)" and on: "get_relay (outputs g1)"
  proof (cases k)
    case Waiting
    with assms(1,2) that show ?thesis by (simp add: relay_poll_defs)
  next
    case (Pulsing deadline)
    with assms(1,2) that show ?thesis by (cases "deadline \<le> t0") (simp_all add: relay_poll_defs)
  qed
  have "relay_polls ts (Pulsing (t0 + RELAY_PULSE), g1) = (Pulsing (t0 + RELAY_PULSE), g1)"
    using t assms(3) by (rule polls_pulsing)
  with g1 t r on assms(4) show ?thesis by (simp add: relay_poll_defs)
qed

theorem pulse_lasts_exactly_witness:
  "\<exists>g1 g2. relay_polls [5, 1000, 2004] (Waiting, pulse_relay boot_io) = (Pulsing 2005, g1) \<and>
    get_relay (outputs g1) \<and> relay_poll 2005 (Pulsing 2005) g1 = (Waiting, g2) \<and>
    \<not> get_relay (outputs g2) \<and> relay_change g2 = Some False"
  using pulse_lasts_exactly [of "pulse_relay boot_io" "[1000, 2004]" 5 2005 Waiting]
  by (simp add: pulse_relay_def boot_io_def RELAY_PULSE_def)

text \<open>
  An off command always wins: the poll that takes it leaves the relay open and the task
  waiting, and a command that arrives before the task is polled replaces the one before it, so an
  off hides an unserved pulse completely.
\<close>

lemma off_cancels:
  assumes "relay_boot s0" and "relay_step\<^sup>*\<^sup>* s0 s"
  shows "\<exists>g. relay_poll (clock s) (task s) (relay_off (io s)) = (Waiting, g) \<and>
    \<not> get_relay (outputs g) \<and> relay_trigger g = None \<and>
    relay_off (pulse_relay (io s)) = relay_off (io s)"
  using relay_reach_inv [OF assms(2,1)]
  by (cases "task s") (auto simp: inv_defs relay_off_def pulse_relay_def relay_poll_defs)

end
