(* ===== verification/Fault_Marker.thy ===== *)
theory Fault_Marker
  imports Prelude
begin

text \<open>
  \<open>src/fault_marker.rs\<close>: why the device restarted. A marker word in CCM RAM survives a software
  reset and is garbage after power-on; the reset flags of \<open>RCC_CSR\<close> say what the hardware knows.
  Both are cells of the state; the hardware's own effects (which flags a reset sets, that \<open>RMVF\<close>
  clears them) are the environment's.
\<close>

definition TAG_STACK_OVERFLOW :: u32 where "TAG_STACK_OVERFLOW = 0xDEAD0001"
definition TAG_MALLOC_FAIL :: u32 where "TAG_MALLOC_FAIL = 0xDEAD0002"
definition TAG_REMOTE_REBOOT :: u32 where "TAG_REMOTE_REBOOT = 0xDEAD0003"
definition TAG_CLEAR :: u32 where "TAG_CLEAR = 0"

lemmas tag_defs = TAG_STACK_OVERFLOW_def TAG_MALLOC_FAIL_def TAG_REMOTE_REBOOT_def TAG_CLEAR_def

datatype reset_reason = PowerOn | NrstPin | Software | IwdgTimeout | BrownOut | StackOverflow
  | MallocFailed | RemoteReboot | UnknownReset

fun as_str :: "reset_reason \<Rightarrow> bytes" where
  "as_str PowerOn = str ''power_on''"
| "as_str NrstPin = str ''nrst_pin''"
| "as_str Software = str ''software''"
| "as_str IwdgTimeout = str ''iwdg_timeout''"
| "as_str BrownOut = str ''brown_out''"
| "as_str StackOverflow = str ''stack_overflow''"
| "as_str MallocFailed = str ''malloc_failed''"
| "as_str RemoteReboot = str ''remote_reboot''"
| "as_str UnknownReset = str ''unknown''"

record csr =
  porrstf :: bool
  borrstf :: bool
  wdgrstf :: bool
  sftrstf :: bool
  padrstf :: bool
  rmvf :: bool

text \<open>\<open>read_and_clear\<close>: the reason, the marker word left behind, and the register written.\<close>

definition read_and_clear :: "u32 \<Rightarrow> csr \<Rightarrow> reset_reason \<times> u32 \<times> csr" where
  "read_and_clear soft_marker r =
    (if soft_marker = TAG_STACK_OVERFLOW then StackOverflow
     else if soft_marker = TAG_MALLOC_FAIL then MallocFailed
     else if soft_marker = TAG_REMOTE_REBOOT then RemoteReboot
     else if porrstf r then PowerOn
     else if borrstf r then BrownOut
     else if wdgrstf r then IwdgTimeout
     else if sftrstf r then Software
     else if padrstf r then NrstPin
     else UnknownReset, TAG_CLEAR, r\<lparr>rmvf := True\<rparr>)"

definition mark_remote_reboot :: "u32 \<Rightarrow> u32" where
  "mark_remote_reboot soft_marker = TAG_REMOTE_REBOOT"

text \<open>\<open>safe_reboot\<close> does not return: it is the list of what it asks of the hardware.\<close>

datatype reboot_action = Disable_Interrupts | Eth_Reset bool | Dsb | Sys_Reset

definition safe_reboot :: "reboot_action list" where
  "safe_reboot = [Disable_Interrupts, Eth_Reset True, Eth_Reset False, Dsb, Sys_Reset]"

section \<open>Properties\<close>

lemma tags_distinct:
  "TAG_STACK_OVERFLOW \<noteq> TAG_MALLOC_FAIL" "TAG_STACK_OVERFLOW \<noteq> TAG_REMOTE_REBOOT"
  "TAG_MALLOC_FAIL \<noteq> TAG_REMOTE_REBOOT" "TAG_CLEAR \<noteq> TAG_STACK_OVERFLOW"
  "TAG_CLEAR \<noteq> TAG_MALLOC_FAIL" "TAG_CLEAR \<noteq> TAG_REMOTE_REBOOT"
  by (simp_all add: tag_defs)

lemma as_str_inj: "as_str a = as_str b \<Longrightarrow> a = b"
  by (cases a; cases b; simp)

text \<open>
  A marked reboot is reported once. Whatever the marker held, after \<open>mark_remote_reboot\<close> the
  next boot reports a remote reboot whichever reset flags are set, and clears the marker, so the
  boot after it reports by its own flags and never one of the three marker reasons. No other
  flag or garbage word is ever reported as a remote reboot.
\<close>

lemma remote_reboot_reported_once:
  "\<exists>m1. fst (read_and_clear (mark_remote_reboot m) r1) = RemoteReboot \<and>
    fst (snd (read_and_clear (mark_remote_reboot m) r1)) = m1 \<and>
    fst (read_and_clear m1 r2) \<notin> {RemoteReboot, StackOverflow, MallocFailed} \<and>
    (fst (read_and_clear w r3) = RemoteReboot \<longleftrightarrow> w = TAG_REMOTE_REBOOT)"
  using tags_distinct by (auto simp: read_and_clear_def mark_remote_reboot_def)

end
