(* ===== verification/Mqtt.thy ===== *)
theory Mqtt
  imports Led_Dispatch Persistence Outputs Fault_Marker Net_Config
begin

text \<open>
  \<open>src/mqtt.rs\<close>: the MQTT task. The \<open>rust_mqtt\<close> client is not part of the repository; the calls the
  task makes on it are a record of operations on an abstract client state, each answering
  whether it succeeded. What the broker sends and when, is the input of each round. Times are
  in milliseconds.
\<close>

section \<open>Constants\<close>

definition TOPIC_LED1 :: bytes where "TOPIC_LED1 = str ''stm32/led/1''"
definition TOPIC_LED2 :: bytes where "TOPIC_LED2 = str ''stm32/led/2''"
definition TOPIC_LED_ALL :: bytes where "TOPIC_LED_ALL = str ''stm32/led/all''"
definition TOPIC_RELAY :: bytes where "TOPIC_RELAY = str ''stm32/relay''"
definition TOPIC_PING :: bytes where "TOPIC_PING = str ''stm32/ping''"
definition TOPIC_REBOOT :: bytes where "TOPIC_REBOOT = str ''stm32/cmd/reboot''"
definition TOPIC_STATUS :: bytes where "TOPIC_STATUS = str ''stm32/status''"
definition TOPIC_DIAG :: bytes where "TOPIC_DIAG = str ''stm32/diag''"
definition TOPIC_HEARTBEAT :: bytes where "TOPIC_HEARTBEAT = str ''stm32/heartbeat''"
definition TOPIC_PONG :: bytes where "TOPIC_PONG = str ''stm32/pong''"
definition HEARTBEAT_INTERVAL_MS :: nat where "HEARTBEAT_INTERVAL_MS = 10000"

definition SUBSCRIBE_TOPICS :: "bytes list" where
  "SUBSCRIBE_TOPICS = [TOPIC_LED1, TOPIC_LED2, TOPIC_LED_ALL, TOPIC_RELAY, TOPIC_PING, TOPIC_REBOOT]"

section \<open>The client and the device\<close>

text \<open>What the task asks of a connection: name and secret are left out when empty or unencodable.\<close>

record connect_options =
  clean_start :: bool
  keep_alive :: nat
  will_topic :: bytes
  will_message :: bytes
  will_retain :: bool
  user_name :: "bytes option"
  password :: "bytes option"

record 'c mqtt_client =
  mqtt_string :: "bytes \<Rightarrow> bytes option"
  mqtt_binary :: "bytes \<Rightarrow> bytes option"
  topic_filter :: "bytes \<Rightarrow> bytes option"
  connect_call :: "'c \<Rightarrow> connect_options \<Rightarrow> bytes option \<Rightarrow> bool \<times> 'c"
  subscribe_call :: "'c \<Rightarrow> bytes \<Rightarrow> bool \<times> 'c"
  publish_call :: "'c \<Rightarrow> bytes \<Rightarrow> bytes \<Rightarrow> bool \<Rightarrow> bool \<times> 'c"
  ping_call :: "'c \<Rightarrow> bool \<times> 'c"

text \<open>The statics the task reads and writes, beside those of the relay.\<close>

record 'd device = relay_io +
  led_cache :: "output_state option"
  eeprom :: "'d option"
  mqtt_online :: bool
  marker :: u32

section \<open>Publishing and connecting\<close>

definition publish :: "'c mqtt_client \<Rightarrow> bytes \<Rightarrow> bytes \<Rightarrow> bool \<Rightarrow> 'c \<Rightarrow> bool \<times> 'c" where
  "publish ops topic payload retained c = publish_call ops c topic payload retained"

definition publish_qos0 :: "'c mqtt_client \<Rightarrow> bytes \<Rightarrow> bytes \<Rightarrow> 'c \<Rightarrow> bool \<times> 'c" where
  "publish_qos0 ops topic payload c = publish ops topic payload False c"

definition publish_retained :: "'c mqtt_client \<Rightarrow> bytes \<Rightarrow> bytes \<Rightarrow> 'c \<Rightarrow> bool \<times> 'c" where
  "publish_retained ops topic payload c = publish ops topic payload True c"

definition relay_payload :: "bool \<Rightarrow> bytes" where
  "relay_payload relay_on = (if relay_on then str ''1'' else str ''0'')"

definition build_connect_options :: "'c mqtt_client \<Rightarrow> network_config \<Rightarrow> connect_options" where
  "build_connect_options ops cfg =
    (let options = \<lparr>clean_start = True, keep_alive = 120, will_topic = TOPIC_STATUS,
           will_message = str ''offline'', will_retain = True, user_name = None, password = None\<rparr>;
         options = (if mqtt_user cfg \<noteq> [] then
             (case mqtt_string ops (mqtt_user cfg) of
                Some user \<Rightarrow> options\<lparr>user_name := Some user\<rparr> | None \<Rightarrow> options)
           else options)
     in if mqtt_pass cfg \<noteq> [] then
          (case mqtt_binary ops (mqtt_pass cfg) of
             Some secret \<Rightarrow> options\<lparr>password := Some secret\<rparr> | None \<Rightarrow> options)
        else options)"

fun subscribe_loop :: "'c mqtt_client \<Rightarrow> bytes list \<Rightarrow> 'c \<Rightarrow> bool \<times> 'c" where
  "subscribe_loop ops [] c = (True, c)"
| "subscribe_loop ops (topic # topics) c =
    (case topic_filter ops topic of
       None \<Rightarrow> subscribe_loop ops topics c
     | Some f \<Rightarrow>
       (case subscribe_call ops c f of
          (False, c') \<Rightarrow> (False, c')
        | (True, c') \<Rightarrow> subscribe_loop ops topics c'))"

definition subscribe_all :: "'c mqtt_client \<Rightarrow> 'c \<Rightarrow> bool \<times> 'c" where
  "subscribe_all ops c = subscribe_loop ops SUBSCRIBE_TOPICS c"

section \<open>Events\<close>

datatype event = Publish bool bytes bytes | Other_Event

text \<open>A reboot command ends in \<open>safe_reboot\<close>; every other event lets the task go on.\<close>

datatype flow = Goes_On | Resets

definition leds_saved ::
  "(output_state option \<times> 'd option \<Rightarrow> output_state option \<times> 'd option) \<Rightarrow> 'd device \<Rightarrow> 'd device" where
  "leds_saved save g = (let (cache, ee) = save (led_cache g, eeprom g) in g\<lparr>led_cache := cache, eeprom := ee\<rparr>)"

fun run_command ::
  "('d, 'e) i2c_bus \<Rightarrow> 'c mqtt_client \<Rightarrow> output_cmd \<Rightarrow> 'c \<times> 'd device \<Rightarrow> flow \<times> 'c \<times> 'd device" where
  "run_command bus ops (output_cmd.Led1 on) (c, g) =
    (Goes_On, c, leds_saved (save_led1 bus on) (g\<lparr>outputs := set_led led_id.Led1 on (outputs g)\<rparr>))"
| "run_command bus ops (output_cmd.Led2 on) (c, g) =
    (Goes_On, c, leds_saved (save_led2 bus on) (g\<lparr>outputs := set_led led_id.Led2 on (outputs g)\<rparr>))"
| "run_command bus ops (AllLeds on) (c, g) =
    (Goes_On, c, leds_saved (save_leds bus on on)
      (g\<lparr>outputs := set_led led_id.Led2 on (set_led led_id.Led1 on (outputs g))\<rparr>))"
| "run_command bus ops (Relay on) (c, g) = (Goes_On, c, if on then pulse_relay g else relay_off g)"
| "run_command bus ops Ping (c, g) = (Goes_On, snd (publish_qos0 ops TOPIC_PONG (str ''1'') c), g)"
| "run_command bus ops Reboot (c, g) = (Resets, c, g\<lparr>marker := mark_remote_reboot (marker g)\<rparr>)"
| "run_command bus ops Unknown (c, g) = (Goes_On, c, g)"

definition handle_event ::
  "('d, 'e) i2c_bus \<Rightarrow> 'c mqtt_client \<Rightarrow> event \<Rightarrow> 'c \<times> 'd device \<Rightarrow> flow \<times> 'c \<times> 'd device" where
  "handle_event bus ops ev s =
    (case ev of
       Other_Event \<Rightarrow> (Goes_On, s)
     | Publish retain topic payload \<Rightarrow>
         if retain then (Goes_On, s)
         else (case mqtt_command topic payload of
             Some cmd \<Rightarrow> run_command bus ops cmd s
           | None \<Rightarrow> (Goes_On, s)))"

section \<open>The connected loop\<close>

text \<open>
  What wakes a round: a header that did not arrive intact, one whose body fails, one with its
  event, or none, and then the relay notification before the timer. A round reads the clock
  before its heartbeat check (\<open>m_now\<close>) and again for its timeout (\<open>m_again\<close>), which decides how long
  the round may wait and nothing else.
\<close>

datatype header = No_Header | Header_Error | Body_Error | Body event

record mqtt_round =
  m_now :: nat
  m_again :: nat
  m_header :: header

definition round_timeout :: "nat \<Rightarrow> nat \<Rightarrow> nat" where
  "round_timeout next_heartbeat t = min (next_heartbeat - t) 1000"

datatype exit = Pending | Returned | Rebooted

definition heartbeat_due :: "'c mqtt_client \<Rightarrow> nat \<Rightarrow> nat \<Rightarrow> 'c \<Rightarrow> nat \<times> 'c" where
  "heartbeat_due ops t next_heartbeat c =
    (if next_heartbeat \<le> t
     then (t + HEARTBEAT_INTERVAL_MS, snd (publish_qos0 ops TOPIC_HEARTBEAT (str ''1'') c))
     else (next_heartbeat, c))"

definition mqtt_step ::
  "('d, 'e) i2c_bus \<Rightarrow> 'c mqtt_client \<Rightarrow> header \<Rightarrow> 'c \<times> 'd device \<Rightarrow> exit \<times> 'c \<times> 'd device" where
  "mqtt_step bus ops h = (\<lambda>(c, g). case h of
     Header_Error \<Rightarrow> (Returned, c, g)
   | Body_Error \<Rightarrow> (Returned, c, g)
   | Body ev \<Rightarrow> (case handle_event bus ops ev (c, g) of
         (Goes_On, s) \<Rightarrow> (Pending, s) | (Resets, s) \<Rightarrow> (Rebooted, s))
   | No_Header \<Rightarrow>
       (case relay_change g of
          Some relay_on \<Rightarrow>
            (case publish_qos0 ops TOPIC_RELAY (relay_payload relay_on) c of
               (ok, c') \<Rightarrow> (if ok then Pending else Returned, c', g\<lparr>relay_change := None\<rparr>))
        | None \<Rightarrow> (case ping_call ops c of (ok, c') \<Rightarrow> (if ok then Pending else Returned, c', g))))"

fun connected_loop ::
  "('d, 'e) i2c_bus \<Rightarrow> 'c mqtt_client \<Rightarrow> nat \<Rightarrow> mqtt_round list \<Rightarrow> 'c \<times> 'd device \<Rightarrow> exit \<times> 'c \<times> 'd device" where
  "connected_loop bus ops next_heartbeat [] s = (Pending, s)"
| "connected_loop bus ops next_heartbeat (r # rs) (c, g) =
    (let (next', c') = heartbeat_due ops (m_now r) next_heartbeat c in
     case mqtt_step bus ops (m_header r) (c', g) of
       (Pending, s) \<Rightarrow> connected_loop bus ops next' rs s
     | (e, s) \<Rightarrow> (e, s))"

text \<open>\<open>from_utf8(..).unwrap_or(..).trim_end_matches('\0')\<close> on the configured client id.\<close>

definition client_id_str :: "network_config \<Rightarrow> bytes" where
  "client_id_str cfg =
    rev (dropWhile (\<lambda>b. b = 0) (rev (case from_utf8 (client_id cfg) of None \<Rightarrow> str ''stm32-jzf407'' | Some s \<Rightarrow> s)))"

text \<open>
  The part of a turn before its connected loop: whether the loop is reached, given the TCP
  connection's result.
\<close>

definition mqtt_connect ::
  "'c mqtt_client \<Rightarrow> network_config \<Rightarrow> reset_reason \<Rightarrow> bool \<Rightarrow> 'c \<times> 'd device \<Rightarrow> bool \<times> 'c \<times> 'd device" where
  "mqtt_connect ops cfg reason tcp_ok = (\<lambda>(c, g).
    let g = g\<lparr>mqtt_online := False\<rparr> in
    if \<not> tcp_ok then (False, c, g)
    else (case connect_call ops c (build_connect_options ops cfg) (mqtt_string ops (client_id_str cfg)) of
        (False, c) \<Rightarrow> (False, c, g)
      | (True, c) \<Rightarrow>
        (let g = g\<lparr>mqtt_online := True\<rparr>;
             c = snd (publish_retained ops TOPIC_STATUS (str ''online'') c);
             c = snd (publish_retained ops TOPIC_DIAG (as_str reason) c)
         in case subscribe_all ops c of
              (False, c) \<Rightarrow> (False, c, g\<lparr>mqtt_online := False\<rparr>)
            | (True, c) \<Rightarrow> (True, c, g))))"

text \<open>
  One turn of the task's endless loop: the TCP connection's result, the time at which the
  connected loop starts, and its rounds. \<open>Returned\<close> is the turn's end, after which the task
  sleeps a second and takes the next turn.
\<close>

definition mqtt_turn ::
  "('d, 'e) i2c_bus \<Rightarrow> 'c mqtt_client \<Rightarrow> network_config \<Rightarrow> reset_reason \<Rightarrow> bool \<Rightarrow> nat \<Rightarrow> mqtt_round list \<Rightarrow>
    'c \<times> 'd device \<Rightarrow> exit \<times> 'c \<times> 'd device" where
  "mqtt_turn bus ops cfg reason tcp_ok start rounds s =
    (case mqtt_connect ops cfg reason tcp_ok s of
       (False, s') \<Rightarrow> (Returned, s')
     | (True, s') \<Rightarrow>
       (case connected_loop bus ops (start + HEARTBEAT_INTERVAL_MS) rounds s' of
          (Returned, c, g) \<Rightarrow> (Returned, c, g\<lparr>mqtt_online := False\<rparr>)
        | other \<Rightarrow> other))"

section \<open>What an event can do\<close>

lemma leds_saved_fields [simp]:
  "relay_change (leds_saved save g) = relay_change g" "mqtt_online (leds_saved save g) = mqtt_online g"
  "outputs (leds_saved save g) = outputs g" "relay_trigger (leds_saved save g) = relay_trigger g"
  "marker (leds_saved save g) = marker g"
  "(led_cache (leds_saved save g), eeprom (leds_saved save g)) = save (led_cache g, eeprom g)"
  by (simp_all add: leds_saved_def Let_def split: prod.split)

lemma run_command_frame:
  assumes "run_command bus ops cmd (c, g) = (f, c', g')"
  shows "relay_change g' = relay_change g \<and> mqtt_online g' = mqtt_online g \<and>
    get_relay (outputs g') = get_relay (outputs g) \<and>
    (c' = c \<or> c' = snd (publish_call ops c TOPIC_PONG (str ''1'') False))"
  using assms
  by (cases cmd) (auto simp: pulse_relay_def relay_off_def publish_qos0_def publish_def simp del: str_Cons split: if_splits)

lemma handle_event_frame:
  assumes "handle_event bus ops ev (c, g) = (f, c', g')"
  shows "relay_change g' = relay_change g \<and> mqtt_online g' = mqtt_online g \<and>
    get_relay (outputs g') = get_relay (outputs g) \<and>
    (c' = c \<or> c' = snd (publish_call ops c TOPIC_PONG (str ''1'') False))"
  using assms run_command_frame [of bus ops _ c g f c' g']
  by (auto simp: handle_event_def simp del: str_Cons split: event.splits option.splits if_splits)

text \<open>A client that keeps a log of what is published, and a device just booted.\<close>

definition log_client :: "(bytes \<times> bytes \<times> bool) list mqtt_client" where
  "log_client = \<lparr>mqtt_string = Some, mqtt_binary = Some, topic_filter = Some,
     connect_call = (\<lambda>c opts i. (True, c)), subscribe_call = (\<lambda>c f. (True, c)),
     publish_call = (\<lambda>c topic payload retained. (True, c @ [(topic, payload, retained)])),
     ping_call = (\<lambda>c. (True, c))\<rparr>"

definition boot_device :: "sim device" where
  "boot_device = \<lparr>outputs = Unheld (Some boot_pins), relay_trigger = None, relay_change = None,
     led_cache = Some default_output, eeprom = Some blank_chip, mqtt_online = False, marker = 0\<rparr>"

section \<open>Messages and their echoes\<close>

text \<open>Of what was published, the messages that come back; and the notification the relay task left.\<close>

definition subscribed :: "(bytes \<times> bytes \<times> bool) list \<Rightarrow> (bytes \<times> bytes \<times> bool) list" where
  "subscribed log = filter (\<lambda>(topic, payload, retained). topic \<in> set SUBSCRIBE_TOPICS) log"

definition notification :: "'d device \<Rightarrow> (bytes \<times> bytes \<times> bool) list" where
  "notification g = (case relay_change g of None \<Rightarrow> [] | Some on \<Rightarrow> [(TOPIC_RELAY, relay_payload on, False)])"

lemma subscribed_topics:
  "TOPIC_PONG \<notin> set SUBSCRIBE_TOPICS" "TOPIC_HEARTBEAT \<notin> set SUBSCRIBE_TOPICS" "TOPIC_RELAY \<in> set SUBSCRIBE_TOPICS"
  by code_simp+

lemma heartbeat_subscribed: "heartbeat_due log_client t due c = (due', c') \<Longrightarrow> subscribed c' = subscribed c"
  by (auto simp: heartbeat_due_def publish_qos0_def publish_def log_client_def subscribed_def subscribed_topics
      simp del: str_Cons split: if_splits)

lemma step_subscribed:
  assumes "mqtt_step bus log_client h (c, g) = (e, c', g')"
  shows "subscribed c' @ notification g' = subscribed c @ notification g"
proof -
  have "subscribed c1 = subscribed c \<and> notification g1 = notification g"
    if "handle_event bus log_client ev (c, g) = (f, c1, g1)" for ev f c1 g1
    using handle_event_frame [OF that] subscribed_topics(1)
    by (auto simp: subscribed_def notification_def log_client_def simp del: str_Cons)
  then show ?thesis
    using assms subscribed_topics(3)
    by (fastforce simp: mqtt_step_def publish_qos0_def publish_def log_client_def subscribed_def notification_def
        simp del: str_Cons split: header.splits prod.splits flow.splits option.splits if_splits)
qed

lemma loop_subscribed:
  "connected_loop bus log_client due rs (c, g) = (e, c', g') \<Longrightarrow>
    subscribed c' @ notification g' = subscribed c @ notification g"
proof (induction rs arbitrary: due c g)
  case (Cons r rs)
  obtain n1 c1 where h: "heartbeat_due log_client (m_now r) due c = (n1, c1)" by fastforce
  obtain e1 c2 g2 where s: "mqtt_step bus log_client (m_header r) (c1, g) = (e1, c2, g2)" by (metis prod_cases3)
  with Cons.IH [of n1 c2 g2] Cons.prems h step_subscribed [OF s] heartbeat_subscribed [OF h]
  show ?case by (cases e1) auto
qed simp

text \<open>
  C28: no message makes the device talk to itself in a loop. Through any rounds of a connection
  on which every publication succeeds, whatever the broker sends in them, what is published on subscribed topics is the notification
  the relay task left at the end of a pulse, once, and nothing else: what was so published and
  what is still pending stays the same. And the broker's copy of that notification, taken by a
  relay task at rest, causes no further one. Retained messages do nothing at all.
\<close>

theorem messages_never_loop:
  assumes "connected_loop bus log_client due rs (c, g) = (e, c', g')"
  shows "subscribed c' @ notification g' = subscribed c @ notification g \<and>
    (\<exists>g1 g2. handle_event bus ops (Publish False TOPIC_RELAY (relay_payload False)) (c0, g) = (Goes_On, c0, g1) \<and>
      relay_poll t Waiting g1 = (Waiting, g2) \<and> notification g2 = notification g) \<and>
    handle_event bus ops (Publish True topic m) (c0, g) = (Goes_On, c0, g)"
proof -
  have "mqtt_command TOPIC_RELAY (relay_payload False) = Some (Relay False)" by code_simp
  then show ?thesis
    using loop_subscribed [OF assms] by (simp add: handle_event_def relay_off_def relay_poll_defs notification_def)
qed

theorem messages_never_loop_witness:
  "\<exists>c g. connected_loop sim_bus log_client 10000
      [\<lparr>m_now = 5, m_again = 5, m_header = Body (Publish False TOPIC_PING [])\<rparr>, \<lparr>m_now = 6, m_again = 6, m_header = No_Header\<rparr>]
      ([], boot_device\<lparr>relay_change := Some False\<rparr>) = (Pending, c, g) \<and>
    subscribed c @ notification g = [(TOPIC_RELAY, str ''0'', False)]"
proof -
  let ?rs = "[\<lparr>m_now = 5, m_again = 5, m_header = Body (Publish False TOPIC_PING [])\<rparr>, \<lparr>m_now = 6, m_again = 6, m_header = No_Header\<rparr>]"
    and ?g = "boot_device\<lparr>relay_change := Some False\<rparr>"
  have "mqtt_command TOPIC_PING [] = Some Ping" by code_simp
  then obtain c g where r: "connected_loop sim_bus log_client 10000 ?rs ([], ?g) = (Pending, c, g)"
    by (simp add: heartbeat_due_def mqtt_step_def handle_event_def publish_qos0_def publish_def log_client_def del: str_Cons)
  have "subscribed [] @ notification ?g = [(TOPIC_RELAY, str ''0'', False)]"
    by (simp add: subscribed_def notification_def relay_payload_def)
  with r messages_never_loop [OF r] show ?thesis by (metis (no_types, lifting))
qed

section \<open>The online flag\<close>

lemma mqtt_step_online:
  "mqtt_step bus ops h (c, g) = (e, c', g') \<Longrightarrow> mqtt_online g' = mqtt_online g"
  using handle_event_frame [of bus ops _ c g]
  by (auto simp: mqtt_step_def split: header.splits prod.splits flow.splits option.splits if_splits)

lemma connected_loop_online:
  "connected_loop bus ops hb rs (c, g) = (e, c', g') \<Longrightarrow> mqtt_online g' = mqtt_online g"
proof (induction rs arbitrary: hb c g)
  case (Cons r rs)
  obtain n1 c1 where h: "heartbeat_due ops (m_now r) hb c = (n1, c1)" by fastforce
  obtain e1 c2 g2 where s: "mqtt_step bus ops (m_header r) (c1, g) = (e1, c2, g2)"
    by (metis prod_cases3)
  then have "mqtt_online g2 = mqtt_online g" by (rule mqtt_step_online)
  with Cons.IH [of n1 c2 g2] Cons.prems h s show ?case by (cases e1) auto
qed simp

text \<open>
  C30: the online flag tells the truth: whichever way a turn of the task ends (no TCP connection, the
  broker refusing, a failed subscription, a lost connection), the flag is then off, and it is on
  for as long as the turn is still serving its connection.
\<close>

theorem online_while_connected:
  assumes "mqtt_turn bus ops cfg reason tcp_ok start rounds (c, g) = (e, c', g')"
  shows "mqtt_online g' \<longleftrightarrow> e \<noteq> Returned"
proof -
  have "mqtt_online g1 = mqtt_online g0"
    if "connected_loop bus ops (start + HEARTBEAT_INTERVAL_MS) rounds (c0, g0) = (e, c1, g1)" for c0 g0 c1 g1
    using that by (rule connected_loop_online)
  then show ?thesis
    using assms
    by (fastforce simp: mqtt_turn_def mqtt_connect_def Let_def split: if_splits prod.splits bool.splits exit.splits)
qed

theorem online_while_connected_witness:
  "\<exists>c g. mqtt_turn sim_bus log_client (default_config bounded_append) PowerOn True 0 [] ([], boot_device) = (Pending, c, g) \<and>
    mqtt_online g"
proof -
  have "fst (mqtt_turn sim_bus log_client (default_config bounded_append) PowerOn True 0 [] ([], boot_device)) = Pending"
    by (simp add: mqtt_turn_def mqtt_connect_def subscribe_all_def SUBSCRIBE_TOPICS_def log_client_def Let_def)
  then obtain c g where "mqtt_turn sim_bus log_client (default_config bounded_append) PowerOn True 0 [] ([], boot_device)
      = (Pending, c, g)" by (metis prod.collapse)
  with online_while_connected [OF this] show ?thesis by simp
qed

section \<open>Heartbeats\<close>

text \<open>The times at which the loop publishes a heartbeat, and the due time after a round.\<close>

fun beats :: "nat \<Rightarrow> mqtt_round list \<Rightarrow> nat list" where
  "beats due [] = []"
| "beats due (r # rs) =
    (if due \<le> m_now r then m_now r # beats (m_now r + HEARTBEAT_INTERVAL_MS) rs else beats due rs)"

definition due_after :: "nat \<Rightarrow> mqtt_round \<Rightarrow> nat" where
  "due_after due r = (if due \<le> m_now r then m_now r + HEARTBEAT_INTERVAL_MS else due)"

text \<open>
  Rounds that take at most \<open>e\<close> longer than they ask for: the work before the second clock reading,
  and what follows the wait until the next round begins.
\<close>

fun paced :: "nat \<Rightarrow> nat \<Rightarrow> mqtt_round list \<Rightarrow> bool" where
  "paced e due [] = True"
| "paced e due [r] = True"
| "paced e due (r # r' # rs) \<longleftrightarrow>
    m_now r \<le> m_again r \<and> m_again r \<le> m_now r + e \<and>
    m_again r \<le> m_now r' \<and> m_now r' \<le> m_again r + round_timeout (due_after due r) (m_again r) + e \<and>
    paced e (due_after due r) (r' # rs)"

lemma beats_on_time:
  assumes "paced e (b + HEARTBEAT_INTERVAL_MS) rs"
    and "rs \<noteq> [] \<Longrightarrow> b \<le> m_now (hd rs) \<and> m_now (hd rs) \<le> b + HEARTBEAT_INTERVAL_MS + 2 * e"
  shows "successively (\<lambda>s t. s + HEARTBEAT_INTERVAL_MS \<le> t \<and> t \<le> s + HEARTBEAT_INTERVAL_MS + 2 * e)
      (b # beats (b + HEARTBEAT_INTERVAL_MS) rs) \<and>
    (\<forall>r\<in>set rs. \<exists>s\<in>set (b # beats (b + HEARTBEAT_INTERVAL_MS) rs). s \<le> m_now r \<and> m_now r < s + HEARTBEAT_INTERVAL_MS)"
  using assms
proof (induction rs arbitrary: b)
  case (Cons r rs)
  define b' where "b' = (if b + HEARTBEAT_INTERVAL_MS \<le> m_now r then m_now r else b)"
  have due: "due_after (b + HEARTBEAT_INTERVAL_MS) r = b' + HEARTBEAT_INTERVAL_MS"
    by (simp add: due_after_def b'_def)
  have r: "b' \<le> m_now r" "m_now r < b' + HEARTBEAT_INTERVAL_MS"
    using Cons.prems(2) by (auto simp: b'_def HEARTBEAT_INTERVAL_MS_def)
  have p: "paced e (b' + HEARTBEAT_INTERVAL_MS) rs"
    using Cons.prems(1) due by (cases rs) auto
  have hd: "b' \<le> m_now (hd rs) \<and> m_now (hd rs) \<le> b' + HEARTBEAT_INTERVAL_MS + 2 * e" if "rs \<noteq> []"
    using that Cons.prems(1) due r by (cases rs) (auto simp: round_timeout_def)
  show ?case
    using Cons.IH [OF p hd] Cons.prems(2) r by (auto simp: b'_def split: if_splits)
qed simp

text \<open>The client that logs what is published sees exactly these heartbeats.\<close>

definition heartbeats :: "(bytes \<times> bytes \<times> bool) list \<Rightarrow> (bytes \<times> bytes \<times> bool) list" where
  "heartbeats log = filter (\<lambda>m. m = (TOPIC_HEARTBEAT, str ''1'', False)) log"

lemma log_topics: "TOPIC_PONG \<noteq> TOPIC_HEARTBEAT" "TOPIC_RELAY \<noteq> TOPIC_HEARTBEAT"
  by code_simp+

lemma mqtt_step_beats:
  assumes "mqtt_step bus log_client h (c, g) = (e, c', g')"
  shows "heartbeats c' = heartbeats c"
proof -
  have "heartbeats c1 = heartbeats c" if "handle_event bus log_client ev (c, g) = (f, c1, g1)" for ev f c1 g1
    using handle_event_frame [OF that] log_topics(1) by (auto simp: heartbeats_def log_client_def simp del: str_Cons)
  then show ?thesis
    using assms log_topics(2)
    by (auto simp: mqtt_step_def publish_qos0_def publish_def log_client_def heartbeats_def simp del: str_Cons
        split: header.splits prod.splits flow.splits option.splits if_splits)
qed

lemma loop_beats:
  "connected_loop bus log_client due rs (c, g) = (Pending, c', g') \<Longrightarrow>
    length (heartbeats c') = length (heartbeats c) + length (beats due rs)"
proof (induction rs arbitrary: due c g)
  case (Cons r rs)
  obtain n1 c1 where h: "heartbeat_due log_client (m_now r) due c = (n1, c1)" by fastforce
  then have n1: "n1 = due_after due r" and c1: "heartbeats c1 = heartbeats c @
      (if due \<le> m_now r then [(TOPIC_HEARTBEAT, str ''1'', False)] else [])"
    by (auto simp: heartbeat_due_def due_after_def heartbeats_def publish_qos0_def publish_def log_client_def
        simp del: str_Cons split: if_splits)
  obtain e1 c2 g2 where s: "mqtt_step bus log_client (m_header r) (c1, g) = (e1, c2, g2)" by (metis prod_cases3)
  with Cons.prems h have l: "e1 = Pending" "connected_loop bus log_client n1 rs (c2, g2) = (Pending, c', g')"
    by (auto split: exit.splits)
  show ?case using Cons.IH [OF l(2)] mqtt_step_beats [OF s] c1 by (simp add: n1 due_after_def)
qed simp

text \<open>
  C20: the heartbeat keeps time: however the broker's packets, relay notifications and pings fill the
  rounds of a connection, if each round ends at most \<open>e\<close> ms after it asked to be woken, then the
  first heartbeat comes 10 s after the loop starts and each further one 10 s after the one
  before, never early and at most \<open>2 * e\<close> late; no round passes 10 s after a heartbeat without the
  next; and the heartbeats the broker gets are these and no others.
\<close>

theorem heartbeats_on_time:
  assumes "paced e (start + HEARTBEAT_INTERVAL_MS) rs"
    and "rs \<noteq> []" and "start \<le> m_now (hd rs)" and "m_now (hd rs) \<le> start + HEARTBEAT_INTERVAL_MS + 2 * e"
    and "connected_loop bus log_client (start + HEARTBEAT_INTERVAL_MS) rs ([], g) = (Pending, c', g')"
  shows "successively (\<lambda>s t. s + HEARTBEAT_INTERVAL_MS \<le> t \<and> t \<le> s + HEARTBEAT_INTERVAL_MS + 2 * e)
      (start # beats (start + HEARTBEAT_INTERVAL_MS) rs) \<and>
    (\<forall>r\<in>set rs. \<exists>s\<in>set (start # beats (start + HEARTBEAT_INTERVAL_MS) rs).
      s \<le> m_now r \<and> m_now r < s + HEARTBEAT_INTERVAL_MS) \<and>
    length (heartbeats c') = length (beats (start + HEARTBEAT_INTERVAL_MS) rs)"
  using beats_on_time [OF assms(1)] assms(2-4) loop_beats [OF assms(5)] by (simp add: heartbeats_def)

text \<open>Idle rounds a second apart; in the last one the heartbeat is due.\<close>

definition idle_rounds :: "mqtt_round list" where
  "idle_rounds = map (\<lambda>t. \<lparr>m_now = t, m_again = t, m_header = No_Header\<rparr>)
    [0, 1000, 2000, 3000, 4000, 5000, 6000, 7000, 8000, 9000, 10000]"

theorem heartbeats_on_time_witness:
  "\<exists>c g. connected_loop sim_bus log_client HEARTBEAT_INTERVAL_MS idle_rounds ([], boot_device) = (Pending, c, g) \<and>
    length (heartbeats c) = 1"
proof -
  obtain c g where r: "connected_loop sim_bus log_client HEARTBEAT_INTERVAL_MS idle_rounds ([], boot_device) = (Pending, c, g)"
    by (simp add: idle_rounds_def heartbeat_due_def HEARTBEAT_INTERVAL_MS_def mqtt_step_def boot_device_def
        log_client_def publish_qos0_def publish_def del: str_Cons)
  have "paced 0 (0 + HEARTBEAT_INTERVAL_MS) idle_rounds" "idle_rounds \<noteq> []"
    by (simp_all add: idle_rounds_def HEARTBEAT_INTERVAL_MS_def round_timeout_def due_after_def)
  from heartbeats_on_time [OF this, of sim_bus boot_device c g] r
  have "length (heartbeats c) = length (beats HEARTBEAT_INTERVAL_MS idle_rounds)"
    by (simp add: idle_rounds_def HEARTBEAT_INTERVAL_MS_def)
  then show ?thesis using r by (simp add: idle_rounds_def HEARTBEAT_INTERVAL_MS_def)
qed

section \<open>LED commands\<close>

definition shown_leds :: "'d device \<Rightarrow> output_state" where
  "shown_leds g = \<lparr>led1 = get_led led_id.Led1 (outputs g), led2 = get_led led_id.Led2 (outputs g)\<rparr>"

text \<open>What a message asks of the LEDs.\<close>

fun led_effect :: "event \<Rightarrow> output_state \<Rightarrow> output_state" where
  "led_effect Other_Event s = s"
| "led_effect (Publish retain topic payload) s =
    (if retain then s
     else (case mqtt_command topic payload of
         Some (output_cmd.Led1 on) \<Rightarrow> s\<lparr>led1 := on\<rparr>
       | Some (output_cmd.Led2 on) \<Rightarrow> s\<lparr>led2 := on\<rparr>
       | Some (AllLeds on) \<Rightarrow> s\<lparr>led1 := on, led2 := on\<rparr>
       | _ \<Rightarrow> s))"

fun event_run ::
  "('d, 'e) i2c_bus \<Rightarrow> 'c mqtt_client \<Rightarrow> event list \<Rightarrow> 'c \<times> 'd device \<Rightarrow> flow \<times> 'c \<times> 'd device" where
  "event_run bus ops [] s = (Goes_On, s)"
| "event_run bus ops (ev # evs) s =
    (case handle_event bus ops ev s of
       (Resets, s') \<Rightarrow> (Resets, s')
     | (Goes_On, s') \<Rightarrow> event_run bus ops evs s')"

text \<open>The LEDs are shown as cached, and stored as cached, on an idle chip.\<close>

definition led_inv :: "('d \<Rightarrow> cells) \<Rightarrow> ('d \<Rightarrow> bool) \<Rightarrow> 'd device \<Rightarrow> bool" where
  "led_inv cells idle g \<longleftrightarrow> ready (outputs g) \<and> led_cache g = Some (shown_leds g) \<and>
    (\<exists>d. eeprom g = Some d \<and> idle d \<and> coherent cells (led_cache g) d)"

context responsive_at24c02
begin

lemma leds_saved_inv:
  assumes "led_inv cells idle g" and "update (shown_leds g) = shown_leds g'"
    and "ready (outputs g')" and "led_cache g' = led_cache g" and "eeprom g' = eeprom g"
  shows "led_inv cells idle (leds_saved (save_field bus update) g') \<and>
    shown_leds (leds_saved (save_field bus update) g') = update (shown_leds g)"
proof -
  obtain d where d: "eeprom g = Some d" "idle d" "coherent cells (led_cache g) d" "led_cache g = Some (shown_leds g)"
    using assms(1) by (auto simp: led_inv_def)
  from save_field_step [OF d(2,3), of update] obtain cache' d' where
    s: "save_field bus update (led_cache g, Some d) = (cache', Some d')" "idle d'" "coherent cells cache' d'"
      "cache' = Some (update (shown_leds g))"
    unfolding d(4) by auto
  then have "leds_saved (save_field bus update) g' = g'\<lparr>led_cache := cache', eeprom := Some d'\<rparr>"
    by (simp add: leds_saved_def assms(4,5) d(1))
  with s assms(2,3) show ?thesis by (simp add: led_inv_def shown_leds_def)
qed

lemma handle_event_leds:
  assumes "led_inv cells idle g" and "handle_event bus ops ev (c, g) = (f, c', g')"
  shows "led_inv cells idle g' \<and> shown_leds g' = led_effect ev (shown_leds g)"
proof -
  have r: "ready (outputs g)" using assms(1) by (simp add: led_inv_def)
  have cmd: "led_inv cells idle g' \<and> shown_leds g' =
      (case cmd of output_cmd.Led1 on \<Rightarrow> (shown_leds g)\<lparr>led1 := on\<rparr> | output_cmd.Led2 on \<Rightarrow> (shown_leds g)\<lparr>led2 := on\<rparr>
       | AllLeds on \<Rightarrow> (shown_leds g)\<lparr>led1 := on, led2 := on\<rparr> | _ \<Rightarrow> shown_leds g)"
    if "run_command bus ops cmd (c, g) = (f, c', g')" for cmd
  proof (cases cmd)
    case (Led1 on)
    with that r leds_saved_inv [OF assms(1), of "\<lambda>s. s\<lparr>led1 := on\<rparr>" "g\<lparr>outputs := set_led led_id.Led1 on (outputs g)\<rparr>"]
    show ?thesis by (auto simp: save_led1_def shown_leds_def)
  next
    case (Led2 on)
    with that r leds_saved_inv [OF assms(1), of "\<lambda>s. s\<lparr>led2 := on\<rparr>" "g\<lparr>outputs := set_led led_id.Led2 on (outputs g)\<rparr>"]
    show ?thesis by (auto simp: save_led2_def shown_leds_def)
  next
    case (AllLeds on)
    with that r leds_saved_inv [OF assms(1), of "\<lambda>s. s\<lparr>led1 := on, led2 := on\<rparr>"
        "g\<lparr>outputs := set_led led_id.Led2 on (set_led led_id.Led1 on (outputs g))\<rparr>"]
    show ?thesis by (auto simp: save_leds_def shown_leds_def)
  qed (use that assms(1) in \<open>auto simp: led_inv_def shown_leds_def pulse_relay_def relay_off_def split: if_splits\<close>)
  show ?thesis
    using assms cmd by (auto simp: handle_event_def split: event.splits if_splits option.splits)
qed

lemma event_run_leds:
  "led_inv cells idle g \<Longrightarrow> event_run bus ops evs (c, g) = (f, c', g') \<Longrightarrow>
    led_inv cells idle g' \<and> (f = Goes_On \<longrightarrow> shown_leds g' = fold led_effect evs (shown_leds g))"
proof (induction evs arbitrary: c g)
  case (Cons ev evs)
  obtain f1 c1 g1 where h: "handle_event bus ops ev (c, g) = (f1, c1, g1)" by (metis prod_cases3)
  from handle_event_leds [OF Cons.prems(1) h] Cons.IH [of g1 c1] Cons.prems(2) h
  show ?case by (cases f1) auto
qed simp

end

text \<open>
  C7: on a chip that answers, after any sequence of messages, also one cut short by a reboot command,
  what the LEDs show is what the next boot restores; and as long as no reboot came, it is what
  the messages asked for in order.
\<close>

theorem led_messages_persist:
  assumes "responsive_at24c02 bus cells idle" and "led_inv cells idle g"
    and "event_run bus ops evs (c, g) = (f, c', g')"
  shows "(\<exists>d. eeprom g' = Some d \<and> stored_state (cells d) = shown_leds g') \<and>
    (f = Goes_On \<longrightarrow> shown_leds g' = fold led_effect evs (shown_leds g))"
  using responsive_at24c02.event_run_leds [OF assms] by (auto simp: led_inv_def coherent_def)

lemma boot_device_inv: "led_inv sim_cells sim_idle boot_device"
proof -
  have "stored_state (sim_cells blank_chip) = default_output" by code_simp
  then show ?thesis
    by (simp add: led_inv_def boot_device_def shown_leds_def boot_pins_def default_output_def coherent_def
        sim_idle_def) (simp add: blank_chip_def)
qed

theorem led_messages_persist_witness:
  "\<exists>c g d. event_run sim_bus log_client [Publish False TOPIC_LED1 (str ''on'')] ([], boot_device) = (Goes_On, c, g) \<and>
    shown_leds g = \<lparr>led1 = True, led2 = False\<rparr> \<and> eeprom g = Some d \<and>
    stored_state (sim_cells d) = \<lparr>led1 = True, led2 = False\<rparr>"
proof -
  let ?ev = "Publish False TOPIC_LED1 (str ''on'')"
  have cmd: "mqtt_command TOPIC_LED1 (str ''on'') = Some (output_cmd.Led1 True)" by code_simp
  obtain c g where r: "event_run sim_bus log_client [?ev] ([], boot_device) = (Goes_On, c, g)"
    by (auto simp: handle_event_def cmd simp del: str_Cons)
  have "shown_leds boot_device = default_output"
    by (simp add: shown_leds_def boot_device_def boot_pins_def default_output_def)
  then have "fold led_effect [?ev] (shown_leds boot_device) = \<lparr>led1 = True, led2 = False\<rparr>"
    by (simp add: cmd default_output_def del: str_Cons)
  with led_messages_persist [OF sim_responsive boot_device_inv r] r show ?thesis by auto
qed

section \<open>The echo of the relay state\<close>

text \<open>
  C29: the device's own message at the end of a pulse can cut the next pulse short. The state it then
  publishes goes to a topic it subscribes to, and the broker's copy of it, arriving when a new
  pulse is already running, is an off command: the next poll opens the relay although the
  pulse's deadline is still ahead.
\<close>

theorem own_echo_cancels_pulse:
  assumes "ready (outputs g)" and "t < deadline"
  shows "TOPIC_RELAY \<in> set SUBSCRIBE_TOPICS \<and>
    snd (mqtt_step bus ops No_Header (c, end_pulse g0)) =
      (snd (publish_call ops c TOPIC_RELAY (relay_payload False) False), (end_pulse g0)\<lparr>relay_change := None\<rparr>) \<and>
    (\<exists>g1 g2. handle_event bus ops (Publish False TOPIC_RELAY (relay_payload False)) (c, g) = (Goes_On, c, g1) \<and>
      relay_poll t (Pulsing deadline) g1 = (Waiting, g2) \<and> \<not> get_relay (outputs g2))"
proof -
  have "TOPIC_RELAY \<in> set SUBSCRIBE_TOPICS" by (simp add: SUBSCRIBE_TOPICS_def)
  moreover have "snd (mqtt_step bus ops No_Header (c, end_pulse g0)) =
      (snd (publish_call ops c TOPIC_RELAY (relay_payload False) False), (end_pulse g0)\<lparr>relay_change := None\<rparr>)"
    by (simp add: mqtt_step_def end_pulse_def publish_qos0_def publish_def split: prod.split)
  moreover have "mqtt_command TOPIC_RELAY (relay_payload False) = Some (Relay False)" by code_simp
  ultimately show ?thesis
    using assms by (simp add: handle_event_def relay_off_def relay_poll_defs)
qed

theorem own_echo_cancels_pulse_witness:
  "\<exists>g1 g2. handle_event sim_bus log_client (Publish False TOPIC_RELAY (relay_payload False)) ([], boot_device)
      = (Goes_On, [], g1) \<and> relay_poll 10 (Pulsing 2000) g1 = (Waiting, g2) \<and> \<not> get_relay (outputs g2)"
proof -
  have "ready (outputs boot_device)" "(10 :: nat) < 2000" by (simp_all add: boot_device_def)
  from own_echo_cancels_pulse [OF this, of sim_bus log_client "[]" boot_device] show ?thesis by blast
qed

end
