(* ===== verification/Web_Text.thy ===== *)
theory Web_Text
  imports Prelude
begin

text \<open>
  The fixed texts of \<open>src/web.rs\<close> and \<open>src/sse.rs\<close>, byte for byte: response heads, the login page,
  the dashboard's head, script and the literals \<open>send_page\<close> writes between its values. A
  character outside ASCII stands as its UTF-8 bytes.
\<close>

section \<open>Response heads and messages\<close>

definition HTTP_OK :: bytes where
  "HTTP_OK =
    str ''HTTP/1.1 200 OK'' @
    [13, 10] @
    str ''Content-Type: text/html; charset=utf-8'' @
    [13, 10] @
    str ''Connection: close'' @
    [13, 10, 13, 10]"

definition HTTP_OK_JSON :: bytes where
  "HTTP_OK_JSON =
    str ''HTTP/1.1 200 OK'' @
    [13, 10] @
    str ''Content-Type: application/json'' @
    [13, 10] @
    str ''Cache-Control: no-store'' @
    [13, 10] @
    str ''Connection: close'' @
    [13, 10, 13, 10]"

definition HTTP_303_HOME :: bytes where
  "HTTP_303_HOME =
    str ''HTTP/1.1 303 See Other'' @
    [13, 10] @
    str ''Location: /'' @
    [13, 10] @
    str ''Connection: close'' @
    [13, 10, 13, 10]"

definition HTTP_303_LOGOUT :: bytes where
  "HTTP_303_LOGOUT =
    str ''HTTP/1.1 303 See Other'' @
    [13, 10] @
    str ''Set-Cookie: jzf_session=; Path=/; Max-Age=0; Expires=Thu, 01 Jan 1970 00:00:00 GMT; '' @
    str ''HttpOnly; SameSite=Strict'' @
    [13, 10] @
    str ''Location: /login'' @
    [13, 10] @
    str ''Connection: close'' @
    [13, 10, 13, 10]"

definition HTTP_400 :: bytes where
  "HTTP_400 =
    str ''HTTP/1.1 400 Bad Request'' @
    [13, 10] @
    str ''Connection: close'' @
    [13, 10, 13, 10] @
    str ''Bad Request''"

definition HTTP_404 :: bytes where
  "HTTP_404 =
    str ''HTTP/1.1 404 Not Found'' @
    [13, 10] @
    str ''Connection: close'' @
    [13, 10, 13, 10] @
    str ''Not Found''"

definition HTTP_500 :: bytes where
  "HTTP_500 =
    str ''HTTP/1.1 500 Internal Server Error'' @
    [13, 10] @
    str ''Content-Type: text/html; charset=utf-8'' @
    [13, 10] @
    str ''Connection: close'' @
    [13, 10, 13, 10] @
    str ''<html><body><p>EEPROM write failed '' @
    [0xE2, 0x80, 0x94] @
    str '' config NOT saved. <a href=/>back</a></p></body></html>''"

definition HTTP_401_LOGIN :: bytes where
  "HTTP_401_LOGIN =
    str ''HTTP/1.1 401 Unauthorized'' @
    [13, 10] @
    str ''Content-Type: text/html; charset=utf-8'' @
    [13, 10] @
    str ''Connection: close'' @
    [13, 10, 13, 10]"

definition HTTP_401_EXPIRE_COOKIE :: bytes where
  "HTTP_401_EXPIRE_COOKIE =
    str ''HTTP/1.1 401 Unauthorized'' @
    [13, 10] @
    str ''Set-Cookie: jzf_session=; Path=/; Max-Age=0; Expires=Thu, 01 Jan 1970 00:00:00 GMT; '' @
    str ''HttpOnly; SameSite=Strict'' @
    [13, 10] @
    str ''Content-Type: text/html; charset=utf-8'' @
    [13, 10] @
    str ''Connection: close'' @
    [13, 10, 13, 10]"

definition LOGIN_ERROR :: bytes where
  "LOGIN_ERROR =
    str ''<div class='err'>'' @
    [0xE2, 0x9C, 0x95] @
    str '' Invalid username or password</div>''"

definition LOGIN_LOCKED :: bytes where
  "LOGIN_LOCKED =
    str ''<div class='err'>'' @
    [0xE2, 0x9A, 0xA0] @
    str '' Too many failed attempts '' @
    [0xE2, 0x80, 0x94] @
    str '' locked for 60s</div>''"

definition SSE_HEAD :: bytes where
  "SSE_HEAD =
    str ''HTTP/1.1 200 OK'' @
    [13, 10] @
    str ''Content-Type: text/event-stream'' @
    [13, 10] @
    str ''Cache-Control: no-cache'' @
    [13, 10] @
    str ''Connection: keep-alive'' @
    [13, 10] @
    str ''X-Accel-Buffering: no'' @
    [13, 10, 13, 10]"

section \<open>The login page\<close>

definition LOGIN_HEAD :: bytes where
  "LOGIN_HEAD =
    str ''<!DOCTYPE html><html lang='en'><head><meta charset='utf-8'>'' @
    str ''<meta name='viewport' content='width=device-width,initial-scale=1'><title>JZF407 // '' @
    str ''AUTH</title>'' @
    str ''<link rel='preconnect' href='https://fonts.gstatic.com' crossorigin>'' @
    str ''<link href='https://fonts.googleapis.com/css2?family=JetBrains+Mono:wght@400;500;700'' @
    str '';800&display=swap' rel='stylesheet'>'' @
    str ''<style>'' @
    str '':root{--bg:#05060a;--bg2:#090b14;--ink:#e8f6ff;--dim:#6a7891;--dimmer:#3a445a;--line'' @
    str '':#18253b;--line-hot:#1f3a6b;--cy:#00e7ff;--mg:#ff2bd6;--no:#ff6ae3}'' @
    str ''*{box-sizing:border-box;margin:0;padding:0}'' @
    str ''html,body{background:var(--bg);color:var(--ink);font-family:'JetBrains Mono',ui-mono'' @
    str ''space,Menlo,Consolas,monospace}'' @
    str ''body{display:flex;align-items:center;justify-content:center;min-height:100vh;padding'' @
    str '':16px;overflow:hidden;background:radial-gradient(1000px 600px at 80% -10%,rgba(255,4'' @
    str ''3,214,.12),transparent),radial-gradient(800px 500px at -10% 10%,rgba(0,231,255,.12),'' @
    str ''transparent),var(--bg)}'' @
    str ''.scanlines{position:fixed;inset:0;pointer-events:none;z-index:50;background:repeatin'' @
    str ''g-linear-gradient(to bottom,rgba(255,255,255,.025) 0 1px,transparent 1px 3px);mix-bl'' @
    str ''end-mode:overlay;opacity:.6}'' @
    str ''.vignette{position:fixed;inset:0;pointer-events:none;z-index:50;background:radial-gr'' @
    str ''adient(120% 80% at 50% 50%,transparent 55%,rgba(0,0,0,.65) 100%)}'' @
    str ''.box{position:relative;z-index:10;width:100%;max-width:380px;border:1px solid var(--'' @
    str ''line-hot);background:linear-gradient(180deg,rgba(0,231,255,.04),rgba(0,0,0,0) 40%),v'' @
    str ''ar(--bg2);box-shadow:0 0 0 1px rgba(0,231,255,.06),0 30px 80px rgba(0,0,0,.6),inset '' @
    str ''0 0 60px rgba(0,231,255,.03)}'' @
    str ''.box::before,.box::after,.box>.bk1,.box>.bk2{content:'' @
    [39, 39] @
    str '';position:absolute;width:12px;height:12px;border:1px solid var(--cy)}'' @
    str ''.box::before{top:-1px;left:-1px;border-right:none;border-bottom:none}'' @
    str ''.box::after{top:-1px;right:-1px;border-left:none;border-bottom:none}'' @
    str ''.box>.bk1{bottom:-1px;left:-1px;border-right:none;border-top:none}'' @
    str ''.box>.bk2{bottom:-1px;right:-1px;border-left:none;border-top:none}'' @
    str ''.chrome{display:flex;align-items:center;justify-content:space-between;padding:12px 1'' @
    str ''8px;border-bottom:1px solid var(--line);font-size:11px;letter-spacing:.24em;text-tra'' @
    str ''nsform:uppercase;color:var(--dim);background:rgba(0,0,0,.35)}'' @
    str ''.chrome .slash{color:var(--mg)}'' @
    str ''.body{padding:30px 28px}'' @
    str ''.body h1{font-size:30px;font-weight:800;letter-spacing:-.03em;margin-bottom:4px}'' @
    str ''.body h1 .ac{color:transparent;-webkit-text-stroke:1px var(--cy);text-shadow:0 0 18p'' @
    str ''x rgba(0,231,255,.4)}'' @
    str ''.body .sub{color:var(--dim);font-size:11px;letter-spacing:.2em;text-transform:upperc'' @
    str ''ase;margin-bottom:24px}'' @
    str ''.err{color:var(--no);border:1px solid rgba(255,43,214,.4);background:rgba(255,43,214'' @
    str '',.07);padding:10px 14px;font-size:11px;font-weight:600;letter-spacing:.1em;text-tran'' @
    str ''sform:uppercase;margin-bottom:16px}'' @
    str ''label{display:block;font-size:10px;font-weight:600;color:var(--dim);letter-spacing:.'' @
    str ''18em;text-transform:uppercase;margin:0 0 5px}'' @
    str ''input{display:block;width:100%;font:inherit;font-size:14px;padding:11px 13px;border:'' @
    str ''1px solid var(--line-hot);background:rgba(0,0,0,.35);color:var(--ink);margin-bottom:'' @
    str ''14px}'' @
    str ''input:focus{outline:0;border-color:var(--cy);background:rgba(0,231,255,.04);box-shad'' @
    str ''ow:0 0 0 1px var(--cy),inset 0 0 18px rgba(0,231,255,.06)}'' @
    str ''input::placeholder{color:var(--dimmer)}'' @
    str ''button{position:relative;width:100%;font:inherit;font-weight:600;font-size:12px;lett'' @
    str ''er-spacing:.24em;text-transform:uppercase;border:1px solid var(--mg);padding:14px;cu'' @
    str ''rsor:pointer;color:#fff;background:linear-gradient(180deg,rgba(255,43,214,.16),rgba('' @
    str ''255,43,214,.04));box-shadow:0 0 22px rgba(255,43,214,.25),inset 0 0 30px rgba(255,43'' @
    str '',214,.12);transition:all .2s ease;margin-top:6px}'' @
    str ''button:hover{background:rgba(255,43,214,.24);box-shadow:0 0 26px rgba(255,43,214,.45'' @
    str '')}'' @
    str ''button::before,button::after{content:'' @
    [39, 39] @
    str '';position:absolute;width:8px;height:8px;border:1px solid #fff}'' @
    str ''button::before{top:-1px;left:-1px;border-right:none;border-bottom:none}'' @
    str ''button::after{bottom:-1px;right:-1px;border-left:none;border-top:none}'' @
    str ''</style></head><body><div class='scanlines'></div><div class='vignette'></div>'' @
    str ''<div class='box'><span class='bk1'></span><span class='bk2'></span>'' @
    str ''<div class='chrome'><span>auth<span class='slash'>/</span>session</span><span>JZF407'' @
    str ''</span></div>'' @
    str ''<div class='body'><h1>JZF<span class='ac'>407</span></h1>'' @
    str ''<p class='sub'>// authorization required</p>''"

definition LOGIN_TAIL :: bytes where
  "LOGIN_TAIL =
    str ''<form method='post' action='/login'>'' @
    str ''<label>Username</label><input type='text' name='user' placeholder='user' autocomplet'' @
    str ''e='username' required>'' @
    str ''<label>Password</label><input type='password' name='pass' placeholder='' @
    [39, 0xE2, 0x80, 0xA2, 0xE2, 0x80, 0xA2, 0xE2, 0x80, 0xA2, 0xE2, 0x80, 0xA2, 0xE2, 0x80, 0xA2, 0xE2, 0x80, 0xA2, 39] @
    str '' autocomplete='current-password' required>'' @
    str ''<button type='submit'>'' @
    [0xE2, 0x96, 0xB8] @
    str '' Authenticate</button>'' @
    str ''</form></div></div></body></html>''"

section \<open>The dashboard\<close>

definition PAGE_HEAD :: bytes where
  "PAGE_HEAD =
    str ''<!DOCTYPE html><html lang='en'><head><meta charset='utf-8'>'' @
    str ''<meta name='viewport' content='width=device-width,initial-scale=1'><title>JZF407 // '' @
    str ''SIGNAL.EDGE</title>'' @
    str ''<link rel='preconnect' href='https://fonts.gstatic.com' crossorigin>'' @
    str ''<link href='https://fonts.googleapis.com/css2?family=JetBrains+Mono:wght@400;500;700'' @
    str '';800&display=swap' rel='stylesheet'>'' @
    str ''<style>'' @
    str '':root{--bg:#05060a;--bg2:#090b14;--ink:#e8f6ff;--dim:#6a7891;--dimmer:#3a445a;--line'' @
    str '':#18253b;--line-hot:#1f3a6b;--cy:#00e7ff;--cys:#6df1ff;--mg:#ff2bd6;--mg2:#ff6ae3;--'' @
    str ''vi:#7a4cff;--am:#ffb648;--gr:#36ffb2;--grid:72px}'' @
    str ''*{box-sizing:border-box;margin:0;padding:0}'' @
    str ''html,body{background:var(--bg);color:var(--ink);font-family:'JetBrains Mono',ui-mono'' @
    str ''space,Menlo,Consolas,monospace;font-weight:400;-webkit-font-smoothing:antialiased}'' @
    str ''body{min-height:100vh;overflow-x:hidden;background:radial-gradient(1200px 700px at 7'' @
    str ''8% 18%,rgba(255,43,214,.10),transparent 65%),radial-gradient(900px 700px at 8% 80%,r'' @
    str ''gba(0,231,255,.10),transparent 60%),radial-gradient(1400px 900px at 50% 110%,rgba(12'' @
    str ''2,76,255,.07),transparent 60%),var(--bg)}'' @
    str ''.scanlines,.grain,.vignette,.gridlines{position:fixed;inset:0;pointer-events:none;z-'' @
    str ''index:50}'' @
    str ''.scanlines{background:repeating-linear-gradient(to bottom,rgba(255,255,255,.025) 0 1'' @
    str ''px,transparent 1px 3px);mix-blend-mode:overlay;opacity:.6}'' @
    str ''.grain{background-image:url('' @
    [34] @
    str ''data:image/svg+xml;utf8,<svg xmlns='http://www.w3.org/2000/svg' width='160' height='' @
    [39] @
    str ''160'><filter id='n'><feTurbulence type='fractalNoise' baseFrequency='0.9' numOctaves'' @
    str ''='2' stitchTiles='stitch'/><feColorMatrix values='0 0 0 0 1 0 0 0 0 1 0 0 0 0 1 0 0 '' @
    str ''0 0.35 0'/></filter><rect width='100%25' height='100%25' filter='url(%23n)' opacity='' @
    [39] @
    str ''0.5'/></svg>'' @
    [34] @
    str '');opacity:.08;mix-blend-mode:overlay}'' @
    str ''.vignette{background:radial-gradient(120% 80% at 50% 50%,transparent 55%,rgba(0,0,0,'' @
    str ''.65) 100%)}'' @
    str ''.gridlines{background-image:linear-gradient(to right,rgba(24,37,59,.55) 1px,transpar'' @
    str ''ent 1px),linear-gradient(to bottom,rgba(24,37,59,.55) 1px,transparent 1px);backgroun'' @
    str ''d-size:var(--grid) var(--grid);-webkit-mask-image:radial-gradient(120% 80% at 50% 40'' @
    str ''%,#000 30%,transparent 75%);mask-image:radial-gradient(120% 80% at 50% 40%,#000 30%,'' @
    str ''transparent 75%);opacity:.5;z-index:1}'' @
    str ''.topbar{position:relative;z-index:10;display:grid;grid-template-columns:1fr auto 1fr'' @
    str '';align-items:center;gap:24px;padding:14px 28px;border-bottom:1px solid var(--line);f'' @
    str ''ont-size:11px;letter-spacing:.18em;text-transform:uppercase;color:var(--dim);backgro'' @
    str ''und:linear-gradient(to bottom,rgba(0,0,0,.6),transparent);backdrop-filter:blur(2px)}'' @
    str ''.topbar .left,.topbar .right{display:flex;gap:22px;align-items:center}'' @
    str ''.topbar .right{justify-content:flex-end}'' @
    str ''.topbar .brand{color:var(--ink);font-weight:700;letter-spacing:.3em;display:flex;ali'' @
    str ''gn-items:center;gap:10px}'' @
    str ''.topbar .brand::before{content:'' @
    [39, 39] @
    str '';width:8px;height:8px;background:var(--cy);box-shadow:0 0 12px var(--cy),0 0 24px v'' @
    str ''ar(--cy);border-radius:50%;animation:pulse 1.6s ease-in-out infinite}'' @
    str ''@keyframes pulse{0%,100%{opacity:1;transform:scale(1)}50%{opacity:.45;transform:scal'' @
    str ''e(.8)}}'' @
    str ''.topbar .ok{color:var(--gr)}.topbar .hot{color:var(--mg)}'' @
    str ''.tdot{width:5px;height:5px;background:var(--dimmer);border-radius:50%;display:inline'' @
    str ''-block;margin:0 2px 1px}'' @
    str ''main{position:relative;z-index:5;max-width:1180px;margin:0 auto;padding:44px 28px 60'' @
    str ''px}'' @
    str ''.eyebrow{display:inline-flex;align-items:center;gap:10px;font-size:11px;letter-spaci'' @
    str ''ng:.32em;text-transform:uppercase;color:var(--mg);padding:6px 10px;border:1px solid '' @
    str ''rgba(255,43,214,.45);background:linear-gradient(180deg,rgba(255,43,214,.08),rgba(255'' @
    str '',43,214,0));margin-bottom:24px}'' @
    str ''.eyebrow::before{content:'' @
    [39, 39] @
    str '';width:6px;height:6px;background:var(--mg);box-shadow:0 0 10px var(--mg)}'' @
    str ''h1.title{font-weight:800;font-size:clamp(48px,8vw,108px);line-height:.86;letter-spac'' @
    str ''ing:-.04em;margin:0 0 16px;color:var(--ink);text-shadow:0 0 24px rgba(0,231,255,.18)'' @
    str '',0 0 80px rgba(0,231,255,.08)}'' @
    str ''h1.title .accent{color:transparent;-webkit-text-stroke:1.5px var(--cy);text-shadow:0'' @
    str '' 0 24px rgba(0,231,255,.45)}'' @
    str ''h1.title .slash{color:var(--mg);text-shadow:0 0 22px rgba(255,43,214,.6)}'' @
    str ''h1.title::after{content:'_';color:var(--cy);margin-left:-.05em;animation:blink 1.05s'' @
    str '' steps(2,end) infinite;text-shadow:0 0 22px rgba(0,231,255,.7)}'' @
    str ''@keyframes blink{0%,55%{opacity:1}55.01%,100%{opacity:0}}'' @
    str ''.lede{max-width:620px;font-size:13px;line-height:1.7;color:var(--dim);letter-spacing'' @
    str '':.02em;margin:0 0 30px}'' @
    str ''.lede b{color:var(--ink);font-weight:500}.lede .pink{color:var(--mg2);font-weight:50'' @
    str ''0}'' @
    str ''.specs{display:grid;grid-template-columns:repeat(4,1fr);border-top:1px solid var(--l'' @
    str ''ine);border-bottom:1px solid var(--line);margin-bottom:34px}'' @
    str ''.spec{padding:18px 18px 16px 0;border-right:1px solid var(--line);position:relative}'' @
    str ''.spec:last-child{border-right:none}'' @
    str ''.spec .k{font-size:10px;letter-spacing:.24em;color:var(--dim);text-transform:upperca'' @
    str ''se;margin-bottom:10px;display:flex;align-items:center;gap:6px}'' @
    str ''.spec .k::before{content:'//';color:var(--dimmer)}'' @
    str ''.spec .v{font-size:26px;font-weight:700;letter-spacing:-.02em;color:var(--ink);line-'' @
    str ''height:1;font-variant-numeric:tabular-nums}'' @
    str ''.spec .u{font-size:13px;color:var(--cy);margin-left:4px;font-weight:400}'' @
    str ''.spec .sub{font-size:10px;color:var(--dimmer);letter-spacing:.2em;text-transform:upp'' @
    str ''ercase;margin-top:8px}'' @
    str ''.grid{display:grid;grid-template-columns:1fr 1fr;gap:48px;align-items:start}'' @
    str ''@media(max-width:980px){.grid{grid-template-columns:1fr;gap:36px}.topbar{grid-templa'' @
    str ''te-columns:1fr auto}.topbar .right{display:none}}'' @
    str ''.bracketed{position:relative}'' @
    str ''.bracketed::before,.bracketed::after,.bracketed>.bk1,.bracketed>.bk2{content:'' @
    [39, 39] @
    str '';position:absolute;width:14px;height:14px;border:1px solid var(--cy);opacity:.7}'' @
    str ''.bracketed::before{top:-1px;left:-1px;border-right:none;border-bottom:none}'' @
    str ''.bracketed::after{top:-1px;right:-1px;border-left:none;border-bottom:none}'' @
    str ''.bracketed>.bk1{bottom:-1px;left:-1px;border-right:none;border-top:none}'' @
    str ''.bracketed>.bk2{bottom:-1px;right:-1px;border-left:none;border-top:none}'' @
    str ''.section-num{font-size:11px;letter-spacing:.34em;color:var(--dim);text-transform:upp'' @
    str ''ercase;margin-bottom:18px;display:flex;align-items:center;gap:12px}'' @
    str ''.section-num .bar{flex:1;height:1px;background:linear-gradient(to right,var(--line-h'' @
    str ''ot),transparent)}'' @
    str ''.section-num .mg{color:var(--mg)}'' @
    str ''.win{position:relative;border:1px solid var(--line-hot);background:linear-gradient(1'' @
    str ''80deg,rgba(0,231,255,.04),rgba(0,0,0,0) 40%),var(--bg2);box-shadow:0 0 0 1px rgba(0,'' @
    str ''231,255,.06),0 30px 80px rgba(0,0,0,.55),inset 0 0 60px rgba(0,231,255,.03);margin-b'' @
    str ''ottom:34px}'' @
    str ''.win::before,.win::after,.win>.bk1,.win>.bk2{content:'' @
    [39, 39] @
    str '';position:absolute;width:10px;height:10px;border:1px solid var(--cy)}'' @
    str ''.win::before{top:-1px;left:-1px;border-right:none;border-bottom:none}'' @
    str ''.win::after{top:-1px;right:-1px;border-left:none;border-bottom:none}'' @
    str ''.win>.bk1{bottom:-1px;left:-1px;border-right:none;border-top:none}'' @
    str ''.win>.bk2{bottom:-1px;right:-1px;border-left:none;border-top:none}'' @
    str ''.chrome{display:flex;align-items:center;justify-content:space-between;padding:12px 1'' @
    str ''8px;border-bottom:1px solid var(--line);font-size:11px;letter-spacing:.24em;text-tra'' @
    str ''nsform:uppercase;color:var(--dim);background:rgba(0,0,0,.35)}'' @
    str ''.chrome .path{color:var(--ink)}.chrome .path .slash{color:var(--mg)}'' @
    str ''.lights{display:inline-flex;gap:6px;margin-right:14px}'' @
    str ''.lights i{display:inline-block;width:9px;height:9px;border:1px solid var(--line-hot)'' @
    str ''}'' @
    str ''.lights i:nth-child(1){background:rgba(255,43,214,.55);border-color:rgba(255,43,214,'' @
    str ''.7);box-shadow:0 0 8px rgba(255,43,214,.6)}'' @
    str ''.lights i:nth-child(2){background:rgba(255,182,72,.55);border-color:rgba(255,182,72,'' @
    str ''.7)}'' @
    str ''.lights i:nth-child(3){background:rgba(54,255,178,.55);border-color:rgba(54,255,178,'' @
    str ''.7);box-shadow:0 0 8px rgba(54,255,178,.4)}'' @
    str ''.wbody{padding:20px 22px}'' @
    str ''.io{display:flex;align-items:center;justify-content:space-between;gap:14px;padding:1'' @
    str ''4px 0;border-bottom:1px solid var(--line)}'' @
    str ''.io:last-child{border-bottom:none}'' @
    str ''.io .lbl{font-size:13px;letter-spacing:.04em}.io .lbl small{display:block;font-size:'' @
    str ''10px;letter-spacing:.2em;text-transform:uppercase;color:var(--dimmer);margin-top:3px'' @
    str ''}'' @
    str ''.pill{display:inline-flex;align-items:center;gap:8px;font-size:11px;font-weight:700;'' @
    str ''letter-spacing:.18em;text-transform:uppercase;padding:6px 12px;border:1px solid var('' @
    str ''--line-hot);background:rgba(0,231,255,.05)}'' @
    str ''.pill.on{color:var(--gr);border-color:rgba(54,255,178,.5);background:rgba(54,255,178'' @
    str '',.07);box-shadow:0 0 14px rgba(54,255,178,.18),inset 0 0 12px rgba(54,255,178,.08)}'' @
    str ''.pill.off{color:var(--dim);border-color:var(--line-hot);background:rgba(0,0,0,.25)}'' @
    str ''.dot{width:7px;height:7px;border-radius:50%;background:currentColor;box-shadow:0 0 8'' @
    str ''px currentColor}'' @
    str ''.kv{display:flex;justify-content:space-between;align-items:center;padding:11px 0;bor'' @
    str ''der-bottom:1px solid var(--line);font-size:12px}'' @
    str ''.kv:last-child{border-bottom:none}'' @
    str ''.kv .k{color:var(--dim);letter-spacing:.14em;text-transform:uppercase;font-size:11px'' @
    str ''}'' @
    str ''.kv .v{font-weight:500;font-variant-numeric:tabular-nums;color:var(--ink)}'' @
    str ''.sec{font-size:10px;font-weight:700;color:var(--cy);text-transform:uppercase;letter-'' @
    str ''spacing:.24em;margin:22px 0 10px;display:flex;align-items:center;gap:10px}'' @
    str ''.sec::after{content:'' @
    [39, 39] @
    str '';flex:1;height:1px;background:linear-gradient(to right,var(--line-hot),transparent)'' @
    str ''}'' @
    str ''.sec.first{margin-top:0}'' @
    str ''label{display:block;font-size:10px;font-weight:600;color:var(--dim);letter-spacing:.'' @
    str ''18em;text-transform:uppercase;margin:12px 0 5px}'' @
    str ''input[type=text],input[type=number],input[type=password]{width:100%;font:inherit;fon'' @
    str ''t-size:14px;padding:10px 12px;border:1px solid var(--line-hot);background:rgba(0,0,0'' @
    str '',.35);color:var(--ink)}'' @
    str ''input:focus{outline:0;border-color:var(--cy);background:rgba(0,231,255,.04);box-shad'' @
    str ''ow:0 0 0 1px var(--cy),inset 0 0 18px rgba(0,231,255,.06)}'' @
    str ''.row{display:flex;gap:12px}.row>div{flex:1}'' @
    str ''.btn{appearance:none;cursor:pointer;font:inherit;font-size:12px;font-weight:600;lett'' @
    str ''er-spacing:.24em;text-transform:uppercase;padding:14px 22px;background:transparent;c'' @
    str ''olor:var(--cy);border:1px solid var(--cy);position:relative;transition:all .2s ease;'' @
    str ''display:inline-flex;align-items:center;justify-content:center;gap:10px;width:100%}'' @
    str ''.btn::before,.btn::after{content:'' @
    [39, 39] @
    str '';position:absolute;width:8px;height:8px;border:1px solid currentColor}'' @
    str ''.btn::before{top:-1px;left:-1px;border-right:none;border-bottom:none}'' @
    str ''.btn::after{bottom:-1px;right:-1px;border-left:none;border-top:none}'' @
    str ''.btn:hover{background:rgba(0,231,255,.12);box-shadow:0 0 20px rgba(0,231,255,.3),ins'' @
    str ''et 0 0 18px rgba(0,231,255,.1)}'' @
    str ''.btn.save{color:#fff;border-color:var(--mg);background:linear-gradient(180deg,rgba(2'' @
    str ''55,43,214,.16),rgba(255,43,214,.04));box-shadow:0 0 22px rgba(255,43,214,.25),inset '' @
    str ''0 0 30px rgba(255,43,214,.12);margin-top:24px}'' @
    str ''.btn.save:hover{background:rgba(255,43,214,.22);box-shadow:0 0 26px rgba(255,43,214,'' @
    str ''.4)}'' @
    str ''.btn.reboot{color:var(--mg);border-color:rgba(255,43,214,.5)}'' @
    str ''.btn.reboot:hover{background:rgba(255,43,214,.1);box-shadow:0 0 20px rgba(255,43,214'' @
    str '',.3)}'' @
    str ''.foot{padding:16px 18px;border-top:1px solid var(--line);display:flex;gap:12px;backg'' @
    str ''round:rgba(0,0,0,.35)}'' @
    str ''@media(max-width:520px){.foot{flex-direction:column}.specs{grid-template-columns:rep'' @
    str ''eat(2,1fr)}.spec:nth-child(2){border-right:none}}'' @
    str ''.toast{position:fixed;bottom:24px;left:50%;transform:translateX(-50%);background:var'' @
    str ''(--bg2);border:1px solid var(--mg);color:var(--ink);padding:12px 24px;font-size:11px'' @
    str '';font-weight:600;letter-spacing:.16em;text-transform:uppercase;z-index:999;opacity:0'' @
    str '';transition:opacity .3s;box-shadow:0 0 24px rgba(255,43,214,.3)}'' @
    str ''.toast.show{opacity:1}'' @
    str ''</style></head><body>'' @
    str ''<div class='gridlines'></div><div class='scanlines'></div><div class='grain'></div><'' @
    str ''div class='vignette'></div>''"

definition PAGE_FOOT :: bytes where
  "PAGE_FOOT =
    str ''<script>'' @
    str ''function g(i){return document.getElementById(i)}'' @
    str ''function pl(i,o,t){var e=g(i);if(e){e.className='pill '+(o?'on':'off');e.innerHTML='' @
    [34] @
    str ''<span class='dot'></span>'' @
    [34] @
    str ''+t}}'' @
    str ''function tx(i,v){var e=g(i);if(e){e.textContent=v}}'' @
    str ''function z(n){return(n<10?'0':'' @
    [39, 39] @
    str '')+n}'' @
    str ''function fu(n){var d=n/86400|0,h=n%86400/3600|0,m=n%3600/60|0,s=n%60;return (d?d+'d '' @
    [39] @
    str '':'' @
    [39, 39] @
    str '')+z(h)+':'+z(m)+':'+z(s)}'' @
    str ''function clock(){var n=new Date();tx('clk',z(n.getHours())+':'+z(n.getMinutes())+':'' @
    [39] @
    str ''+z(n.getSeconds()))}'' @
    str ''var loggingOut=false;'' @
    str ''function toLogin(){if(loggingOut)return;loggingOut=true;location.href='/login'}'' @
    str ''var IDLE_TIMEOUT=900,lastActivity=Date.now();'' @
    str ''var upBase=0,upAt=0;'' @
    str ''function apply(s){pl('rp',s.relay,s.relay?'ON':'OFF');pl('l1',s.led1,'LED1');pl('l2'' @
    [39] @
    str '',s.led2,'LED2');pl('lk',s.link,s.link?'Up':'Down');pl('mq',s.mqtt,s.mqtt?'Online':'O'' @
    str ''ffline');if(s.ip!==undefined)tx('ip',s.ip);if(s.up!==undefined){upBase=s.up;upAt=Dat'' @
    str ''e.now()}}'' @
    str ''function resetIdle(){lastActivity=Date.now();if(g('toast'))g('toast').className='toa'' @
    str ''st'}'' @
    str ''['mousemove','keydown','touchstart','scroll','click'].forEach(function(e){document.a'' @
    str ''ddEventListener(e,resetIdle,{passive:true})});'' @
    str ''function doLogout(){if(loggingOut)return;loggingOut=true;var f=document.createElemen'' @
    str ''t('form');f.method='post';f.action='/logout';document.body.appendChild(f);f.submit()'' @
    str ''}'' @
    str ''var sseUp=false,es=null;'' @
    str ''function sse(){if(loggingOut||!window.EventSource)return;try{es=new EventSource('/ev'' @
    str ''ents')}catch(e){return}'' @
    str ''es.onopen=function(){sseUp=true};'' @
    str ''es.onmessage=function(m){try{apply(JSON.parse(m.data))}catch(e){}};'' @
    str ''es.onerror=function(){sseUp=false;try{es.close()}catch(e){}es=null;setTimeout(sse,30'' @
    str ''00)}}'' @
    str ''function poll(){if(loggingOut||sseUp)return;var a=(Date.now()-lastActivity)/1000<30?'' @
    [39] @
    str ''?active=1':'' @
    [39, 39] @
    str '';fetch('/state'+a,{credentials:'same-origin'}).then(function(r){if(r.status===401){'' @
    str ''toLogin();return null}return r.ok?r.json():null}).then(function(s){if(s)apply(s)}).c'' @
    str ''atch(function(){})}'' @
    str ''setInterval(function(){'' @
    str ''clock();'' @
    str ''if(upAt)tx('up',fu(upBase+Math.floor((Date.now()-upAt)/1000)));'' @
    str ''if(loggingOut)return;'' @
    str ''poll();'' @
    str ''var idle=(Date.now()-lastActivity)/1000;'' @
    str ''if(idle>=IDLE_TIMEOUT){doLogout()}'' @
    str ''else if(idle>=IDLE_TIMEOUT-60&&g('toast')){g('toast').className='toast show';g('toas'' @
    str ''t').textContent='Session expires in '+(IDLE_TIMEOUT-Math.floor(idle))+'s '' @
    [0xE2, 0x80, 0x94] @
    str '' move mouse to stay'}'' @
    str ''},1000);'' @
    str ''clock();sse();poll();'' @
    str ''</script><div id='toast' class='toast'></div></body></html>''"

definition PAGE_TOPBAR :: bytes where
  "PAGE_TOPBAR =
    str ''<div class='topbar'><div class='left'><span class='brand'>JZF407 // SIGNAL.EDGE</spa'' @
    str ''n><span>SEC '' @
    [0xE2, 0x96, 0xB8] @
    str '' STM32F407VET6</span></div>'' @
    str ''<div class='brand' style='font-size:10px;letter-spacing:.4em'>'' @
    [0xE2, 0x80, 0x94] @
    str '' REV 2.2 '' @
    [0xE2, 0x80, 0x94] @
    str ''</div>'' @
    str ''<div class='right'><span>UPLINK ''"

definition UPLINK_NOMINAL :: bytes where
  "UPLINK_NOMINAL =
    str ''<span class='ok'>'' @
    [0xE2, 0x97, 0x8F] @
    str ''</span> NOMINAL''"

definition UPLINK_DOWN :: bytes where
  "UPLINK_DOWN =
    str ''<span class='hot'>'' @
    [0xE2, 0x97, 0x8F] @
    str ''</span> DOWN''"

definition PAGE_CLOCK :: bytes where
  "PAGE_CLOCK =
    str ''</span><span>BUS <span class='hot'>'' @
    [0xE2, 0x97, 0x8F] @
    str ''</span> 168MHZ</span><span id='clk'>--:--:--</span></div></div>''"

definition PAGE_MAIN :: bytes where
  "PAGE_MAIN =
    str ''<main><span class='eyebrow'>Arm'' @
    [0xC2, 0xAE] @
    str '' Cortex'' @
    [0xC2, 0xAE] @
    str ''-M4F // Embassy async firmware</span>'' @
    str ''<h1 class='title'>JZF<span class='slash'>/</span><span class='accent'>407</span></h1'' @
    str ''>'' @
    str ''<p class='lede'>STM32F407VET6 on the Embassy async executor '' @
    [0xE2, 0x80, 0x94] @
    str '' <b>real-time GPIO, Ethernet, and MQTT</b> over a smoltcp stack. Relay drives a <spa'' @
    str ''n class='pink'>2 s monostable pulse</span>, LEDs persist to EEPROM, and this page st'' @
    str ''reams live state over <b>Server-Sent Events</b> '' @
    [0xE2, 0x80, 0x94] @
    str '' no polling, instant updates.</p>''"

definition PAGE_SPECS :: bytes where
  "PAGE_SPECS =
    str ''<div class='specs bracketed'><span class='bk1'></span><span class='bk2'></span>'' @
    str ''<div class='spec'><div class='k'>core</div><div class='v'>M4F<span class='u'>@168</s'' @
    str ''pan></div><div class='sub'>Cortex-M4 + FPU</div></div>'' @
    str ''<div class='spec'><div class='k'>flash</div><div class='v'>512<span class='u'>KB</sp'' @
    str ''an></div><div class='sub'>~28% used</div></div>'' @
    str ''<div class='spec'><div class='k'>sram</div><div class='v'>128<span class='u'>KB</spa'' @
    str ''n></div><div class='sub'>+64K CCM</div></div>'' @
    str ''<div class='spec'><div class='k'>uptime</div><div class='v' id='up' style='font-size'' @
    str '':20px'>'' @
    [0xE2, 0x80, 0x94] @
    str ''</div><div class='sub' id='rst'>''"

definition PAGE_IO :: bytes where
  "PAGE_IO =
    str ''<div class='section-num'><span>0X01</span><span class='bar'></span><span class='mg'>'' @
    str ''// I/O STATE</span></div>'' @
    str ''<div class='win'><span class='bk1'></span><span class='bk2'></span>'' @
    str ''<div class='chrome'><span class='path'>gpio<span class='slash'>/</span>outputs</span'' @
    str ''><span class='lights'><i></i><i></i><i></i></span></div>'' @
    str ''<div class='wbody'>'' @
    str ''<div class='io'><div class='lbl'>RELAY<small>MQTT stm32/relay '' @
    [0xE2, 0x86, 0x92] @
    str '' 2s pulse</small></div>''"

definition PAGE_LED1 :: bytes where
  "PAGE_LED1 =
    str ''</div><div class='io'><div class='lbl'>LED 1<small>stm32/led/1 '' @
    [0xC2, 0xB7] @
    str '' persisted</small></div>''"

definition PAGE_LED2 :: bytes where
  "PAGE_LED2 =
    str ''</div><div class='io'><div class='lbl'>LED 2<small>stm32/led/2 '' @
    [0xC2, 0xB7] @
    str '' persisted</small></div>''"

definition PAGE_LINK :: bytes where
  "PAGE_LINK =
    str ''<div class='section-num'><span>0X02</span><span class='bar'></span><span class='mg'>'' @
    str ''// LINK</span></div>'' @
    str ''<div class='win'><span class='bk1'></span><span class='bk2'></span>'' @
    str ''<div class='chrome'><span class='path'>net<span class='slash'>/</span>status</span><'' @
    str ''span class='lights'><i></i><i></i><i></i></span></div>'' @
    str ''<div class='wbody'>'' @
    str ''<div class='kv'><span class='k'>Ethernet</span>''"

definition PAGE_BROKER :: bytes where
  "PAGE_BROKER =
    str ''</div><div class='kv'><span class='k'>MQTT Broker</span>''"

definition PAGE_IP :: bytes where
  "PAGE_IP =
    str ''</div><div class='kv'><span class='k'>IP Address</span><span class='v' id='ip'>''"

definition PAGE_CONFIG :: bytes where
  "PAGE_CONFIG =
    str ''<div><div class='section-num'><span>0X03</span><span class='bar'></span><span class='' @
    [39] @
    str ''mg'>// CONFIG</span></div>'' @
    str ''<div class='win'><span class='bk1'></span><span class='bk2'></span>'' @
    str ''<div class='chrome'><span class='path'>etc<span class='slash'>/</span>config.toml</s'' @
    str ''pan><span>EEPROM</span></div>'' @
    str ''<div class='wbody'><form method='post' action='/save'>'' @
    str ''<div class='sec first'>Network</div><label>IP address</label><input type='text' name'' @
    str ''='ip' value='' @
    [39]"

definition PAGE_PREFIX :: bytes where
  "PAGE_PREFIX =
    [39] @
    str ''><div class='row'><div><label>Prefix</label><input type='number' name='prefix' valu'' @
    str ''e='' @
    [39]"

definition PAGE_GATEWAY :: bytes where
  "PAGE_GATEWAY =
    [39] @
    str ''></div><div><label>Gateway</label><input type='text' name='gw' value='' @
    [39]"

definition PAGE_MQTT :: bytes where
  "PAGE_MQTT =
    [39] @
    str ''></div></div><div class='sec'>MQTT Broker</div><div class='row'><div><label>Broker '' @
    str ''IP</label><input type='text' name='broker' value='' @
    [39]"

definition PAGE_PORT :: bytes where
  "PAGE_PORT =
    [39] @
    str ''></div><div><label>Port</label><input type='number' name='port' value='' @
    [39]"

definition PAGE_CLIENT :: bytes where
  "PAGE_CLIENT =
    [39] @
    str ''></div></div><label>Client ID</label><input type='text' name='id' value='' @
    [39]"

definition PAGE_MUSER :: bytes where
  "PAGE_MUSER =
    [39] @
    str ''><div class='sec'>MQTT Auth</div><div class='row'><div><label>Username</label><inpu'' @
    str ''t type='text' name='muser' value='' @
    [39]"

definition PAGE_MPASS :: bytes where
  "PAGE_MPASS =
    [39] @
    str ''></div><div><label>Password</label><input type='password' name='mpass' value='' @
    [39, 39] @
    str '' placeholder='' @
    [39]"

definition PAGE_WUSER :: bytes where
  "PAGE_WUSER =
    [39] @
    str ''></div></div><div class='sec'>Web Login</div><div class='row'><div><label>Username<'' @
    str ''/label><input type='text' name='wuser' value='' @
    [39]"

definition PAGE_WPASS :: bytes where
  "PAGE_WPASS =
    [39] @
    str ''></div><div><label>Password</label><input type='password' name='wpass' value='' @
    [39, 39] @
    str '' placeholder='' @
    [39]"

definition PAGE_BUTTONS :: bytes where
  "PAGE_BUTTONS =
    [39] @
    str ''></div></div><button class='btn save'>'' @
    [0xE2, 0x96, 0xB8] @
    str '' Save &amp; Reboot</button></form></div>'' @
    str ''<div class='foot'><form method='post' action='/reboot' style='flex:1'><button class='' @
    [39] @
    str ''btn reboot'>Reboot</button></form>'' @
    str ''<button class='btn' style='flex:1' onclick='doLogout()'>Log Out</button></div>'' @
    str ''</div></div></div></main>''"

section \<open>Answers before a reboot\<close>

definition REBOOT_BODY :: bytes where
  "REBOOT_BODY =
    str ''<html><head><meta http-equiv=refresh content='4;url=/'></head><body><p>Rebooting... '' @
    str ''<a href=/>back in 4s</a></p></body></html>''"

definition SAVED_BODY :: bytes where
  "SAVED_BODY =
    str ''<html><head><meta http-equiv=refresh content='4;url=/'></head><body><p>Saved. Reboot'' @
    str ''ing... <a href=/>back in 4s</a></p></body></html>''"

end
