(* ===== verification/Web_Socket.thy ===== *)
theory Web_Socket
  imports Web_Text
begin

text \<open>
  What a request handler of \<open>src/web.rs\<close> does to its socket, in order. The handlers drop the
  result of every write, so their course does not depend on the peer. \<open>Stream\<close> hands the socket to
  \<open>sse.rs\<close>; \<open>Reset\<close> is \<open>fault_marker::safe_reboot\<close>, after which nothing follows.
\<close>

datatype action = Write bytes | Flush | Close | Sleep nat | Stream | Reset

definition w :: "bytes \<Rightarrow> action list" where
  "w s = [Write s]"

definition finish_response :: "action list" where
  "finish_response = [Flush, Close]"

definition send_and_close :: "bytes \<Rightarrow> action list" where
  "send_and_close response = w response @ finish_response"

definition send_login_form :: "bytes \<Rightarrow> bytes option \<Rightarrow> action list" where
  "send_login_form status message =
    w status @ w LOGIN_HEAD @ (case message of None \<Rightarrow> [] | Some m \<Rightarrow> w m) @ w LOGIN_TAIL @ finish_response"

definition send_not_found :: "action list" where
  "send_not_found = [Write HTTP_404, Close]"

definition sent :: "action list \<Rightarrow> bytes" where
  "sent as = concat (map (\<lambda>a. case a of Write b \<Rightarrow> b | _ \<Rightarrow> []) as)"

lemmas socket_defs [step_defs] = w_def finish_response_def send_and_close_def send_login_form_def
  send_not_found_def

lemma sent_append [simp]: "sent (as @ bs) = sent as @ sent bs"
  by (simp add: sent_def)

lemma sent_Cons [simp]:
  "sent (a # as) = (case a of Write b \<Rightarrow> b | _ \<Rightarrow> []) @ sent as" "sent [] = []"
  by (simp_all add: sent_def)

text \<open>Handlers that only answer: they neither stream nor reset the device.\<close>

definition only_answers :: "action list \<Rightarrow> bool" where
  "only_answers as \<longleftrightarrow> Stream \<notin> set as \<and> Reset \<notin> set as"

lemma only_answers_simps [simp]:
  "only_answers []" "only_answers (as @ bs) \<longleftrightarrow> only_answers as \<and> only_answers bs"
  "only_answers (a # as) \<longleftrightarrow> a \<noteq> Stream \<and> a \<noteq> Reset \<and> only_answers as"
  by (auto simp: only_answers_def)

lemma only_answers_forms [simp]:
  "only_answers (send_and_close r)" "only_answers (send_login_form s m)" "only_answers send_not_found"
  by (auto simp: socket_defs split: option.splits)

end
