(* ===== verification/Web_Request.thy ===== *)
theory Web_Request
  imports Rust_Str
begin

text \<open>
  The request side of \<open>src/web.rs\<close>: the parsed request line, the body, and the session cookie of
  the raw request. A request is the bytes of one \<open>read\<close> that passed \<open>from_utf8\<close>.
\<close>

section \<open>The parsed request\<close>

record parsed_request =
  raw :: bytes
  http_method :: bytes
  path :: bytes
  query :: bytes

text \<open>\<open>iter.next().unwrap_or(d)\<close>.\<close>

fun next_or :: "'a \<Rightarrow> 'a list \<Rightarrow> 'a" where
  "next_or d [] = d"
| "next_or d (x # xs) = x"

definition parse_request :: "bytes \<Rightarrow> parsed_request" where
  "parse_request r =
    (let first_line = next_or [] (lines r);
         parts = split_whitespace first_line;
         meth = next_or [] parts;
         target = next_or (str ''/'') (tl parts);
         (p, q) = (case split_once 63 target of Some pq \<Rightarrow> pq | None \<Rightarrow> (target, []))
     in \<lparr>raw = r, http_method = meth, path = p, query = q\<rparr>)"

text \<open>The end of a request's head. It is ASCII, so the slice after it starts at a boundary.\<close>

definition head_end :: bytes where "head_end = [13, 10, 13, 10]"

definition body :: "parsed_request \<Rightarrow> bytes option" where
  "body r = map_option (\<lambda>start. drop (start + 4) (raw r)) (find_sub head_end (raw r))"

definition refreshes_session :: "parsed_request \<Rightarrow> bool" where
  "refreshes_session r \<longleftrightarrow>
    \<not> (path r = str ''/state'' \<or> path r = str ''/events'') \<or> contains_sub (str ''active=1'') (query r)"

section \<open>The cookie\<close>

definition COOKIE_PREFIX :: bytes where "COOKIE_PREFIX = str ''cookie:''"
definition session_cookie :: bytes where "session_cookie = str ''jzf_session''"

text \<open>The inner loop over the cookies of one header.\<close>

fun find_cookie :: "bytes \<Rightarrow> bytes list \<Rightarrow> bytes option" where
  "find_cookie name [] = None"
| "find_cookie name (c # cs) =
    (let cookie = trim c in
     case strip_prefix name cookie of
       None \<Rightarrow> find_cookie name cs
     | Some rest \<Rightarrow>
       (case strip_prefix (str ''='') (trim_start rest) of
          None \<Rightarrow> find_cookie name cs
        | Some val \<Rightarrow> Some (trim val)))"

text \<open>The outer loop over the lines; \<open>line[..PREFIX.len()]\<close> may panic.\<close>

fun cookie_loop :: "bytes \<Rightarrow> bytes list \<Rightarrow> panic + bytes option" where
  "cookie_loop name [] = Inr None"
| "cookie_loop name (line # ls) =
    (if length line < length COOKIE_PREFIX then cookie_loop name ls
     else (case str_slice_to line (length COOKIE_PREFIX) of
         Inl p \<Rightarrow> Inl p
       | Inr start \<Rightarrow>
         if \<not> eq_ignore_ascii_case start COOKIE_PREFIX then cookie_loop name ls
         else (let val = trim (drop (length COOKIE_PREFIX) line) in
           case find_cookie name (split_on 59 val) of
             Some v \<Rightarrow> Inr (Some v)
           | None \<Rightarrow> cookie_loop name ls)))"

definition extract_cookie :: "bytes \<Rightarrow> bytes \<Rightarrow> panic + bytes option" where
  "extract_cookie req name = cookie_loop name (lines req)"

section \<open>When the slice panics\<close>

lemma length_prefix [simp]: "length COOKIE_PREFIX = 7"
  by (simp add: COOKIE_PREFIX_def)

text \<open>A line whose eighth byte lies inside a character; a line the loop passes over.\<close>

definition splits_char :: "bytes \<Rightarrow> bool" where
  "splits_char line \<longleftrightarrow> 7 < length line \<and> is_cont (line ! 7)"

definition no_cookie :: "bytes \<Rightarrow> bytes \<Rightarrow> bool" where
  "no_cookie name line \<longleftrightarrow> cookie_loop name [line] = Inr None"

lemma slice_prefix:
  "7 \<le> length line \<Longrightarrow> str_slice_to line 7 = (if splits_char line then Inl Char_Boundary else Inr (take 7 line))"
  by (auto simp: str_slice_to_def is_char_boundary_def splits_char_def)

lemma cookie_loop_Cons:
  "cookie_loop name (line # ls) =
    (case cookie_loop name [line] of
       Inl p \<Rightarrow> Inl p | Inr (Some v) \<Rightarrow> Inr (Some v) | Inr None \<Rightarrow> cookie_loop name ls)"
  by (simp add: Let_def split: sum.splits option.splits)

lemma cookie_line_panics: "cookie_loop name [line] = Inl p \<longleftrightarrow> splits_char line \<and> p = Char_Boundary"
  by (cases p) (auto simp: slice_prefix Let_def splits_char_def split: option.splits)

declare cookie_loop.simps(2) [simp del]

lemma cookie_loop_panics:
  "cookie_loop name ls = Inl p \<longleftrightarrow>
    (\<exists>pre line post. ls = pre @ line # post \<and> splits_char line \<and> (\<forall>l\<in>set pre. no_cookie name l)
      \<and> p = Char_Boundary)" (is "_ \<longleftrightarrow> ?R ls")
proof (induction ls)
  case (Cons l ls)
  consider (panic) "splits_char l" | (found) v where "cookie_loop name [l] = Inr (Some v)"
    | (pass) "cookie_loop name [l] = Inr None"
    using cookie_line_panics [of name l] by (cases "cookie_loop name [l]"; cases "projr (cookie_loop name [l])") auto
  then show ?case
  proof cases
    case panic
    then have "cookie_loop name [l] = Inl Char_Boundary" by (simp add: cookie_line_panics)
    then have "cookie_loop name (l # ls) = Inl Char_Boundary" by (subst cookie_loop_Cons) simp
    moreover have "\<exists>pre line post. l # ls = pre @ line # post \<and> splits_char line \<and> (\<forall>l\<in>set pre. no_cookie name l)"
      using panic by (intro exI [of _ "[]"] exI [of _ l] exI [of _ ls]) auto
    ultimately show ?thesis by auto
  next
    case found
    then have "\<not> splits_char l" "\<not> no_cookie name l"
      using cookie_line_panics [of name l] by (auto simp: no_cookie_def)
    with found show ?thesis by (subst cookie_loop_Cons) (auto simp: Cons_eq_append_conv)
  next
    case pass
    then have l: "\<not> splits_char l" "no_cookie name l"
      using cookie_line_panics [of name l] by (auto simp: no_cookie_def)
    have "?R (l # ls) \<longleftrightarrow> ?R ls"
    proof
      assume "?R ls"
      then obtain pre line post where "ls = pre @ line # post" "splits_char line"
        "\<forall>l\<in>set pre. no_cookie name l" "p = Char_Boundary" by blast
      with l show "?R (l # ls)" by (intro exI [of _ "l # pre"] exI [of _ line] exI [of _ post]) auto
    qed (use l in \<open>auto simp: Cons_eq_append_conv; blast\<close>)
    with pass Cons.IH show ?thesis by (subst cookie_loop_Cons) simp
  qed
qed simp

text \<open>
  Reading the cookie of a request panics exactly when some line of it has a character that
  straddles its seventh and eighth byte and no line before yields a cookie: the code slices
  the line's first seven bytes before it looks at what they are. Any client can send one.
\<close>

lemma extract_cookie_panics_iff:
  "extract_cookie req name = Inl Char_Boundary \<longleftrightarrow>
    (\<exists>pre line post. lines req = pre @ line # post \<and> splits_char line \<and> (\<forall>l\<in>set pre. no_cookie name l))"
  by (simp add: extract_cookie_def cookie_loop_panics)

section \<open>Requests as browsers write them\<close>

text \<open>Lines ended by CR LF, and an empty one.\<close>

definition request_head :: "bytes list \<Rightarrow> bytes" where
  "request_head ls = concat (map (\<lambda>l. l @ [13, 10]) ls) @ [13, 10]"

lemma split_inclusive_line: "c \<notin> set s \<Longrightarrow> split_inclusive c (s @ c # r) = (s @ [c]) # split_inclusive c r"
  by (induction s) auto

lemma lines_crlf: "10 \<notin> set l \<Longrightarrow> lines (l @ 13 # 10 # r) = l # lines r"
  using split_inclusive_line [of 10 "l @ [13]" r]
  by (simp add: lines_def strip_line_end_def strip_suffix1_def butlast_append)

lemma request_head_Cons: "request_head (l # ls) @ b = l @ 13 # 10 # request_head ls @ b"
  by (simp add: request_head_def)

lemma request_head_Nil: "request_head [] @ b = 13 # 10 # b"
  by (simp add: request_head_def)

lemma lines_request:
  "\<forall>l\<in>set ls. 10 \<notin> set l \<Longrightarrow> lines (request_head ls @ b) = ls @ [] # lines b"
proof (induction ls)
  case Nil
  then show ?case using lines_crlf [of "[]" b] by (simp add: request_head_Nil)
qed (simp add: request_head_Cons lines_crlf)

text \<open>The body starts after the head when no line of the head is empty or has a bare CR.\<close>

lemma find_head_skip:
  assumes "13 \<notin> set l"
  shows "find_sub head_end (l @ r) = map_option ((+) (length l)) (find_sub head_end r)"
  using assms by (cases "find_sub head_end r"; induction l; auto simp: head_end_def)

lemma find_head_crlf:
  assumes "x \<noteq> 13"
  shows "find_sub head_end (13 # 10 # x # r) = map_option ((+) 2) (find_sub head_end (x # r))"
  using assms by (simp add: head_end_def option.map_comp) (auto intro!: map_option_cong)

lemma find_head_end:
  assumes "ls \<noteq> []" and "\<forall>l\<in>set ls. l \<noteq> [] \<and> 13 \<notin> set l"
  shows "find_sub head_end (request_head ls @ b) = Some (length (request_head ls) - 4)"
  using assms
proof (induction ls)
  case (Cons l ls)
  show ?case
  proof (cases ls)
    case Nil
    have "find_sub head_end (13 # 10 # 13 # 10 # b) = Some 0" by (simp add: head_end_def)
    with Cons.prems Nil show ?thesis
      by (simp add: request_head_Cons find_head_skip request_head_Nil del: find_sub.simps)
        (simp add: request_head_def)
  next
    case (Cons l' ls')
    then obtain x xs where l': "l' = x # xs" "x \<noteq> 13"
      using Cons.prems(2) by (cases l') auto
    then have "find_sub head_end (13 # 10 # request_head ls @ b)
        = map_option ((+) 2) (find_sub head_end (request_head ls @ b))"
      using find_head_crlf Cons by (simp add: request_head_Cons)
    moreover have "find_sub head_end (request_head ls @ b) = Some (length (request_head ls) - 4)"
      using Cons.IH Cons.prems Cons by simp
    moreover have "4 \<le> length (request_head ls)"
      using Cons by (simp add: request_head_def)
    moreover have "length (request_head (l # ls)) = length l + 2 + length (request_head ls)"
      by (simp add: request_head_def)
    ultimately show ?thesis
      using Cons.prems by (simp add: request_head_Cons find_head_skip)
  qed
qed simp

lemma body_request:
  assumes "ls \<noteq> []" and "\<forall>l\<in>set ls. l \<noteq> [] \<and> 13 \<notin> set l" and "raw r = request_head ls @ b"
  shows "body r = Some b"
proof -
  have "4 \<le> length (request_head ls)" using assms(1) by (cases ls) (auto simp: request_head_def)
  then show ?thesis using find_head_end [OF assms(1,2), of b] by (simp add: body_def assms(3))
qed

text \<open>The request line.\<close>

definition request_line :: "bytes \<Rightarrow> bytes \<Rightarrow> bytes" where
  "request_line m t = m @ 32 # t @ 32 # str ''HTTP/1.1''"

lemma split_ws_word: "\<forall>c\<in>set cs. \<not> is_ws c \<Longrightarrow> split_ws_chars cs = [concat cs]"
  by (induction cs) auto

lemma split_ws_append:
  "\<forall>c\<in>set cs. \<not> is_ws c \<Longrightarrow> is_ws w \<Longrightarrow> split_ws_chars (cs @ w # r) = concat cs # split_ws_chars r"
  by (induction cs) auto

lemma split_whitespace_line:
  assumes "ascii m" "no_ws m" "m \<noteq> []" "ascii t" "no_ws t" "t \<noteq> []"
  shows "split_whitespace (request_line m t) = [m, t, str ''HTTP/1.1'']"
proof -
  let ?v = "str ''HTTP/1.1''"
  have v: "ascii ?v" "no_ws ?v" by code_simp+
  have ch: "chars (request_line m t) = chars m @ [32] # chars t @ [32] # chars ?v"
    using assms v(1) by (subst (1 2 3 4) chars_ascii) (simp_all add: request_line_def)
  have "split_ws_chars (chars (request_line m t)) = [m, t, ?v]"
    unfolding ch using assms(2,5) v(2)
    by (simp only: no_ws_def split_ws_append is_ws_single split_ws_word concat_chars insert_iff simp_thms)
  then show ?thesis using assms by (simp add: split_whitespace_def)
qed

definition plain_word :: "bytes \<Rightarrow> bool" where
  "plain_word w \<longleftrightarrow> ascii w \<and> no_ws w \<and> w \<noteq> []"

lemma plain_word_no_lf: "plain_word w \<Longrightarrow> 10 \<notin> set w \<and> 13 \<notin> set w"
  by (auto simp: plain_word_def no_ws_ascii)

lemma parse_request_line:
  assumes "plain_word m" and "plain_word t" and "63 \<notin> set t" and "\<forall>l\<in>set hs. 10 \<notin> set l"
  shows "parse_request (request_head (request_line m t # hs) @ b) =
    \<lparr>raw = request_head (request_line m t # hs) @ b, http_method = m, path = t, query = []\<rparr>"
proof -
  have "10 \<notin> set (request_line m t)"
    using assms(1,2) [THEN plain_word_no_lf] by (simp add: request_line_def)
  then have "lines (request_head (request_line m t # hs) @ b) = (request_line m t # hs) @ [] # lines b"
    using assms(4) by (intro lines_request) auto
  then show ?thesis
    using assms by (simp add: parse_request_def Let_def split_whitespace_line plain_word_def split_once_def)
qed

lemma trim_start_space: "ascii s \<Longrightarrow> no_ws s \<Longrightarrow> trim_start (32 # s) = s"
proof -
  assume s: "ascii s" "no_ws s"
  then have "chars (32 # s) = [32] # chars s" by (subst (1 2) chars_ascii) simp_all
  then show ?thesis using trim_start_no_ws [of s] s by (simp add: trim_start_def is_ws_single del: chars.simps)
qed

text \<open>The header that carries the session cookie back.\<close>

definition cookie_header :: "bytes \<Rightarrow> bytes" where
  "cookie_header v = str ''Cookie: jzf_session='' @ v"

lemma no_ws_append_ascii: "ascii s \<Longrightarrow> ascii t \<Longrightarrow> no_ws (s @ t) \<longleftrightarrow> no_ws s \<and> no_ws t"
  by (auto simp: no_ws_def chars_ascii)

lemma cookie_header_found:
  assumes "ascii v" and "no_ws v" and "59 \<notin> set v"
  shows "cookie_loop session_cookie [cookie_header v] = Inr (Some v)"
proof -
  let ?c = "str ''jzf_session='' @ v"
  have a: "ascii (str ''jzf_session='')" "no_ws (str ''jzf_session='')" "59 \<notin> set (str ''jzf_session='')"
    "str ''jzf_session='' = session_cookie @ str ''=''" by code_simp+
  then have c: "ascii ?c" "no_ws ?c" "59 \<notin> set ?c"
    using assms by (simp_all only: no_ws_append_ascii ascii_append set_append Un_iff) auto
  have "trim (32 # ?c) = ?c" using c by (simp only: trim_def trim_start_space trim_end_no_ws)
  moreover have "find_cookie session_cookie [?c] = Some v"
  proof -
    have "trim ?c = session_cookie @ str ''='' @ v"
      using c(2) a(4) by (simp only: trim_no_ws append_assoc)
    moreover have "trim_start (str ''='' @ v) = str ''='' @ v"
      using assms by (intro trim_start_no_ws) (simp add: no_ws_ascii)
    ultimately show ?thesis
      using assms(2) by (simp add: trim_no_ws Let_def del: str_Cons str_append append_assoc)
  qed
  moreover have "splits_char (cookie_header v) = False"
    by (simp add: splits_char_def cookie_header_def is_cont_def)
  moreover have "eq_ignore_ascii_case (take 7 (cookie_header v)) COOKIE_PREFIX"
    by (simp add: cookie_header_def COOKIE_PREFIX_def eq_ignore_ascii_case_def ascii_lower_def)
  moreover have "drop 7 (cookie_header v) = 32 # ?c" "7 \<le> length (cookie_header v)"
    by (simp_all add: cookie_header_def)
  ultimately show ?thesis
    using c(3) by (simp add: cookie_loop.simps slice_prefix split_on_single Let_def del: str_Cons)
qed

end
