(* ===== verification/Web_Form.thy ===== *)
theory Web_Form
  imports Heapless
begin

text \<open>
  \<open>logic/src/web_form.rs\<close>: decoding of form values, escaping of HTML attributes and the
  rule for password fields. The specification of decoding is the relation between a
  string and its \<open>application/x-www-form-urlencoded\<close> spellings; that of escaping is the
  HTML entity decoder.
\<close>

section \<open>The code\<close>

datatype form_error = Capacity | InvalidEncoding

definition hex_digit :: "u8 \<Rightarrow> u8 option" where
  "hex_digit b =
    (if 48 \<le> b \<and> b \<le> 57 then Some (b - 48)
     else if 97 \<le> b \<and> b \<le> 102 then Some (b - 97 + 10)
     else if 65 \<le> b \<and> b \<le> 70 then Some (b - 65 + 10)
     else None)"

text \<open>The \<open>while\<close> loop: the bytes from index \<open>i\<close> on, and the output so far.\<close>

fun decode_loop :: "heapless \<Rightarrow> nat \<Rightarrow> bytes \<Rightarrow> bytes \<Rightarrow> form_error + bytes" where
  "decode_loop ext N [] out = Inr out"
| "decode_loop ext N (b # bs) out =
    (if b = 43 then
       (case vec_push ext N out 32 of None \<Rightarrow> Inl Capacity | Some out' \<Rightarrow> decode_loop ext N bs out')
     else if b = 37 then
       (case bs of
          x # y # rest \<Rightarrow>
            (case hex_digit x of None \<Rightarrow> Inl InvalidEncoding
             | Some h \<Rightarrow>
               (case hex_digit y of None \<Rightarrow> Inl InvalidEncoding
                | Some l \<Rightarrow>
                  (case vec_push ext N out (push_bit 4 h OR l) of None \<Rightarrow> Inl Capacity
                   | Some out' \<Rightarrow> decode_loop ext N rest out')))
        | _ \<Rightarrow> Inl InvalidEncoding)
     else
       (case vec_push ext N out b of None \<Rightarrow> Inl Capacity | Some out' \<Rightarrow> decode_loop ext N bs out'))"

definition form_url_decode :: "heapless \<Rightarrow> nat \<Rightarrow> bytes \<Rightarrow> form_error + bytes" where
  "form_url_decode ext N s =
    (case decode_loop ext N s [] of
       Inl e \<Rightarrow> Inl e
     | Inr bytes_out \<Rightarrow>
         if 0 \<in> set bytes_out then Inl InvalidEncoding
         else (case from_utf8 bytes_out of
             None \<Rightarrow> Inl InvalidEncoding
           | Some decoded \<Rightarrow>
             (case string_try_from ext N decoded of None \<Rightarrow> Inl Capacity | Some v \<Rightarrow> Inr v)))"

definition escape_char :: "bytes \<Rightarrow> bytes" where
  "escape_char ch =
    (if ch = [38] then str ''&amp;''
     else if ch = [60] then str ''&lt;''
     else if ch = [62] then str ''&gt;''
     else if ch = [34] then str ''&quot;''
     else if ch = [39] then str ''&#39;''
     else ch)"

fun escape_loop :: "heapless \<Rightarrow> nat \<Rightarrow> bytes list \<Rightarrow> bytes \<Rightarrow> form_error + bytes" where
  "escape_loop ext N [] out = Inr out"
| "escape_loop ext N (ch # chs) out =
    (case ext N out (escape_char ch) of None \<Rightarrow> Inl Capacity | Some out' \<Rightarrow> escape_loop ext N chs out')"

definition html_escape_attr :: "heapless \<Rightarrow> nat \<Rightarrow> bytes \<Rightarrow> form_error + bytes" where
  "html_escape_attr ext N s = escape_loop ext N (chars s) []"

definition secret_from_form :: "heapless \<Rightarrow> nat \<Rightarrow> bytes \<Rightarrow> bytes \<Rightarrow> form_error + bytes" where
  "secret_from_form ext N current submitted =
    (if submitted = [] then Inr current
     else (case string_try_from ext N submitted of None \<Rightarrow> Inl Capacity | Some s \<Rightarrow> Inr s))"

section \<open>Form decoding against the encoding relation\<close>

text \<open>
  \<open>form_encodes v s\<close>: \<open>s\<close> is a spelling of the value \<open>v\<close>. A space may be a plus sign; any byte
  may be a percent sign and two hexadecimal digits of either case; every byte except plus
  and percent may stand for itself.
\<close>

inductive form_encodes :: "bytes \<Rightarrow> bytes \<Rightarrow> bool" where
  fe_nil: "form_encodes [] []"
| fe_plus: "form_encodes v s \<Longrightarrow> form_encodes (32 # v) (43 # s)"
| fe_hex: "form_encodes v s \<Longrightarrow> hex_digit x = Some h \<Longrightarrow> hex_digit y = Some l \<Longrightarrow>
    form_encodes ((h * 16 + l) # v) (37 # x # y # s)"
| fe_plain: "form_encodes v s \<Longrightarrow> b \<noteq> 43 \<Longrightarrow> b \<noteq> 37 \<Longrightarrow> form_encodes (b # v) (b # s)"

inductive_cases form_encodes_Nil: "form_encodes v []"
inductive_cases form_encodes_Cons: "form_encodes v (b # s)"

lemma hex_digit_range: "hex_digit b = Some h \<Longrightarrow> unat h < 16"
  by (auto simp: hex_digit_def word_le_nat_alt unat_sub_if' unat_word_ariths split: if_splits)

lemma hex_join:
  assumes "unat h < 16" and "unat l < 16"
  shows "push_bit 4 h OR l = h * 16 + (l :: u8)"
proof (rule word_unat_eq_iff [THEN iffD2])
  have "unat (push_bit 4 h OR l) = unat h * 16 + unat l"
    using unat_shift_or [of l 4 h] assms by simp
  then show "unat (push_bit 4 h OR l) = unat (h * 16 + l)"
    using assms by (simp only: unat_word_ariths) simp
qed

context fixed_capacity
begin

lemma decode_loop_sound:
  "decode_loop ext N s out = Inr w \<Longrightarrow> length out \<le> N \<Longrightarrow>
    \<exists>v. form_encodes v s \<and> w = out @ v \<and> length w \<le> N"
proof (induction "length s" arbitrary: s out rule: less_induct)
  case less
  show ?case
  proof (cases s)
    case Nil
    with less.prems show ?thesis by (auto intro: fe_nil)
  next
    case (Cons b bs)
    text \<open>Every branch that goes on pushes one byte and leaves a shorter rest.\<close>
    have step: "\<exists>v. form_encodes v rest \<and> w = out @ c # v \<and> length w \<le> N"
      if "decode_loop ext N rest (out @ [c]) = Inr w" "length rest < length s" "length out < N" for c rest
      using less.hyps [OF that(2,1)] that(3) by auto
    consider (plus) "b = 43" | (pct) "b = 37" | (plain) "b \<noteq> 43" "b \<noteq> 37" by blast
    then show ?thesis
    proof cases
      case plus
      with less.prems Cons have "decode_loop ext N bs (out @ [32]) = Inr w" "length out < N"
        by (auto simp: vec_push_eq split: if_splits)
      with step [of bs 32] Cons plus show ?thesis by (auto intro: fe_plus)
    next
      case pct
      with less.prems(1) Cons obtain x y rest h l where r: "bs = x # y # rest" "hex_digit x = Some h"
        "hex_digit y = Some l" "decode_loop ext N rest (out @ [push_bit 4 h OR l]) = Inr w" "length out < N"
        by (auto simp: vec_push_eq split: list.splits option.splits if_splits)
      moreover have "push_bit 4 h OR l = h * 16 + l"
        using r by (intro hex_join) (auto dest: hex_digit_range)
      ultimately show ?thesis
        using step [of rest "h * 16 + l"] Cons pct by (auto intro: fe_hex)
    next
      case plain
      with less.prems Cons have "decode_loop ext N bs (out @ [b]) = Inr w" "length out < N"
        by (auto simp: vec_push_eq split: if_splits)
      with step [of bs b] Cons plain show ?thesis by (auto intro: fe_plain)
    qed
  qed
qed

lemma decode_loop_complete:
  "form_encodes v s \<Longrightarrow> length out + length v \<le> N \<Longrightarrow> decode_loop ext N s out = Inr (out @ v)"
proof (induction arbitrary: out rule: form_encodes.induct)
  case (fe_hex v s x h y l)
  then have "push_bit 4 h OR l = h * 16 + l" by (intro hex_join) (auto dest: hex_digit_range)
  with fe_hex show ?case by (simp add: vec_push_eq)
qed (auto simp: vec_push_eq)

lemma form_url_decode_eq:
  "form_url_decode ext N s = Inr v \<longleftrightarrow>
    form_encodes v s \<and> wf_string N v"
proof
  assume "form_url_decode ext N s = Inr v"
  then have l: "decode_loop ext N s [] = Inr v" "0 \<notin> set v" "utf8_valid v"
    by (auto simp: form_url_decode_def from_utf8_def try_from_eq split: sum.splits if_splits)
  from decode_loop_sound [OF l(1)] l(2,3)
  show "form_encodes v s \<and> wf_string N v" by (auto simp: wf_string_def)
next
  assume r: "form_encodes v s \<and> wf_string N v"
  then have "decode_loop ext N s [] = Inr v"
    using decode_loop_complete [of v s "[]" N] by (simp add: wf_string_def)
  with r show "form_url_decode ext N s = Inr v"
    by (simp add: form_url_decode_def from_utf8_def try_from_eq wf_string_def)
qed

end

text \<open>
  C21: a form value decodes to \<open>v\<close> exactly when it is a spelling of \<open>v\<close> and \<open>v\<close> fits the buffer,
  is valid UTF-8 and holds no NUL. Nothing is ever truncated: a value that does not fit, a
  broken percent escape, invalid UTF-8 or a NUL is an error.
\<close>

theorem form_url_decode_iff:
  assumes "fixed_capacity ext"
  shows "form_url_decode ext N s = Inr v \<longleftrightarrow> form_encodes v s \<and> wf_string N v"
  by (rule fixed_capacity.form_url_decode_eq [OF assms])

theorem form_url_decode_iff_witness:
  "form_url_decode bounded_append 32 (str ''caf%C3%A9+au+lait%3D1'')
     = Inr (str ''caf'' @ [0xC3, 0xA9] @ str '' au lait=1'')
   \<and> form_encodes (str ''caf'' @ [0xC3, 0xA9] @ str '' au lait=1'') (str ''caf%C3%A9+au+lait%3D1'')"
proof -
  have d: "form_url_decode bounded_append 32 (str ''caf%C3%A9+au+lait%3D1'')
     = Inr (str ''caf'' @ [0xC3, 0xA9] @ str '' au lait=1'')"
    by code_simp
  then show ?thesis using form_url_decode_iff [OF bounded_capacity] by blast
qed

section \<open>Escaping against the entity decoder\<close>

lemma strip_prefix_eq: "strip_prefix p s = Some r \<longleftrightarrow> s = p @ r"
  by (induction p s rule: strip_prefix.induct) auto

text \<open>A decoder of the five entities; every other byte stands for itself.\<close>

definition entities :: "(bytes \<times> u8) list" where
  "entities = [(str ''&amp;'', 38), (str ''&lt;'', 60), (str ''&gt;'', 62),
     (str ''&quot;'', 34), (str ''&#39;'', 39)]"

fun first_entity :: "(bytes \<times> u8) list \<Rightarrow> bytes \<Rightarrow> (u8 \<times> nat) option" where
  "first_entity [] s = None"
| "first_entity ((e, c) # es) s =
    (if strip_prefix e s \<noteq> None then Some (c, length e) else first_entity es s)"

function html_unescape :: "bytes \<Rightarrow> bytes" where
  "html_unescape [] = []"
| "html_unescape (b # bs) =
    (case first_entity entities (b # bs) of
       Some (c, n) \<Rightarrow> c # html_unescape (drop (n - 1) bs)
     | None \<Rightarrow> b # html_unescape bs)"
  by pat_completeness auto
termination
  by (relation "measure length") (auto simp: le_imp_less_Suc)

text \<open>Bytes that could end a quoted attribute value or open a tag.\<close>

definition attr_safe :: "bytes \<Rightarrow> bool" where
  "attr_safe s \<longleftrightarrow> {34, 39, 60, 62} \<inter> set s = {}"

lemma unescape_entity:
  "b \<in> {38, 60, 62, 34, 39} \<Longrightarrow> html_unescape (escape_char [b] @ s) = b # html_unescape s"
  by (auto simp: escape_char_def entities_def)

lemma unescape_plain: "b \<noteq> 38 \<Longrightarrow> html_unescape (b # s) = b # html_unescape s"
  by (simp add: entities_def)

lemma unescape_plains: "38 \<notin> set c \<Longrightarrow> html_unescape (c @ s) = c @ html_unescape s"
  by (induction c) (auto simp: unescape_plain simp del: html_unescape.simps(2))

lemma char_cases:
  assumes "utf8_valid s" and "c \<in> set (chars s)"
  obtains (special) b where "c = [b]" "b \<in> {38, 60, 62, 34, 39}"
    | (plain) "{38, 60, 62, 34, 39} \<inter> set c = {}"
proof -
  from utf8_chars [OF assms] show thesis
  proof
    assume "\<exists>b. c = [b] \<and> b < 0x80"
    then show thesis using that by fastforce
  next
    assume "\<forall>b\<in>set c. 0x80 \<le> b"
    then have "{38, 60, 62, 34, 39} \<inter> set c = {}" by auto
    then show thesis by (rule plain)
  qed
qed

lemma escape_char_plain: "{38, 60, 62, 34, 39} \<inter> set c = {} \<Longrightarrow> escape_char c = c"
  by (auto simp: escape_char_def)

lemma escape_char_unescape:
  assumes "utf8_valid s" and "c \<in> set (chars s)"
  shows "html_unescape (escape_char c @ t) = c @ html_unescape t"
  using assms
proof (cases rule: char_cases)
  case (special b)
  then show ?thesis using unescape_entity [of b t] by simp
next
  case plain
  then show ?thesis by (simp add: escape_char_plain unescape_plains)
qed

lemma escape_char_safe:
  assumes "utf8_valid s" and "c \<in> set (chars s)"
  shows "attr_safe (escape_char c)"
  using assms
proof (cases rule: char_cases)
  case (special b)
  then show ?thesis by (auto simp: attr_safe_def escape_char_def)
next
  case plain
  then show ?thesis by (auto simp: escape_char_plain attr_safe_def)
qed

lemma escape_chars_correct:
  assumes "utf8_valid s" and "set cs \<subseteq> set (chars s)"
  shows "html_unescape (concat (map escape_char cs)) = concat cs
    \<and> attr_safe (concat (map escape_char cs))"
  using assms(2)
proof (induction cs)
  case (Cons c cs)
  then have "c \<in> set (chars s)" by simp
  with Cons escape_char_unescape [OF assms(1)] escape_char_safe [OF assms(1)] show ?case
    by (auto simp: attr_safe_def simp del: html_unescape.simps(2))
qed (simp add: attr_safe_def)

lemma length_escape_char: "c \<noteq> [] \<Longrightarrow> length (escape_char c) \<le> 6 * length c"
  by (cases c) (auto simp: escape_char_def)

lemma length_escape_chars:
  "\<forall>c\<in>set cs. c \<noteq> [] \<Longrightarrow> length (concat (map escape_char cs)) \<le> 6 * length (concat cs)"
  by (induction cs) (auto dest: length_escape_char)

context fixed_capacity
begin

lemma escape_loop_eq:
  "length out \<le> N \<Longrightarrow> escape_loop ext N cs out =
    (let e = out @ concat (map escape_char cs) in if length e \<le> N then Inr e else Inl Capacity)"
proof (induction cs arbitrary: out)
  case (Cons c cs)
  show ?case
  proof (cases "length out + length (escape_char c) \<le> N")
    case True
    with Cons.IH [of "out @ escape_char c"] show ?thesis by (simp add: append_eq add.assoc)
  next
    case False
    then show ?thesis by (simp add: append_eq Let_def)
  qed
qed (simp add: Let_def)

lemma html_escape_eq:
  "html_escape_attr ext N s =
    (let e = concat (map escape_char (chars s)) in if length e \<le> N then Inr e else Inl Capacity)"
  by (simp add: html_escape_attr_def escape_loop_eq)

end

lemma html_escape_correct:
  assumes "fixed_capacity ext" and "utf8_valid s"
  shows "(\<forall>out. html_escape_attr ext N s = Inr out \<longrightarrow> attr_safe out \<and> html_unescape out = s)
    \<and> (6 * length s \<le> N \<longrightarrow> (\<exists>out. html_escape_attr ext N s = Inr out))"
proof -
  have "length (concat (map escape_char (chars s))) \<le> 6 * length s"
    using length_escape_chars [of "chars s"] chars_nonempty [of _ s] by auto
  then show ?thesis
    using escape_chars_correct [OF assms(2), of "chars s"]
    by (auto simp: fixed_capacity.html_escape_eq [OF assms(1)] Let_def)
qed

text \<open>
  C36: escaping is sound and loses nothing: no byte of the result can close the attribute or
  open a tag, decoding its entities gives the original string back, and any string of at
  most a sixth of the capacity is escaped (so no stored field overflows the page's 256-byte
  buffer).
\<close>

theorem html_escape_sound:
  assumes "fixed_capacity ext" and "utf8_valid s"
  shows "(\<forall>out. html_escape_attr ext N s = Inr out \<longrightarrow> attr_safe out \<and> html_unescape out = s)
    \<and> (6 * length s \<le> N \<longrightarrow> (\<exists>out. html_escape_attr ext N s = Inr out))"
  using assms by (rule html_escape_correct)

theorem html_escape_sound_witness:
  "\<exists>out. html_escape_attr bounded_append 256 (str ''a'' @ [34, 0xC3, 0xA9] @ str ''<b>'') = Inr out
    \<and> attr_safe out \<and> html_unescape out = str ''a'' @ [34, 0xC3, 0xA9] @ str ''<b>''"
proof -
  have "utf8_valid (str ''a'' @ [34, 0xC3, 0xA9] @ str ''<b>'')" by code_simp
  from html_escape_sound [OF bounded_capacity this, of 256] show ?thesis by auto
qed

end
