(* ===== verification/Auth_Token.thy ===== *)
theory Auth_Token
  imports Heapless
begin

text \<open>
  \<open>logic/src/auth.rs\<close>: the login token, base64 of \<open>user:pass\<close>, built in fixed-capacity
  buffers whose overflow is ignored. The reference is the base64 decoder of RFC 4648.
\<close>

section \<open>The code\<close>

definition B64 :: bytes where
  "B64 = str ''ABCDEFGHIJKLMNOPQRSTUVWXYZabcdefghijklmnopqrstuvwxyz0123456789+/''"

text \<open>\<open>raw.chunks(3)\<close>.\<close>

fun chunks3 :: "bytes \<Rightarrow> bytes list" where
  "chunks3 [] = []"
| "chunks3 [a] = [[a]]"
| "chunks3 [a, b] = [[a, b]]"
| "chunks3 (a # b # c # r) = [a, b, c] # chunks3 r"

text \<open>The four characters that one chunk pushes.\<close>

definition chunk_chars :: "bytes \<Rightarrow> bytes" where
  "chunk_chars chunk =
    (let b0 = chunk ! 0;
         b1 = (if length chunk > 1 then chunk ! 1 else 0);
         b2 = (if length chunk > 2 then chunk ! 2 else 0)
     in [B64 ! unat (drop_bit 2 b0),
         B64 ! unat (push_bit 4 (b0 AND 0x03) OR drop_bit 4 b1),
         (if length chunk > 1 then B64 ! unat (push_bit 2 (b1 AND 0x0f) OR drop_bit 6 b2) else 61),
         (if length chunk > 2 then B64 ! unat (b2 AND 0x3f) else 61)])"

definition token_raw :: "heapless \<Rightarrow> bytes \<Rightarrow> bytes \<Rightarrow> bytes" where
  "token_raw ext user pass =
    try_append ext 96 (try_append ext 96 (try_append ext 96 [] user) (str '':'')) pass"

definition basic_token :: "heapless \<Rightarrow> bytes \<Rightarrow> bytes \<Rightarrow> bytes" where
  "basic_token ext user pass =
    fold (\<lambda>ch out. try_append ext 96 out [ch])
      (concat (map chunk_chars (chunks3 (token_raw ext user pass)))) []"

section \<open>The reference decoder\<close>

definition b64_value :: "u8 \<Rightarrow> nat option" where
  "b64_value c =
    (if 65 \<le> c \<and> c \<le> 90 then Some (unat c - 65)
     else if 97 \<le> c \<and> c \<le> 122 then Some (unat c - 71)
     else if 48 \<le> c \<and> c \<le> 57 then Some (unat c + 4)
     else if c = 43 then Some 62
     else if c = 47 then Some 63
     else None)"

fun b64_decode :: "bytes \<Rightarrow> bytes option" where
  "b64_decode [] = Some []"
| "b64_decode (p # q # r # s # rest) =
    (case (b64_value p, b64_value q) of
       (Some vp, Some vq) \<Rightarrow>
         (let x = of_nat (vp * 4 + vq div 16) in
          if r = 61 then (if s = 61 \<and> rest = [] then Some [x] else None)
          else (case b64_value r of None \<Rightarrow> None
                | Some vr \<Rightarrow>
                  (let y = of_nat (vq mod 16 * 16 + vr div 4) in
                   if s = 61 then (if rest = [] then Some [x, y] else None)
                   else (case b64_value s of None \<Rightarrow> None
                         | Some vs \<Rightarrow>
                           map_option (\<lambda>t. x # y # of_nat (vr mod 4 * 64 + vs) # t) (b64_decode rest)))))
     | _ \<Rightarrow> None)"
| "b64_decode _ = None"

section \<open>Encoding then decoding\<close>

lemma length_B64: "length B64 = 64"
  by (simp add: B64_def)

lemma B64_table: "map b64_value B64 = map Some [0..<64] \<and> 61 \<notin> set B64"
  by code_simp

lemma b64_value_B64 [simp]: "n < 64 \<Longrightarrow> b64_value (B64 ! n) = Some n"
proof -
  assume n: "n < 64"
  then have "b64_value (B64 ! n) = map b64_value B64 ! n" by (simp add: length_B64)
  also have "\<dots> = Some n" using n B64_table by simp
  finally show ?thesis .
qed

lemma B64_not_pad [simp]: "n < 64 \<Longrightarrow> B64 ! n \<noteq> 61"
  using B64_table nth_mem [of n B64] by (metis length_B64)

text \<open>The four sextets of a chunk, as numbers.\<close>

lemma sextet_1: "unat (drop_bit 2 (a :: u8)) = unat a div 4"
  by (simp only: unat_drop_bit) simp

lemma sextet_2:
  "unat (push_bit 4 ((a :: u8) AND 3) OR drop_bit 4 (b :: u8)) = unat a mod 4 * 16 + unat b div 16"
proof -
  have m: "(3 :: u8) = mask 2" by (simp add: mask_eq_exp_minus_1)
  have l: "unat a mod 4 < 4" "unat b div 16 < 16"
    by (simp_all add: less_mult_imp_div_less)
  show ?thesis
    unfolding m using l by (subst unat_shift_or) (simp_all only: unat_drop_bit unat_and_mask, simp_all)
qed

lemma sextet_3:
  "unat (push_bit 2 ((b :: u8) AND 15) OR drop_bit 6 (c :: u8)) = unat b mod 16 * 4 + unat c div 64"
proof -
  have m: "(15 :: u8) = mask 4" by (simp add: mask_eq_exp_minus_1)
  have l: "unat b mod 16 < 16" "unat c div 64 < 4"
    by (simp_all add: less_mult_imp_div_less)
  show ?thesis
    unfolding m using l by (subst unat_shift_or) (simp_all only: unat_drop_bit unat_and_mask, simp_all)
qed

lemma sextet_4: "unat ((c :: u8) AND 63) = unat c mod 64"
proof -
  have m: "(63 :: u8) = mask 6" by (simp add: mask_eq_exp_minus_1)
  show ?thesis unfolding m by (simp only: unat_and_mask) simp
qed

lemma sextet_bounds [simp]:
  fixes a b :: u8
  shows "unat a div 4 < 64" and "unat a mod 4 * 16 + unat b div 16 < 64"
    and "unat a mod 16 * 4 + unat b div 64 < 64" and "unat a mod 4 * 16 < 64"
    and "unat a mod 16 * 4 < 64"
proof -
  have "unat b div 16 < 16" "unat b div 64 < 4" "unat a mod 4 < 4" "unat a mod 16 < 16"
    "unat a div 4 < 64"
    by (simp_all add: less_mult_imp_div_less)
  then show "unat a div 4 < 64" "unat a mod 4 * 16 + unat b div 16 < 64"
    "unat a mod 16 * 4 + unat b div 64 < 64" "unat a mod 4 * 16 < 64" "unat a mod 16 * 4 < 64"
    by linarith+
qed

lemma chunk_chars_1: "chunk_chars [a] = [B64 ! (unat a div 4), B64 ! (unat a mod 4 * 16), 61, 61]"
  using sextet_1 [of a] sextet_2 [of a 0] by (simp add: chunk_chars_def Let_def)

lemma chunk_chars_2:
  "chunk_chars [a, b] = [B64 ! (unat a div 4), B64 ! (unat a mod 4 * 16 + unat b div 16),
     B64 ! (unat b mod 16 * 4), 61]"
  using sextet_1 [of a] sextet_2 [of a b] sextet_3 [of b 0] by (simp add: chunk_chars_def Let_def)

lemma chunk_chars_3:
  "chunk_chars [a, b, c] = [B64 ! (unat a div 4), B64 ! (unat a mod 4 * 16 + unat b div 16),
     B64 ! (unat b mod 16 * 4 + unat c div 64), B64 ! (unat c mod 64)]"
  using sextet_1 [of a] sextet_2 [of a b] sextet_3 [of b c] sextet_4 [of c]
  by (simp add: chunk_chars_def Let_def)

lemma sextet_arith:
  fixes a b :: u8
  shows "(unat a mod 4 * 16 + unat b div 16) div 16 = unat a mod 4"
    and "(unat a mod 4 * 16 + unat b div 16) mod 16 = unat b div 16"
    and "(unat a mod 16 * 4 + unat b div 64) div 4 = unat a mod 16"
    and "(unat a mod 16 * 4 + unat b div 64) mod 4 = unat b div 64"
    and "unat a mod 4 * 16 div 16 = unat a mod 4" and "unat a mod 16 * 4 div 4 = unat a mod 16"
proof -
  have "unat b div 16 < 16" "unat b div 64 < 4" by (simp_all add: less_mult_imp_div_less)
  then show "(unat a mod 4 * 16 + unat b div 16) div 16 = unat a mod 4"
    "(unat a mod 4 * 16 + unat b div 16) mod 16 = unat b div 16"
    "(unat a mod 16 * 4 + unat b div 64) div 4 = unat a mod 16"
    "(unat a mod 16 * 4 + unat b div 64) mod 4 = unat b div 64"
    "unat a mod 4 * 16 div 16 = unat a mod 4" "unat a mod 16 * 4 div 4 = unat a mod 16"
    by simp_all
qed

lemma byte_rejoin: "(of_nat (unat (b :: u8) div k * k + unat b mod k) :: u8) = b"
  by simp

lemmas b64_eval = b64_decode.simps b64_value_B64 B64_not_pad option.case prod.case Let_def if_False
  if_True simp_thms

lemma decode_quad:
  "p < 64 \<Longrightarrow> q < 64 \<Longrightarrow> r < 64 \<Longrightarrow> s < 64 \<Longrightarrow>
    b64_decode (B64 ! p # B64 ! q # B64 ! r # B64 ! s # rest) =
    map_option (\<lambda>t. of_nat (p * 4 + q div 16) # of_nat (q mod 16 * 16 + r div 4) #
      of_nat (r mod 4 * 64 + s) # t) (b64_decode rest)"
  by (simp only: b64_eval append_Cons append_Nil)

lemma decode_triple:
  "p < 64 \<Longrightarrow> q < 64 \<Longrightarrow> r < 64 \<Longrightarrow>
    b64_decode [B64 ! p, B64 ! q, B64 ! r, 61] =
    Some [of_nat (p * 4 + q div 16), of_nat (q mod 16 * 16 + r div 4)]"
  by (simp only: b64_eval)

lemma decode_pair:
  "p < 64 \<Longrightarrow> q < 64 \<Longrightarrow> b64_decode [B64 ! p, B64 ! q, 61, 61] = Some [of_nat (p * 4 + q div 16)]"
  by (simp only: b64_eval)

lemma decode_chunks:
  "b64_decode (chunk_chars [a]) = Some [a]"
  "b64_decode (chunk_chars [a, b]) = Some [a, b]"
  "b64_decode (chunk_chars [a, b, c] @ rest) = map_option (\<lambda>t. a # b # c # t) (b64_decode rest)"
  unfolding chunk_chars_1 chunk_chars_2 chunk_chars_3 append_Cons append_Nil
  by (subst decode_quad decode_triple decode_pair,
      simp_all only: sextet_bounds sextet_arith byte_rejoin mod_less_divisor append_Cons append_Nil)+

lemma decode_encode: "b64_decode (concat (map chunk_chars (chunks3 raw))) = Some raw"
  by (induction raw rule: chunks3.induct) (simp_all add: decode_chunks)

lemma length_chunk_chars: "length (chunk_chars c) = 4"
  by (simp add: chunk_chars_def Let_def)

lemma length_encode: "length (concat (map chunk_chars (chunks3 raw))) = 4 * ((length raw + 2) div 3)"
proof (induction raw rule: chunks3.induct)
  case (4 a b c r)
  have "(length r + 3 + 2) div 3 = (length r + 2) div 3 + 1" by simp
  with 4 show ?case by (simp add: length_chunk_chars)
qed (simp_all add: length_chunk_chars)

section \<open>The token in its fixed-capacity buffers\<close>

context fixed_capacity
begin

lemma push_all:
  "length out \<le> N \<Longrightarrow>
    fold (\<lambda>ch out. try_append ext N out [ch]) cs out = take N (out @ cs)"
proof (induction cs arbitrary: out)
  case (Cons c cs)
  then show ?case
    by (cases "length out < N") (auto simp: try_append_eq take_Cons')
qed simp

lemma basic_token_eq:
  "basic_token ext u p = take 96 (concat (map chunk_chars (chunks3 (token_raw ext u p))))"
  by (simp add: basic_token_def push_all)

lemma token_raw_eq:
  "length u < 96 \<Longrightarrow>
    token_raw ext u p = (if length u + 1 + length p \<le> 96 then u @ 58 # p else u @ [58])"
  by (simp add: token_raw_def try_append_eq)

lemma basic_token_decode_raw:
  "length (token_raw ext u p) \<le> 72 \<Longrightarrow> b64_decode (basic_token ext u p) = Some (token_raw ext u p)"
  by (simp add: basic_token_eq length_encode decode_encode)

lemma length_basic_token:
  "length (basic_token ext u p) = min 96 (4 * ((length (token_raw ext u p) + 2) div 3))"
  by (simp add: basic_token_eq length_encode)

lemma basic_token_eq_iff:
  assumes "length (token_raw ext u' p') \<le> 69"
  shows "basic_token ext u p = basic_token ext u' p' \<longleftrightarrow> token_raw ext u p = token_raw ext u' p'"
proof (cases "length (token_raw ext u p) \<le> 72")
  case True
  have "b64_decode (basic_token ext u' p') = Some (token_raw ext u' p')"
    using assms by (intro basic_token_decode_raw) simp
  moreover have "b64_decode (basic_token ext u p) = Some (token_raw ext u p)"
    using True by (rule basic_token_decode_raw)
  moreover have "token_raw ext u p = token_raw ext u' p' \<Longrightarrow> basic_token ext u p = basic_token ext u' p'"
    by (simp only: basic_token_eq)
  ultimately show ?thesis by (metis option.inject)
next
  case False
  then have "length (basic_token ext u p) = 96" by (simp add: length_basic_token)
  moreover have "length (basic_token ext u' p') < 96" using assms by (simp add: length_basic_token)
  ultimately show ?thesis using False assms by auto
qed

end

text \<open>
  C38: for user and password that fit (in particular for every configured pair, at most 32
  bytes each), the token is a correct base64 encoding: the RFC 4648 decoder recovers
  exactly \<open>user:pass\<close>.
\<close>

theorem basic_token_decodes:
  assumes "fixed_capacity ext" and "length user + 1 + length pass \<le> 72"
  shows "b64_decode (basic_token ext user pass) = Some (user @ 58 # pass)"
proof -
  have "token_raw ext user pass = user @ 58 # pass"
    using assms(2) by (simp add: fixed_capacity.token_raw_eq [OF assms(1)])
  with assms(2) show ?thesis
    using fixed_capacity.basic_token_decode_raw [OF assms(1), of user pass] by simp
qed

theorem basic_token_decodes_witness:
  "b64_decode (basic_token bounded_append (str ''Aladdin'') (str ''open sesame''))
     = Some (str ''Aladdin:open sesame'')"
  using basic_token_decodes [OF bounded_capacity, of "str ''Aladdin''" "str ''open sesame''"] by simp

text \<open>
  C37: when a submitted pair matches the configured token. The comparison of tokens is the
  comparison of the joined strings \<open>user:pass\<close>, except that a submitted password that does
  not fit the 96-byte buffer is dropped as if it were empty. Truncation of long tokens
  never produces a match.
\<close>

theorem token_match_iff:
  assumes "fixed_capacity ext" and "length cu \<le> 32" and "length cp \<le> 32" and "length u \<le> 64"
  shows "basic_token ext u p = basic_token ext cu cp \<longleftrightarrow>
    (if length u + 1 + length p \<le> 96 then u @ 58 # p else u @ [58]) = cu @ 58 # cp"
proof -
  have "token_raw ext cu cp = cu @ 58 # cp"
    using assms(2,3) by (simp add: fixed_capacity.token_raw_eq [OF assms(1)])
  moreover from this have "length (token_raw ext cu cp) \<le> 69" using assms(2,3) by simp
  ultimately show ?thesis
    using assms(4) fixed_capacity.basic_token_eq_iff [OF assms(1)]
    by (simp add: fixed_capacity.token_raw_eq [OF assms(1)])
qed

theorem token_match_iff_witness:
  "basic_token bounded_append (replicate 32 117) (replicate 64 120)
     = basic_token bounded_append (replicate 32 117) []"
proof -
  have "length (replicate 32 (117 :: u8)) \<le> 32" "length ([] :: bytes) \<le> 32"
    "length (replicate 32 (117 :: u8)) \<le> 64" by simp_all
  from token_match_iff [OF bounded_capacity this, of "replicate 64 120"] show ?thesis
    by simp
qed

text \<open>A configured pair without a colon in the user name is matched by itself only.\<close>

lemma token_match_unique:
  assumes "fixed_capacity ext" and "length cu \<le> 32" and "length cp \<le> 32" and "length u \<le> 64"
    and "length u + 1 + length p \<le> 96" and "58 \<notin> set u" and "58 \<notin> set cu"
  shows "basic_token ext u p = basic_token ext cu cp \<longleftrightarrow> u = cu \<and> p = cp"
proof -
  have "split_once 58 (u @ 58 # p) = Some (u, p)" "split_once 58 (cu @ 58 # cp) = Some (cu, cp)"
    using assms(6,7) by (simp_all add: split_once_append)
  then have "u @ 58 # p = cu @ 58 # cp \<longleftrightarrow> u = cu \<and> p = cp"
    by (metis Pair_inject option.inject)
  with assms show ?thesis
    by (simp add: token_match_iff)
qed

end
