(* ===== verification/Web_Session.thy ===== *)
theory Web_Session
  imports Web_Socket Web_Request Web_Form Auth_Token
begin

text \<open>
  Sessions and logins of \<open>src/web.rs\<close>: one global session, a 64-bit token in two 32-bit atomics
  with the second it was refreshed, and the lockout counter. The state part of every handler
  runs between two awaits, so handlers of the two web tasks interleave as whole steps. Every
  \<open>Instant::now().as_secs()\<close> is an argument of its own.
\<close>

section \<open>State\<close>

record session =
  token_hi :: u32
  token_lo :: u32
  created :: u32
  fail_count :: u32
  fail_last :: u32

definition boot_session :: session where
  "boot_session = \<lparr>token_hi = 0, token_lo = 0, created = 0, fail_count = 0, fail_last = 0\<rparr>"

definition LOGIN_MAX_FAILS :: u32 where "LOGIN_MAX_FAILS = 5"
definition LOGIN_LOCKOUT_SECS :: u64 where "LOGIN_LOCKOUT_SECS = 60"
definition LOGIN_FAIL_DELAY_MS :: nat where "LOGIN_FAIL_DELAY_MS = 2000"
definition SESSION_TTL_SECS :: u32 where "SESSION_TTL_SECS = 900"

definition saturating_sub :: "u64 \<Rightarrow> u64 \<Rightarrow> u64" where
  "saturating_sub a b = (if b \<le> a then a - b else 0)"

section \<open>Sessions\<close>

definition mint_session_token :: "u64 \<Rightarrow> u64" where
  "mint_session_token seed = seed * 6364136223846793005 + 1442695040888963407"

definition session_token :: "session \<Rightarrow> u64" where
  "session_token s = push_bit 32 (ucast (token_hi s)) OR ucast (token_lo s)"

text \<open>\<open>s.parse::<u64>()\<close>.\<close>

definition parse_u64 :: "bytes \<Rightarrow> u64 option" where
  "parse_u64 s = map_option of_nat (parse_uint 18446744073709551615 s)"

definition validate_session :: "bytes \<Rightarrow> bool \<Rightarrow> u64 \<Rightarrow> session \<Rightarrow> panic + bool \<times> session" where
  "validate_session req refresh t s =
    (let token = session_token s in
     if token = 0 then Inr (False, s)
     else (case extract_cookie req session_cookie of
         Inl p \<Rightarrow> Inl p
       | Inr None \<Rightarrow> Inr (False, s)
       | Inr (Some cookie_token) \<Rightarrow>
         (case Option.bind (from_utf8 cookie_token) parse_u64 of
            None \<Rightarrow> Inr (False, s)
          | Some parsed \<Rightarrow>
              if parsed \<noteq> token then Inr (False, s)
              else if saturating_sub t (ucast (created s)) > ucast SESSION_TTL_SECS
              then Inr (False, s\<lparr>token_hi := 0, token_lo := 0\<rparr>)
              else Inr (True, if refresh then s\<lparr>created := ucast t\<rparr> else s))))"

definition log_out :: "session \<Rightarrow> action list \<times> session" where
  "log_out s = (send_and_close HTTP_303_LOGOUT, s\<lparr>token_hi := 0, token_lo := 0, created := 0\<rparr>)"

section \<open>Logins\<close>

definition login_is_locked :: "u64 \<Rightarrow> u32 \<Rightarrow> u64 \<Rightarrow> bool" where
  "login_is_locked t fails last_fail \<longleftrightarrow>
    fails \<ge> LOGIN_MAX_FAILS \<and> saturating_sub t last_fail < LOGIN_LOCKOUT_SECS"

text \<open>\<open>parse_login_form\<close>: each field keeps its last occurrence, also when that one is malformed.\<close>

definition form_value :: "heapless \<Rightarrow> bytes \<Rightarrow> bytes option" where
  "form_value ext v = (case form_url_decode ext 64 v of Inr x \<Rightarrow> Some x | Inl _ \<Rightarrow> None)"

fun login_fields ::
  "heapless \<Rightarrow> bytes list \<Rightarrow> bytes option \<times> bytes option \<Rightarrow> bytes option \<times> bytes option" where
  "login_fields ext [] up = up"
| "login_fields ext (pair # ps) (user, pass) =
    (let key = split_key 61 pair; val = split_value 61 pair in
     login_fields ext ps
       (if key = str ''user'' then (form_value ext val, pass)
        else if key = str ''pass'' then (user, form_value ext val)
        else (user, pass)))"

definition parse_login_form :: "heapless \<Rightarrow> bytes \<Rightarrow> bytes option \<times> bytes option" where
  "parse_login_form ext b = login_fields ext (split_on 38 b) (None, None)"

definition login_credentials_match :: "heapless \<Rightarrow> parsed_request \<Rightarrow> bytes \<Rightarrow> bool" where
  "login_credentials_match ext r expected \<longleftrightarrow>
    (case body r of
       None \<Rightarrow> False
     | Some b \<Rightarrow>
       (case parse_login_form ext b of
          (Some user, Some pass) \<Rightarrow> basic_token ext user pass = expected
        | _ \<Rightarrow> False))"

text \<open>The format string of the redirect, around the token.\<close>

definition redirect_head :: bytes where
  "redirect_head = str ''HTTP/1.1 303 See Other'' @ [13, 10] @ str ''Set-Cookie: jzf_session=''"

definition redirect_tail :: bytes where
  "redirect_tail = str ''; Path=/; Max-Age=1800; HttpOnly; SameSite=Strict'' @ [13, 10]
    @ str ''Location: /'' @ [13, 10] @ str ''Connection: close'' @ [13, 10, 13, 10]"

definition complete_login :: "heapless \<Rightarrow> u64 \<Rightarrow> u64 \<times> u64 \<Rightarrow> session \<Rightarrow> action list \<times> session" where
  "complete_login ext token_seed = (\<lambda>(t1, t2) s.
    let s = s\<lparr>fail_count := 0\<rparr>;
        new_token = mint_session_token (token_seed + t1);
        s = s\<lparr>token_hi := ucast (drop_bit 32 new_token)\<rparr>;
        s = s\<lparr>token_lo := ucast new_token\<rparr>;
        s = s\<lparr>created := ucast t2\<rparr>;
        redirect = write_pieces ext 256 [] [redirect_head, dec_digits (unat new_token), redirect_tail]
    in (send_and_close redirect, s))"

definition reject_login :: "u64 \<Rightarrow> session \<Rightarrow> action list \<times> session" where
  "reject_login t s =
    (let new_fails = fail_count s + 1;
         s = s\<lparr>fail_count := fail_count s + 1\<rparr>;
         s = s\<lparr>fail_last := ucast t\<rparr>;
         message = (if new_fails \<ge> LOGIN_MAX_FAILS then LOGIN_LOCKED else LOGIN_ERROR)
     in (Sleep LOGIN_FAIL_DELAY_MS # send_login_form HTTP_401_LOGIN (Some message), s))"

text \<open>\<open>handle_login\<close> with the readings of its own clock and of the handler it ends in.\<close>

definition handle_login ::
  "heapless \<Rightarrow> parsed_request \<Rightarrow> bytes \<Rightarrow> u64 \<Rightarrow> u64 \<times> u64 \<times> u64 \<Rightarrow> session \<Rightarrow> action list \<times> session" where
  "handle_login ext r expected token_seed = (\<lambda>(t0, t1, t2) s.
    let fails = fail_count s; last_fail = ucast (fail_last s) in
    if login_is_locked t0 fails last_fail
    then (send_login_form HTTP_401_LOGIN (Some LOGIN_LOCKED), s)
    else (let s = (if fails \<ge> LOGIN_MAX_FAILS then s\<lparr>fail_count := 0\<rparr> else s) in
      if login_credentials_match ext r expected
      then complete_login ext token_seed (t1, t2) s
      else reject_login t1 s))"

lemma handle_login_answers: "only_answers (fst (handle_login ext r e seed ts s))"
  by (cases ts) (auto simp: handle_login_def complete_login_def reject_login_def Let_def)

section \<open>The token\<close>

lemma session_token_set:
  "session_token (s\<lparr>token_hi := ucast (drop_bit 32 v), token_lo := ucast v\<rparr>) = v"
  by (rule bit_word_eqI) (auto simp: session_token_def bit_simps)

lemma session_token_zero [simp]: "session_token (s\<lparr>token_hi := 0, token_lo := 0\<rparr>) = 0"
  by (simp add: session_token_def)

lemma parse_u64_token: "parse_u64 (dec_digits (unat (v :: u64))) = Some v"
proof -
  have "unat v < 18446744073709551616" by (rule order_less_le_trans [OF unsigned_less]) simp
  then have "unat v \<le> 18446744073709551615" by simp
  then show ?thesis by (simp add: parse_u64_def parse_uint_dec)
qed

text \<open>
  The token is a bijective function of its seed, so two logins of one boot get the same token
  only in the same second (modulo \<open>2 ^ 64\<close>); it is also nothing but that function, of two uptimes
  of the device.
\<close>

lemma mint_session_token_inj:
  "mint_session_token (seed + t1) = mint_session_token (seed + t2) \<longleftrightarrow> t1 = t2"
proof
  assume "mint_session_token (seed + t1) = mint_session_token (seed + t2)"
  then have "6364136223846793005 * (seed + t1) = 6364136223846793005 * (seed + t2)"
    by (simp add: mint_session_token_def mult.commute)
  then have "13877824140714322085 * (6364136223846793005 * (seed + t1)) = 13877824140714322085 * (6364136223846793005 * (seed + t2))"
    by (rule arg_cong)
  then have "(13877824140714322085 * 6364136223846793005) * (seed + t1) = (13877824140714322085 * 6364136223846793005) * (seed + t2)"
    by (simp only: mult.assoc)
  moreover have "13877824140714322085 * 6364136223846793005 = (1 :: u64)" by simp
  ultimately have "seed + t1 = seed + t2" by (simp only: mult_1_left)
  then show "t1 = t2" by simp
qed simp

section \<open>When a session is valid\<close>

lemma saturating_sub_le: "saturating_sub a b \<le> n \<longleftrightarrow> unat a \<le> unat b + unat n"
  by (auto simp: saturating_sub_def word_le_nat_alt unat_sub_if')

lemma saturating_sub_less: "saturating_sub a b < n \<longleftrightarrow> n \<noteq> 0 \<and> unat a < unat b + unat n"
  by (auto simp: saturating_sub_def word_le_nat_alt word_less_nat_alt unat_sub_if' unat_gt_0 word_gt_0)

lemma unat_ttl [simp]: "unat SESSION_TTL_SECS = 900"
  by (simp add: SESSION_TTL_SECS_def)

lemma unat_ucast_created [simp]: "unat (ucast (x :: u32) :: u64) = unat x"
proof -
  have "unat x < 4294967296" by (rule order_less_le_trans [OF unsigned_less]) simp
  then show ?thesis by (simp add: unsigned_ucast_eq take_bit_nat_eq_self)
qed

lemma validate_expired:
  "saturating_sub t (ucast (created s)) > ucast SESSION_TTL_SECS \<longleftrightarrow> unat (created s) + 900 < unat t"
  using saturating_sub_le [of t "ucast (created s)" "ucast SESSION_TTL_SECS"] by (simp add: not_le [symmetric])

text \<open>A request whose session cookie is the decimal number of a token.\<close>

definition carries_session :: "u64 \<Rightarrow> bytes \<Rightarrow> bool" where
  "carries_session v req \<longleftrightarrow>
    (\<exists>c. extract_cookie req session_cookie = Inr (Some c) \<and> utf8_valid c \<and> parse_u64 c = Some v)"

lemma validate_session_core:
  "validate_session req refresh t s = Inr (True, s') \<longleftrightarrow>
    session_token s \<noteq> 0 \<and> carries_session (session_token s) req \<and> unat t \<le> unat (created s) + 900 \<and>
    s' = (if refresh then s\<lparr>created := ucast t\<rparr> else s)"
  by (auto simp: validate_session_def carries_session_def Let_def validate_expired from_utf8_def
      split: sum.splits option.splits bind_splits if_splits)

lemma validate_false:
  assumes "validate_session req refresh t s = Inr (False, s')"
  shows "s' = (if session_token s \<noteq> 0 \<and> carries_session (session_token s) req \<and> unat (created s) + 900 < unat t
    then s\<lparr>token_hi := 0, token_lo := 0\<rparr> else s)"
  using assms
  by (auto simp: validate_session_def carries_session_def Let_def validate_expired from_utf8_def
      split: sum.splits option.splits bind_splits if_splits)

lemma validate_panics:
  "validate_session req refresh t s = Inl p \<longleftrightarrow>
    session_token s \<noteq> 0 \<and> extract_cookie req session_cookie = Inl p"
  by (auto simp: validate_session_def Let_def split: sum.splits option.splits if_splits)

lemma validate_closed: "session_token s = 0 \<Longrightarrow> validate_session req refresh t s = Inr (False, s)"
  by (simp add: validate_session_def)

section \<open>Logging in\<close>

lemma unat_ucast_time: "unat (t :: u64) < 2 ^ 32 \<Longrightarrow> unat (ucast t :: u32) = unat t"
  by (simp add: unsigned_ucast_eq take_bit_nat_eq_self)

context fixed_capacity
begin

lemma redirect_fits:
  "write_pieces ext 256 [] [redirect_head, dec_digits (unat (v :: u64)), redirect_tail]
    = redirect_head @ dec_digits (unat v) @ redirect_tail"
proof -
  have "unat v < 18446744073709551616" by (rule order_less_le_trans [OF unsigned_less]) simp
  then have "length (dec_digits (unat v)) \<le> Suc 19" by (intro length_dec_digits) simp
  moreover have "length redirect_head = 48" "length redirect_tail = 85" by code_simp+
  ultimately show ?thesis by (subst write_pieces_fits) auto
qed

end

text \<open>A request that carries the cookie of a login, with any further header lines after it.\<close>

definition session_request :: "bytes \<Rightarrow> bytes \<Rightarrow> u64 \<Rightarrow> bytes list \<Rightarrow> bytes \<Rightarrow> bytes" where
  "session_request m p token hs b =
    request_head (request_line m p # cookie_header (dec_digits (unat token)) # hs) @ b"

lemma session_request_cookie:
  assumes "plain_word m" and "plain_word p" and "no_cookie session_cookie (request_line m p)"
    and "\<forall>l\<in>set hs. 10 \<notin> set l"
  shows "extract_cookie (session_request m p token hs b) session_cookie = Inr (Some (dec_digits (unat token)))"
proof -
  let ?v = "dec_digits (unat token)"
  have d: "c \<notin> set ?v" if "c < 48 \<or> 57 < c" for c
    using that dec_digits_set [of c "unat token"] by auto
  have "10 \<notin> set (request_line m p)"
    using assms(1,2) [THEN plain_word_no_lf] by (simp add: request_line_def)
  moreover have "10 \<notin> set (cookie_header ?v)" using d [of 10] by (simp add: cookie_header_def)
  ultimately have "lines (session_request m p token hs b)
      = (request_line m p # cookie_header ?v # hs) @ [] # lines b"
    unfolding session_request_def using assms(4) by (intro lines_request) auto
  moreover have "cookie_loop session_cookie [cookie_header ?v] = Inr (Some ?v)"
    using d [of 59] by (intro cookie_header_found) simp_all
  ultimately show ?thesis
    using assms(3) by (simp add: extract_cookie_def no_cookie_def)
      (subst cookie_loop_Cons, simp, subst cookie_loop_Cons, simp)
qed

text \<open>
  C15: a login with the right credentials opens a session. Its answer is the redirect with the whole
  token, never cut off by the 256-byte buffer; a request that sends this cookie back within 900
  seconds is authenticated, and one that sends another number is not.
\<close>

theorem login_opens_session:
  assumes "fixed_capacity ext" and "\<not> login_is_locked t0 (fail_count s) (ucast (fail_last s))"
    and "login_credentials_match ext r expected"
    and "token = mint_session_token (seed + t1)" and "token \<noteq> 0" and "unat t2 < 2 ^ 32"
    and "plain_word m" and "plain_word p" and "no_cookie session_cookie (request_line m p)"
    and "\<forall>l\<in>set hs. 10 \<notin> set l"
  shows "\<exists>acts s1. handle_login ext r expected seed (t0, t1, t2) s = (acts, s1) \<and>
    sent acts = redirect_head @ dec_digits (unat token) @ redirect_tail \<and>
    (\<forall>t v s2. validate_session (session_request m p v hs b) refresh t s1 = Inr (True, s2) \<longleftrightarrow>
      v = token \<and> unat t \<le> unat t2 + 900 \<and> s2 = (if refresh then s1\<lparr>created := ucast t\<rparr> else s1))"
proof -
  define s1 where "s1 = (s\<lparr>fail_count := 0\<rparr>)\<lparr>token_hi := ucast (drop_bit 32 token),
      token_lo := ucast token, created := ucast t2\<rparr>"
  have "session_token s1 = session_token ((s\<lparr>fail_count := 0\<rparr>)\<lparr>token_hi := ucast (drop_bit 32 token), token_lo := ucast token\<rparr>)"
    by (simp add: s1_def session_token_def)
  then have tok: "session_token s1 = token" by (simp only: session_token_set)
  have cr: "unat (created s1) = unat t2" using assms(6) by (simp add: s1_def unat_ucast_time)
  have h: "handle_login ext r expected seed (t0, t1, t2) s =
      (send_and_close (redirect_head @ dec_digits (unat token) @ redirect_tail), s1)"
    using assms(2-4) fixed_capacity.redirect_fits [OF assms(1)]
    by (simp add: handle_login_def complete_login_def Let_def s1_def)
  have valid: "utf8_valid (dec_digits n)" for n by (rule ascii_valid) simp
  have "validate_session (session_request m p v hs b) refresh t s1 = Inr (True, s2) \<longleftrightarrow>
      v = token \<and> unat t \<le> unat t2 + 900 \<and> s2 = (if refresh then s1\<lparr>created := ucast t\<rparr> else s1)" for t v s2
    unfolding validate_session_core carries_session_def session_request_cookie [OF assms(7-10)] tok cr
    using assms(5) valid by (auto simp: parse_u64_token)
  with h show ?thesis by (simp add: socket_defs)
qed

definition sample_login :: parsed_request where
  "sample_login = parse_request (request_head [request_line (str ''POST'') (str ''/login'')] @ str ''user=op&pass=a%20b'')"

definition sample_token :: bytes where
  "sample_token = basic_token bounded_append (str ''op'') (str ''a b'')"

lemma login_match_body:
  "body r = Some b \<Longrightarrow> parse_login_form ext b = (Some u, Some p) \<Longrightarrow>
    login_credentials_match ext r expected \<longleftrightarrow> basic_token ext u p = expected"
  by (simp add: login_credentials_match_def)

lemma login_body:
  "body (parse_request (request_head [request_line (str ''POST'') (str ''/login'')] @ b)) = Some b"
  by (rule body_request [of "[request_line (str ''POST'') (str ''/login'')]"])
    (simp_all add: request_line_def parse_request_def Let_def split: prod.split)

lemma sample_login_matches: "login_credentials_match bounded_append sample_login sample_token"
proof -
  have "parse_login_form bounded_append (str ''user=op&pass=a%20b'') = (Some (str ''op''), Some (str ''a b''))"
    by code_simp
  from login_match_body [OF login_body this] show ?thesis
    by (simp only: sample_login_def sample_token_def)
qed

lemma sample_words: "plain_word (str ''GET'')" "plain_word (str ''/'')" "plain_word (str ''/state'')"
  "no_cookie session_cookie (request_line (str ''GET'') (str ''/''))"
  by code_simp+

theorem login_opens_session_witness:
  "\<exists>acts s1. handle_login bounded_append sample_login sample_token 7 (100, 100, 100) boot_session = (acts, s1) \<and>
    (\<exists>s2. validate_session (session_request (str ''GET'') (str ''/'') (mint_session_token 107) [] []) True 1000 s1
      = Inr (True, s2)) \<and>
    \<not> (\<exists>s2. validate_session (session_request (str ''GET'') (str ''/'') (mint_session_token 107) [] []) True 1001 s1
      = Inr (True, s2))"
proof -
  have "\<not> login_is_locked 100 (fail_count boot_session) (ucast (fail_last boot_session))"
    by (simp add: login_is_locked_def boot_session_def LOGIN_MAX_FAILS_def)
  moreover have "mint_session_token 107 = mint_session_token (7 + 100)" "mint_session_token 107 \<noteq> 0"
    by (simp_all add: mint_session_token_def)
  ultimately show ?thesis
    using login_opens_session [OF bounded_capacity _ sample_login_matches, of 100 boot_session
        "mint_session_token 107" 7 100 100 "str ''GET''" "str ''/''" "[]" "[]" True] sample_words
    by fastforce
qed

section \<open>How fast passwords can be guessed\<close>

text \<open>
  A run of login requests, right and wrong ones in any order, with the readings of their clocks;
  \<open>compared\<close> are the attempts whose credentials were really compared, that is, not turned away by
  the lock: when that was, and whether they were right.
\<close>

type_synonym attempt = "parsed_request \<times> u64 \<times> u64 \<times> u64"

fun compared :: "heapless \<Rightarrow> bytes \<Rightarrow> u64 \<Rightarrow> attempt list \<Rightarrow> session \<Rightarrow> (nat \<times> bool) list" where
  "compared ext expected seed [] s = []"
| "compared ext expected seed ((r, t0, t1, t2) # as) s =
    (let later = compared ext expected seed as (snd (handle_login ext r expected seed (t0, t1, t2) s)) in
     if login_is_locked t0 (fail_count s) (ucast (fail_last s)) then later
     else (unat t0, login_credentials_match ext r expected) # later)"

text \<open>The clock does not run backwards, nor past the 32 bits the counter's time is kept in.\<close>

fun clock_runs :: "nat \<Rightarrow> attempt list \<Rightarrow> bool" where
  "clock_runs t [] \<longleftrightarrow> True"
| "clock_runs t ((r, t0, t1, t2) # as) \<longleftrightarrow>
    t \<le> unat t0 \<and> t0 \<le> t1 \<and> unat t1 < 2 ^ 32 \<and> clock_runs (unat t1) as"

lemma clock_runs_mono: "clock_runs t as \<Longrightarrow> t' \<le> t \<Longrightarrow> clock_runs t' as"
  by (cases as) auto

lemma compared_times:
  "clock_runs t as \<Longrightarrow> (\<forall>x\<in>set (compared ext expected seed as s). t \<le> fst x) \<and>
    sorted (map fst (compared ext expected seed as s))"
proof (induction as arbitrary: t s)
  case (Cons a as)
  obtain r t0 t1 t2 where a: "a = (r, t0, t1, t2)" by (cases a)
  let ?later = "compared ext expected seed as (snd (handle_login ext r expected seed (t0, t1, t2) s))"
  have o: "t \<le> unat t0" "unat t0 \<le> unat t1" "clock_runs (unat t1) as"
    using Cons.prems by (auto simp: a word_le_nat_alt)
  have later: "\<forall>x\<in>set ?later. unat t1 \<le> fst x" "sorted (map fst ?later)"
    using Cons.IH [OF o(3)] by blast+
  then have "\<forall>x\<in>set ?later. unat t0 \<le> fst x" "\<forall>x\<in>set ?later. t \<le> fst x"
    using o(1,2) by fastforce+
  with o(1) later(2) show ?case by (simp add: a Let_def)
qed simp

text \<open>Six compared attempts in a row that are all wrong.\<close>

definition six_wrong :: "(nat \<times> bool) list \<Rightarrow> nat \<Rightarrow> bool" where
  "six_wrong cs i \<longleftrightarrow> i + 5 < length cs \<and> (\<forall>k\<le>5. \<not> snd (cs ! (i + k)))"

definition spaced :: "(nat \<times> bool) list \<Rightarrow> bool" where
  "spaced cs \<longleftrightarrow> (\<forall>i. six_wrong cs i \<longrightarrow> fst (cs ! i) + 60 \<le> fst (cs ! (i + 5)))"

lemma spaced_Cons:
  assumes "spaced cs" and "six_wrong (c # cs) 0 \<Longrightarrow> fst c + 60 \<le> fst (cs ! 4)"
  shows "spaced (c # cs)"
  unfolding spaced_def
proof (intro allI impI)
  fix i
  assume w: "six_wrong (c # cs) i"
  show "fst ((c # cs) ! i) + 60 \<le> fst ((c # cs) ! (i + 5))"
  proof (cases i)
    case 0
    with assms(2) w show ?thesis by simp
  next
    case (Suc j)
    with w have "six_wrong cs j" by (auto simp: six_wrong_def)
    with assms(1) Suc show ?thesis by (simp add: spaced_def add.commute [of _ 5])
  qed
qed

text \<open>With \<open>c\<close> failures counted, the wrong attempt after \<open>5 - c\<close> more wrong ones comes at least 60 seconds later.\<close>

lemma guesses_spaced:
  fixes ext :: heapless and expected :: bytes and seed :: u64
  assumes "clock_runs (unat (fail_last s)) as" and "unat (fail_count s) \<le> 5"
  defines "cs \<equiv> compared ext expected seed as s" and "n \<equiv> 5 - unat (fail_count s)"
  shows "spaced cs \<and> (n < length cs \<and> (\<forall>k\<le>n. \<not> snd (cs ! k)) \<longrightarrow> unat (fail_last s) + 60 \<le> fst (cs ! n))"
  using assms(1,2) unfolding cs_def n_def
proof (induction as arbitrary: s)
  case (Cons a as)
  obtain r t0 t1 t2 where a: "a = (r, t0, t1, t2)" by (cases a)
  define s' where "s' = snd (handle_login ext r expected seed (t0, t1, t2) s)"
  let ?cs = "compared ext expected seed as s'" and ?ok = "login_credentials_match ext r expected"
  let ?c = "if fail_count s \<ge> LOGIN_MAX_FAILS then 0 else fail_count s"
  have o: "unat (fail_last s) \<le> unat t0" "unat t0 \<le> unat t1" "unat t1 < 2 ^ 32" "clock_runs (unat t1) as"
    using Cons.prems(1) by (auto simp: a word_le_nat_alt)
  then have o': "clock_runs (unat (fail_last s)) as" by (auto intro: clock_runs_mono)
  show ?case
  proof (cases "login_is_locked t0 (fail_count s) (ucast (fail_last s))")
    case True
    then have "compared ext expected seed (a # as) s = compared ext expected seed as s"
      by (simp add: a handle_login_def Let_def)
    then show ?thesis using Cons.IH [OF o' Cons.prems(2)] by simp
  next
    case open_: False
    then have g: "compared ext expected seed (a # as) s = (unat t0, ?ok) # ?cs"
      by (simp add: a s'_def Let_def)
    show ?thesis
    proof (cases ?ok)
      case True
      then have "fail_last s' = fail_last s" "fail_count s' = 0"
        using open_ by (auto simp: s'_def handle_login_def complete_login_def Let_def)
      then have "spaced ?cs" using Cons.IH [of s'] o' by simp
      then have "spaced ((unat t0, ?ok) # ?cs)"
        using True by (intro spaced_Cons) (auto simp: six_wrong_def)
      then show ?thesis unfolding g using True by fastforce
    next
      case False
      with open_ have s': "fail_last s' = ucast t1" "fail_count s' = ?c + 1"
        by (auto simp: s'_def handle_login_def reject_login_def Let_def)
      have c: "unat (fail_count s') = unat ?c + 1" "unat ?c \<le> 4"
        using Cons.prems(2) unfolding s' by (auto simp: LOGIN_MAX_FAILS_def word_le_nat_alt unat_word_ariths)
      have last: "unat (fail_last s') = unat t1" using o(3) by (simp add: s' unat_ucast_time)
      have IH: "spaced ?cs" "4 - unat ?c < length ?cs \<Longrightarrow> \<forall>k\<le>4 - unat ?c. \<not> snd (?cs ! k) \<Longrightarrow>
          unat t1 + 60 \<le> fst (?cs ! (4 - unat ?c))"
        using Cons.IH [of s'] o(4) c last by auto
      have "unat t0 + 60 \<le> fst (?cs ! 4)" if "six_wrong ((unat t0, ?ok) # ?cs) 0"
      proof -
        have len: "4 < length ?cs" using that by (simp add: six_wrong_def)
        have wrong: "\<not> snd (?cs ! k)" if "k \<le> 4" for k
          using \<open>six_wrong _ 0\<close> that unfolding six_wrong_def by (metis Suc_le_mono add_0 eval_nat_numeral(3) nth_Cons_Suc)
        have "unat t1 + 60 \<le> fst (?cs ! (4 - unat ?c))" using IH(2) len wrong by simp
        also have "\<dots> \<le> fst (?cs ! 4)"
          using compared_times [OF o(4), of ext expected seed s'] len
            sorted_nth_mono [of "map fst ?cs" "4 - unat ?c" 4] by simp
        finally show ?thesis using o(2) by simp
      qed
      then have "spaced ((unat t0, ?ok) # ?cs)" using IH(1) by (intro spaced_Cons) auto
      moreover have "unat (fail_last s) + 60 \<le> fst (((unat t0, ?ok) # ?cs) ! (5 - unat (fail_count s)))"
        if n: "5 - unat (fail_count s) < length ((unat t0, ?ok) # ?cs)"
          and wrong: "\<forall>k\<le>5 - unat (fail_count s). \<not> snd (((unat t0, ?ok) # ?cs) ! k)"
      proof (cases "fail_count s \<ge> LOGIN_MAX_FAILS")
        case True
        then have "unat (fail_count s) = 5"
          using Cons.prems(2) by (simp add: LOGIN_MAX_FAILS_def word_le_nat_alt)
        moreover have "unat (fail_last s) + 60 \<le> unat t0"
          using open_ True by (simp add: login_is_locked_def saturating_sub_less LOGIN_LOCKOUT_SECS_def)
        ultimately show ?thesis by simp
      next
        case False
        then have e: "5 - unat (fail_count s) = Suc (4 - unat ?c)" using c(2) by simp
        then have "\<not> snd (?cs ! k)" if "k \<le> 4 - unat ?c" for k
          using wrong that by (metis Suc_le_mono nth_Cons_Suc)
        then show ?thesis using IH(2) n o unfolding e by simp
      qed
      ultimately show ?thesis unfolding g by blast
    qed
  qed
qed (simp add: spaced_def six_wrong_def)

text \<open>
  C6: passwords cannot be guessed fast. In any run of logins, right and wrong ones in any order, of six
  attempts that were compared one after the other and were all wrong, the last comes at least 60
  seconds after the first. A right password in between clears the counter, as the code means it
  to; one that comes during the lock is not even compared. This holds from boot on and from any
  state the counter can be in.
\<close>

theorem guessing_is_limited:
  assumes "clock_runs (unat (fail_last s)) as" and "unat (fail_count s) \<le> 5"
    and "i + 5 < length (compared ext expected seed as s)"
    and "\<forall>k\<le>5. \<not> snd (compared ext expected seed as s ! (i + k))"
  shows "fst (compared ext expected seed as s ! i) + 60 \<le> fst (compared ext expected seed as s ! (i + 5))"
  using guesses_spaced [OF assms(1,2)] assms(3,4) by (simp add: spaced_def six_wrong_def)

definition wrong_login :: parsed_request where
  "wrong_login = parse_request (request_head [request_line (str ''POST'') (str ''/login'')] @ str ''user=op&pass=x'')"

lemma wrong_login_fails: "\<not> login_credentials_match bounded_append wrong_login sample_token"
proof -
  have "parse_login_form bounded_append (str ''user=op&pass=x'') = (Some (str ''op''), Some (str ''x''))"
    by code_simp
  moreover have "basic_token bounded_append (str ''op'') (str ''x'') \<noteq> sample_token" by code_simp
  ultimately show ?thesis
    using login_match_body [OF login_body] unfolding wrong_login_def by blast
qed

text \<open>Four wrong attempts and a right one, then five wrong ones, two in the lock, and one after it.\<close>

definition mixed_attempts :: "attempt list" where
  "mixed_attempts = map (\<lambda>t. (wrong_login, t, t, t)) [1, 2, 3, 4] @ [(sample_login, 5, 5, 5)] @
     map (\<lambda>t. (wrong_login, t, t, t)) [6, 7, 8, 9, 10] @ [(sample_login, 40, 40, 40)] @
     map (\<lambda>t. (wrong_login, t, t, t)) [69, 70]"

theorem guessing_is_limited_witness:
  "compared bounded_append sample_token 7 mixed_attempts boot_session =
      [(1, False), (2, False), (3, False), (4, False), (5, True),
       (6, False), (7, False), (8, False), (9, False), (10, False), (70, False)] \<and>
    (6 :: nat) + 60 \<le> 70"
proof -
  let ?cs = "[(1, False), (2, False), (3, False), (4, False), (5, True),
       (6, False), (7, False), (8, False), (9, False), (10, False), (70, False)]"
  have w: "\<not> login_credentials_match bounded_append wrong_login sample_token" by (rule wrong_login_fails)
  have g: "compared bounded_append sample_token 7 mixed_attempts boot_session = ?cs"
    by (simp add: mixed_attempts_def handle_login_def reject_login_def complete_login_def login_is_locked_def
        saturating_sub_def boot_session_def LOGIN_MAX_FAILS_def LOGIN_LOCKOUT_SECS_def Let_def w
        sample_login_matches word_le_nat_alt word_less_nat_alt)
  have c: "clock_runs (unat (fail_last boot_session)) mixed_attempts" "unat (fail_count boot_session) \<le> 5"
    by (simp_all add: mixed_attempts_def boot_session_def word_le_nat_alt)
  have "k \<in> {0, 1, 2, 3, 4, 5}" if "k \<le> 5" for k :: nat using that by auto
  then have "\<forall>k\<le>5. \<not> snd (?cs ! (5 + k))" by fastforce
  then show ?thesis
    using guessing_is_limited [OF c, of 5 bounded_append sample_token 7, unfolded g] g by simp
qed

end
