(* ===== verification/Web_Pages.thy ===== *)
theory Web_Pages
  imports Web_Socket Web_Form Net_Config Outputs Fault_Marker "HOL-Library.Sublist"
begin

text \<open>
  The pages of \<open>src/web.rs\<close>: the numbers and addresses it formats, the JSON of \<open>/state\<close> and the
  dashboard of \<open>/\<close>, written to the socket in the order of the code. What a page shows of the
  device is an argument: the outputs, the link, the MQTT flag, the uptime.
\<close>

section \<open>Numbers and addresses\<close>

definition push_u8_dec :: "heapless \<Rightarrow> nat \<Rightarrow> bytes \<Rightarrow> u8 \<Rightarrow> bytes" where
  "push_u8_dec ext N buf v = write_pieces ext N buf [dec_digits (unat v)]"

definition push_u16_dec :: "heapless \<Rightarrow> nat \<Rightarrow> bytes \<Rightarrow> u16 \<Rightarrow> bytes" where
  "push_u16_dec ext N buf v = write_pieces ext N buf [dec_digits (unat v)]"

fun fmt_ipv4 :: "heapless \<Rightarrow> ipv4 \<Rightarrow> bytes" where
  "fmt_ipv4 ext (a, b, c, d) =
    (let s = push_u8_dec ext 16 [] a;
         s = try_append ext 16 s [46];
         s = push_u8_dec ext 16 s b;
         s = try_append ext 16 s [46];
         s = push_u8_dec ext 16 s c;
         s = try_append ext 16 s [46]
     in push_u8_dec ext 16 s d)"

definition fmt_u8 :: "heapless \<Rightarrow> u8 \<Rightarrow> bytes" where
  "fmt_u8 ext v = push_u8_dec ext 4 [] v"

definition fmt_u16 :: "heapless \<Rightarrow> u16 \<Rightarrow> bytes" where
  "fmt_u16 ext v = push_u16_dec ext 6 [] v"

lemmas fmt_defs = push_u8_dec_def push_u16_dec_def fmt_u8_def fmt_u16_def

lemma length_dec_u8: "length (dec_digits (unat (v :: u8))) \<le> 3"
  using length_dec_digits [of "unat v" 2] unat_byte [of v] by simp

lemma length_dec_u16: "length (dec_digits (unat (v :: u16))) \<le> 5"
proof -
  have "unat v < 65536" by (rule order_less_le_trans [OF unsigned_less]) simp
  then show ?thesis using length_dec_digits [of "unat v" 4] by simp
qed

lemma length_dec_u64: "length (dec_digits (unat (v :: u64))) \<le> 20"
proof -
  have "unat v < 18446744073709551616" by (rule order_less_le_trans [OF unsigned_less]) simp
  then show ?thesis using length_dec_digits [of "unat v" 19] by simp
qed

definition dotted :: "ipv4 \<Rightarrow> bytes" where
  "dotted = (\<lambda>(a, b, c, d). join 46 (map (\<lambda>v. dec_digits (unat v)) [a, b, c, d]))"

lemma length_dotted: "length (dotted a) \<le> 15"
proof (cases a)
  case (fields p q r s)
  then show ?thesis
    using length_dec_u8 [of p] length_dec_u8 [of q] length_dec_u8 [of r] length_dec_u8 [of s]
    by (simp add: dotted_def)
qed

context fixed_capacity
begin

lemma fmt_ipv4_eq: "fmt_ipv4 ext a = dotted a"
proof (cases a)
  case (fields p q r s)
  then show ?thesis
    using length_dec_u8 [of p] length_dec_u8 [of q] length_dec_u8 [of r] length_dec_u8 [of s]
    by (simp add: fmt_defs append_eq try_append_eq dotted_def Let_def)
qed

lemma fmt_u8_eq: "fmt_u8 ext v = dec_digits (unat v)"
  using length_dec_u8 [of v] by (simp add: fmt_defs append_eq)

lemma fmt_u16_eq: "fmt_u16 ext v = dec_digits (unat v)"
  using length_dec_u16 [of v] by (simp add: fmt_defs append_eq)

end

lemma parse_u8_dec: "parse_u8 (dec_digits (unat (v :: u8))) = Some v"
proof -
  have "unat v \<le> 255" using unat_byte [of v] by linarith
  then show ?thesis by (simp add: parse_u8_def parse_uint_dec)
qed

lemma parse_port_dec: "v \<noteq> 0 \<Longrightarrow> parse_port (dec_digits (unat (v :: u16))) = Some v"
proof -
  have "unat v < 65536" by (rule order_less_le_trans [OF unsigned_less]) simp
  then show "v \<noteq> 0 \<Longrightarrow> ?thesis"
    by (simp add: parse_port_def parse_u16_def parse_uint_dec trim_no_ws)
qed

lemma parse_ipv4_dotted: "parse_ipv4 (dotted a) = Some a"
proof (cases a)
  case (fields p q r s)
  have "46 \<notin> set (dec_digits n)" for n using dec_digits_set [of 46 n] by auto
  then have "split_on 46 (dotted a) = map (\<lambda>v. dec_digits (unat v)) [p, q, r, s]"
    unfolding fields dotted_def prod.case by (intro split_on_join) auto
  then show ?thesis by (simp add: parse_ipv4_def parse_u8_dec fields)
qed

text \<open>
  Every address, prefix and port the page shows is complete, fits its buffer, and the form
  parsers read it back as the same value.
\<close>

lemma shown_fields_parse_back:
  assumes "fixed_capacity ext"
  shows "parse_ipv4 (fmt_ipv4 ext a) = Some a \<and> parse_u8 (fmt_u8 ext p) = Some p \<and>
    (parse_port (fmt_u16 ext v) = Some v \<longleftrightarrow> v \<noteq> 0)"
proof -
  note f = fixed_capacity.fmt_ipv4_eq [OF assms] fixed_capacity.fmt_u8_eq [OF assms]
    fixed_capacity.fmt_u16_eq [OF assms]
  have "parse_port (fmt_u16 ext v) = Some v \<Longrightarrow> v \<noteq> 0"
    by (auto simp: parse_port_def split: option.splits if_splits)
  then show ?thesis by (auto simp: f parse_ipv4_dotted parse_u8_dec parse_port_dec)
qed

section \<open>The state as JSON\<close>

text \<open>What the device shows: \<open>OUTPUTS\<close>, \<open>stack.is_link_up()\<close>, \<open>MQTT_ONLINE\<close>, the uptime.\<close>

record view =
  v_outputs :: shared_outputs
  v_link :: bool
  v_mqtt :: bool
  v_uptime :: u64

definition bit_dec :: "bool \<Rightarrow> bytes" where
  "bit_dec b = dec_digits (of_bool b)"

definition state_pieces :: "heapless \<Rightarrow> network_config \<Rightarrow> view \<Rightarrow> reset_reason \<Rightarrow> bytes list" where
  "state_pieces ext cfg v reset =
    [str ''{'' @ [34] @ str ''relay'' @ [34] @ str '':'', bit_dec (get_relay (v_outputs v)),
     str '','' @ [34] @ str ''led1'' @ [34] @ str '':'', bit_dec (get_led led_id.Led1 (v_outputs v)),
     str '','' @ [34] @ str ''led2'' @ [34] @ str '':'', bit_dec (get_led led_id.Led2 (v_outputs v)),
     str '','' @ [34] @ str ''link'' @ [34] @ str '':'', bit_dec (v_link v),
     str '','' @ [34] @ str ''mqtt'' @ [34] @ str '':'', bit_dec (v_mqtt v),
     str '','' @ [34] @ str ''up'' @ [34] @ str '':'', dec_digits (unat (v_uptime v)),
     str '','' @ [34] @ str ''ip'' @ [34] @ str '':'' @ [34], fmt_ipv4 ext (ip cfg),
     [34] @ str '','' @ [34] @ str ''rst'' @ [34] @ str '':'' @ [34], as_str reset,
     [34] @ str ''}'']"

definition send_state :: "heapless \<Rightarrow> network_config \<Rightarrow> view \<Rightarrow> reset_reason \<Rightarrow> action list" where
  "send_state ext cfg v reset =
    (let body = write_pieces ext 160 [] (state_pieces ext cfg v reset)
     in w HTTP_OK_JSON @ w body @ [Flush])"

section \<open>The dashboard\<close>

definition write_attr :: "heapless \<Rightarrow> bytes \<Rightarrow> action list" where
  "write_attr ext s = (case html_escape_attr ext 256 s of Inr escaped \<Rightarrow> w escaped | Inl _ \<Rightarrow> [])"

definition pill :: "bytes \<Rightarrow> bool \<Rightarrow> bytes \<Rightarrow> action list" where
  "pill pid on label =
    w (str ''<span class='pill '') @ w (if on then str ''on'' else str ''off'') @
    w ([39] @ str '' id='' @ [39]) @ w pid @ w ([39] @ str ''><span class='dot'></span>'') @ w label @
    w (str ''</span>'')"

definition keep_hint :: "bytes \<Rightarrow> bytes" where
  "keep_hint pass = (if pass = [] then [] else str ''leave blank to keep'')"

definition send_page :: "heapless \<Rightarrow> network_config \<Rightarrow> view \<Rightarrow> reset_reason \<Rightarrow> action list" where
  "send_page ext cfg v reset =
    (let relay_on = get_relay (v_outputs v);
         led1_on = get_led led_id.Led1 (v_outputs v);
         led2_on = get_led led_id.Led2 (v_outputs v);
         link_up = v_link v;
         mqtt_up = v_mqtt v;
         ip_s = fmt_ipv4 ext (ip cfg);
         gw = fmt_ipv4 ext (gateway cfg);
         bk = fmt_ipv4 ext (broker_ip cfg);
         port = fmt_u16 ext (broker_port cfg);
         prefix = fmt_u8 ext (prefix_len cfg)
     in w HTTP_OK @ w PAGE_HEAD @ w PAGE_TOPBAR @
        w (if link_up then UPLINK_NOMINAL else UPLINK_DOWN) @ w PAGE_CLOCK @ w PAGE_MAIN @
        w PAGE_SPECS @ w (as_str reset) @ w (str ''</div></div></div>'') @
        w (str ''<div class='grid'><div>'') @
        w PAGE_IO @ pill (str ''rp'') relay_on (if relay_on then str ''ON'' else str ''OFF'') @
        w PAGE_LED1 @ pill (str ''l1'') led1_on (str ''LED1'') @
        w PAGE_LED2 @ pill (str ''l2'') led2_on (str ''LED2'') @ w (str ''</div></div></div>'') @
        w PAGE_LINK @ pill (str ''lk'') link_up (if link_up then str ''Up'' else str ''Down'') @
        w PAGE_BROKER @ pill (str ''mq'') mqtt_up (if mqtt_up then str ''Online'' else str ''Offline'') @
        w PAGE_IP @ w ip_s @ w (str ''</span></div></div></div></div>'') @
        w PAGE_CONFIG @ w ip_s @ w PAGE_PREFIX @ w prefix @ w PAGE_GATEWAY @ w gw @
        w PAGE_MQTT @ w bk @ w PAGE_PORT @ w port @
        w PAGE_CLIENT @ write_attr ext (client_id cfg) @
        w PAGE_MUSER @ write_attr ext (mqtt_user cfg) @ w PAGE_MPASS @ w (keep_hint (mqtt_pass cfg)) @
        w PAGE_WUSER @ write_attr ext (web_user cfg) @ w PAGE_WPASS @ w (keep_hint (web_pass cfg)) @
        w PAGE_BUTTONS @ w PAGE_FOOT @ [Flush])"

lemma only_answers_w [simp]: "only_answers (w s)"
  by (simp add: w_def)

lemma only_answers_pages [simp]:
  "only_answers (write_attr ext s)" "only_answers (pill i on l)"
  by (auto simp: write_attr_def pill_def split: sum.splits)

lemma pages_answer: "only_answers (send_state ext cfg v r)" "only_answers (send_page ext cfg v r)"
  by (simp_all add: send_state_def send_page_def Let_def)

section \<open>What the pages say\<close>

lemma bit_dec_eq: "bit_dec b = (if b then [49] else [48])"
  by (simp add: bit_dec_def dec_digits.simps)

lemma length_as_str: "length (as_str r) \<le> 14"
  by (cases r) simp_all

text \<open>
  The JSON of \<open>/state\<close> always fits its 160-byte buffer, so the browser gets the whole object
  whatever the uptime, the address and the reset reason are.
\<close>

lemma state_json_complete:
  assumes "fixed_capacity ext"
  shows "sent (send_state ext cfg v reset) = HTTP_OK_JSON @ concat (state_pieces ext cfg v reset)"
proof -
  have "length (concat (state_pieces ext cfg v reset)) \<le> 160"
    using length_dec_u64 [of "v_uptime v"] length_dotted [of "ip cfg"] length_as_str [of reset]
    by (simp add: state_pieces_def bit_dec_eq fixed_capacity.fmt_ipv4_eq [OF assms] split del: if_split)
      (simp split: if_split)
  then show ?thesis
    by (simp add: send_state_def Let_def w_def fixed_capacity.write_pieces_fits [OF assms])
qed

definition sample_view :: view where
  "sample_view = \<lparr>v_outputs = Unheld None, v_link = True, v_mqtt = False, v_uptime = 18446744073709551615\<rparr>"

lemma write_attr_shown:
  assumes "fixed_capacity ext" and "wf_string N s" and "N \<le> 42"
  shows "\<exists>e. write_attr ext s = [Write e] \<and> attr_safe e \<and> html_unescape e = s"
proof -
  have "6 * length s \<le> 256" "utf8_valid s" using assms(2,3) by (auto simp: wf_string_def)
  then obtain e where "html_escape_attr ext 256 s = Inr e" "attr_safe e" "html_unescape e = s"
    using html_escape_correct [OF assms(1), of s 256] by blast
  then show ?thesis by (simp add: write_attr_def w_def)
qed

text \<open>The start of a form field up to its value, in the text of the page.\<close>

definition field_start :: "bytes \<Rightarrow> bytes" where
  "field_start name = str '' name='' @ [39] @ name @ [39] @ str '' value='' @ [39]"

lemma field_starts:
  "suffix (field_start (str ''id'')) PAGE_CLIENT" "suffix (field_start (str ''muser'')) PAGE_MUSER"
  "suffix (field_start (str ''wuser'')) PAGE_WUSER"
  "prefix [39] PAGE_MUSER" "prefix [39] PAGE_MPASS" "prefix [39] PAGE_WPASS"
  by code_simp+

text \<open>The part of the dashboard before the first name depends on no name and no password.\<close>

lemma common_start: "\<exists>A. \<forall>x. R x = A @ T x \<Longrightarrow> \<exists>A. \<forall>x. s @ R x = A @ T x"
proof -
  assume "\<exists>A. \<forall>x. R x = A @ T x"
  then obtain A where "\<forall>x. s @ R x = (s @ A) @ T x" by auto
  then show ?thesis by blast
qed

definition with_names :: "network_config \<Rightarrow> bytes \<times> bytes \<times> bytes \<times> bytes \<times> bytes \<Rightarrow> network_config" where
  "with_names cfg = (\<lambda>(cid, mu, mp, wu, wp).
    cfg\<lparr>client_id := cid, mqtt_user := mu, mqtt_pass := mp, web_user := wu, web_pass := wp\<rparr>)"

lemma with_names_net [simp]:
  "ip (with_names cfg n) = ip cfg" "gateway (with_names cfg n) = gateway cfg" "broker_ip (with_names cfg n) = broker_ip cfg"
  "broker_port (with_names cfg n) = broker_port cfg" "prefix_len (with_names cfg n) = prefix_len cfg"
  by (cases n; simp add: with_names_def)+

lemma send_page_text:
  "\<exists>A. \<forall>n. sent (send_page ext (with_names cfg n) v reset) = A @ PAGE_CLIENT @
    sent (write_attr ext (client_id (with_names cfg n))) @ PAGE_MUSER @
    sent (write_attr ext (mqtt_user (with_names cfg n))) @ PAGE_MPASS @ keep_hint (mqtt_pass (with_names cfg n)) @ PAGE_WUSER @
    sent (write_attr ext (web_user (with_names cfg n))) @ PAGE_WPASS @ keep_hint (web_pass (with_names cfg n)) @
    PAGE_BUTTONS @ PAGE_FOOT"
  unfolding send_page_def Let_def with_names_net
  by (simp only: sent_append append_assoc w_def pill_def sent_Cons action.case append_Nil append_Nil2)
    ((rule exI [of _ "[]"], simp only: append_Nil, rule allI, rule refl) | rule common_start)+

text \<open>
  C25: the dashboard's treatment of the stored strings. For a device's addresses and state its text is
  fixed but for three places, each the value of one form field, between its quotes: whatever the
  well-formed configuration's client id and user names are, there stands exactly each of them,
  never cut off or left out, in a spelling that cannot leave the quotes and that the browser
  decodes to the stored string. Nothing else depends on a name, and nothing at all on the
  passwords but whether they are set.
\<close>

theorem page_shows_names_hides_passwords:
  assumes "fixed_capacity ext"
  shows "\<exists>A B C D. suffix (field_start (str ''id'')) A \<and> prefix [39] B \<and> suffix (field_start (str ''muser'')) B \<and>
    prefix [39] C \<and> suffix (field_start (str ''wuser'')) C \<and> prefix [39] D \<and>
    (\<forall>cid mu mp wu wp. wf_config (with_names cfg (cid, mu, mp, wu, wp)) \<longrightarrow>
      (mp = [] \<longleftrightarrow> mqtt_pass cfg = []) \<longrightarrow> (wp = [] \<longleftrightarrow> web_pass cfg = []) \<longrightarrow>
      (\<exists>e1 e2 e3. sent (send_page ext (with_names cfg (cid, mu, mp, wu, wp)) v reset) = A @ e1 @ B @ e2 @ C @ e3 @ D \<and>
        (\<forall>(e, s)\<in>{(e1, cid), (e2, mu), (e3, wu)}. attr_safe e \<and> html_unescape e = s)))"
proof -
  obtain A where A: "\<And>n. sent (send_page ext (with_names cfg n) v reset) = A @ PAGE_CLIENT @
    sent (write_attr ext (client_id (with_names cfg n))) @ PAGE_MUSER @
    sent (write_attr ext (mqtt_user (with_names cfg n))) @ PAGE_MPASS @ keep_hint (mqtt_pass (with_names cfg n)) @ PAGE_WUSER @
    sent (write_attr ext (web_user (with_names cfg n))) @ PAGE_WPASS @ keep_hint (web_pass (with_names cfg n)) @
    PAGE_BUTTONS @ PAGE_FOOT"
    using send_page_text [of ext cfg v reset] by blast
  let ?C = "PAGE_MPASS @ keep_hint (mqtt_pass cfg) @ PAGE_WUSER"
    and ?D = "PAGE_WPASS @ keep_hint (web_pass cfg) @ PAGE_BUTTONS @ PAGE_FOOT"
  have page: "\<exists>e1 e2 e3. sent (send_page ext (with_names cfg (cid, mu, mp, wu, wp)) v reset)
      = (A @ PAGE_CLIENT) @ e1 @ PAGE_MUSER @ e2 @ ?C @ e3 @ ?D \<and>
      (\<forall>(e, s)\<in>{(e1, cid), (e2, mu), (e3, wu)}. attr_safe e \<and> html_unescape e = s)"
    if wf: "wf_config (with_names cfg (cid, mu, mp, wu, wp))"
      and blank: "mp = [] \<longleftrightarrow> mqtt_pass cfg = []" "wp = [] \<longleftrightarrow> web_pass cfg = []" for cid mu mp wu wp
  proof -
    have "wf_string 24 cid" "wf_string 32 mu" "wf_string 32 wu"
      using wf by (auto simp: with_names_def wf_config_def CRED_MAX_def)
    then obtain e1 e2 e3 where e: "write_attr ext cid = [Write e1]" "attr_safe e1" "html_unescape e1 = cid"
      "write_attr ext mu = [Write e2]" "attr_safe e2" "html_unescape e2 = mu"
      "write_attr ext wu = [Write e3]" "attr_safe e3" "html_unescape e3 = wu"
      using write_attr_shown [OF assms, of 24 cid] write_attr_shown [OF assms, of 32 mu]
        write_attr_shown [OF assms, of 32 wu] by auto
    have "keep_hint mp = keep_hint (mqtt_pass cfg)" "keep_hint wp = keep_hint (web_pass cfg)"
      using blank by (auto simp: keep_hint_def)
    then have "sent (send_page ext (with_names cfg (cid, mu, mp, wu, wp)) v reset)
        = (A @ PAGE_CLIENT) @ e1 @ PAGE_MUSER @ e2 @ ?C @ e3 @ ?D"
      using e by (simp add: A) (simp add: with_names_def)
    with e show ?thesis by blast
  qed
  have "suffix (field_start (str ''id'')) (A @ PAGE_CLIENT)" "suffix (field_start (str ''wuser'')) ?C"
    "prefix [39] ?C" "prefix [39] ?D"
    using field_starts by (auto simp flip: append_assoc intro: suffix_appendI prefix_prefix)
  note ends = this
  show ?thesis
    by (rule exI [of _ "A @ PAGE_CLIENT"], rule exI [of _ PAGE_MUSER], rule exI [of _ ?C], rule exI [of _ ?D])
      (intro conjI allI impI page ends field_starts(2,4))
qed

definition quoted_config :: network_config where
  "quoted_config = (default_config bounded_append)\<lparr>client_id := str ''it'' @ [39] @ str ''s <1>'', web_pass := str ''secret''\<rparr>"

theorem page_shows_names_hides_passwords_witness:
  "\<exists>A e D. sent (send_page bounded_append quoted_config sample_view PowerOn) = A @ e @ [39] @ D \<and>
    suffix (field_start (str ''id'')) A \<and> attr_safe e \<and> html_unescape e = str ''it'' @ [39] @ str ''s <1>''"
proof -
  let ?id = "str ''it'' @ [39] @ str ''s <1>''" and ?c = quoted_config
  have c: "with_names ?c (?id, [], [], [], str ''secret'') = ?c"
    by (simp add: quoted_config_def with_names_def default_config_def)
  have pre: "wf_config (with_names ?c (?id, [], [], [], str ''secret''))"
    "[] = [] \<longleftrightarrow> mqtt_pass ?c = []" "str ''secret'' = [] \<longleftrightarrow> web_pass ?c = []"
    unfolding c by code_simp (simp_all add: quoted_config_def default_config_def)
  obtain A B C D where s: "suffix (field_start (str ''id'')) A" "prefix [39] B" and
    page: "\<forall>cid mu mp wu wp. wf_config (with_names ?c (cid, mu, mp, wu, wp)) \<longrightarrow>
      (mp = [] \<longleftrightarrow> mqtt_pass ?c = []) \<longrightarrow> (wp = [] \<longleftrightarrow> web_pass ?c = []) \<longrightarrow>
      (\<exists>e1 e2 e3. sent (send_page bounded_append (with_names ?c (cid, mu, mp, wu, wp)) sample_view PowerOn)
          = A @ e1 @ B @ e2 @ C @ e3 @ D \<and>
        (\<forall>(e, s)\<in>{(e1, cid), (e2, mu), (e3, wu)}. attr_safe e \<and> html_unescape e = s))"
    using page_shows_names_hides_passwords [OF bounded_capacity, of ?c sample_view PowerOn]
    by (elim exE conjE) (rule that)
  from page [rule_format, OF pre] obtain e1 e2 e3 where
    e: "sent (send_page bounded_append ?c sample_view PowerOn) = A @ e1 @ B @ e2 @ C @ e3 @ D"
    "attr_safe e1" "html_unescape e1 = ?id" unfolding c by (elim exE conjE) simp
  obtain B' where "B = [39] @ B'" using s(2) by (auto simp: prefix_def)
  with e s(1) show ?thesis
    by (intro exI [of _ A] exI [of _ e1] exI [of _ "B' @ e2 @ C @ e3 @ D"]) simp
qed

end
