(* ===== verification/Config_Form.thy ===== *)
theory Config_Form
  imports Web_Pages
begin

text \<open>
  \<open>parse_form\<close> of \<open>src/web.rs\<close>: the submitted configuration form against the current configuration.
  Any bad field refuses the whole form; unknown keys are ignored, a repeated key keeps its last
  value, and an empty password keeps the stored one.
\<close>

section \<open>The code\<close>

text \<open>\<open>val.parse::<u8>().ok()?\<close> and the range check that keeps \<open>Ipv4Cidr::new\<close> from panicking.\<close>

definition parse_prefix :: "bytes \<Rightarrow> u8 option" where
  "parse_prefix v =
    (case parse_u8 v of
       None \<Rightarrow> None
     | Some p \<Rightarrow> if \<not> (1 \<le> p \<and> p \<le> 32) then None else Some p)"

definition result_ok :: "'e + 'a \<Rightarrow> 'a option" where
  "result_ok r = (case r of Inr x \<Rightarrow> Some x | Inl _ \<Rightarrow> None)"

text \<open>The \<open>match key\<close>, with the decoded value.\<close>

definition set_field ::
  "heapless \<Rightarrow> network_config \<Rightarrow> bytes \<Rightarrow> bytes \<Rightarrow> network_config \<Rightarrow> network_config option" where
  "set_field ext current key v cfg =
    (if key = str ''ip'' then map_option (\<lambda>a. cfg\<lparr>ip := a\<rparr>) (parse_ipv4 v)
     else if key = str ''prefix'' then map_option (\<lambda>p. cfg\<lparr>prefix_len := p\<rparr>) (parse_prefix v)
     else if key = str ''gw'' then map_option (\<lambda>a. cfg\<lparr>gateway := a\<rparr>) (parse_ipv4 v)
     else if key = str ''broker'' then map_option (\<lambda>a. cfg\<lparr>broker_ip := a\<rparr>) (parse_ipv4 v)
     else if key = str ''port'' then map_option (\<lambda>p. cfg\<lparr>broker_port := p\<rparr>) (parse_port v)
     else if key = str ''id'' then map_option (\<lambda>s. cfg\<lparr>client_id := s\<rparr>) (string_try_from ext 24 v)
     else if key = str ''muser'' then map_option (\<lambda>s. cfg\<lparr>mqtt_user := s\<rparr>) (string_try_from ext CRED_MAX v)
     else if key = str ''mpass'' then
       map_option (\<lambda>s. cfg\<lparr>mqtt_pass := s\<rparr>) (result_ok (secret_from_form ext CRED_MAX (mqtt_pass current) v))
     else if key = str ''wuser'' then map_option (\<lambda>s. cfg\<lparr>web_user := s\<rparr>) (string_try_from ext CRED_MAX v)
     else if key = str ''wpass'' then
       map_option (\<lambda>s. cfg\<lparr>web_pass := s\<rparr>) (result_ok (secret_from_form ext CRED_MAX (web_pass current) v))
     else Some cfg)"

text \<open>One \<open>key=value\<close> pair of the body.\<close>

definition form_pair ::
  "heapless \<Rightarrow> network_config \<Rightarrow> bytes \<Rightarrow> network_config \<Rightarrow> network_config option" where
  "form_pair ext current pair cfg =
    (let key = trim (split_key 61 pair); v = trim (split_value 61 pair) in
     case form_url_decode ext 64 v of
       Inl e \<Rightarrow> None
     | Inr v \<Rightarrow> set_field ext current key v cfg)"

definition parse_form :: "heapless \<Rightarrow> bytes \<Rightarrow> network_config \<Rightarrow> network_config option" where
  "parse_form ext b current = fold_option (form_pair ext current) (split_on 38 b) current"

lemma form_pair_eq:
  "trim (split_key 61 pair) = key \<Longrightarrow> trim (split_value 61 pair) = e \<Longrightarrow> form_url_decode ext 64 e = Inr v \<Longrightarrow>
    form_pair ext current pair cfg = set_field ext current key v cfg"
  by (simp add: form_pair_def)

section \<open>Accepted forms are well-formed\<close>

lemma parse_prefix_range: "parse_prefix v = Some p \<Longrightarrow> 1 \<le> p \<and> p \<le> 32"
  by (auto simp: parse_prefix_def split: option.splits if_splits)

lemma parse_port_nonzero: "parse_port v = Some p \<Longrightarrow> p \<noteq> 0"
  by (auto simp: parse_port_def split: option.splits if_splits)

context fixed_capacity
begin

lemma try_from_wf: "string_try_from ext N v = Some s \<Longrightarrow> wf_string M v \<Longrightarrow> wf_string N s"
  by (auto simp: try_from_eq wf_string_def split: if_splits)

lemma secret_wf:
  "result_ok (secret_from_form ext N cur v) = Some s \<Longrightarrow> wf_string M v \<Longrightarrow> wf_string N cur \<Longrightarrow> wf_string N s"
  by (auto simp: result_ok_def secret_from_form_def split: if_splits option.splits intro: try_from_wf)

lemma form_pair_wf:
  assumes "form_pair ext current pair cfg = Some cfg'" and "wf_config current" and "wf_config cfg"
  shows "wf_config cfg'"
proof -
  obtain v where v: "wf_string 64 v" and s: "set_field ext current (trim (split_key 61 pair)) v cfg = Some cfg'"
    using assms(1) by (auto simp: form_pair_def Let_def form_url_decode_eq split: sum.splits)
  show ?thesis
    using s assms(2,3) unfolding set_field_def
    by (simp only: split: if_split_asm)
      (auto simp: wf_config_def dest: parse_prefix_range parse_port_nonzero try_from_wf [OF _ v] secret_wf [OF _ v])
qed

lemma parse_form_wf: "parse_form ext b cur = Some c \<Longrightarrow> wf_config cur \<Longrightarrow> wf_config c"
  unfolding parse_form_def by (rule fold_option_invariant [where P = wf_config]) (blast intro: form_pair_wf)+

end

text \<open>
  C22: whatever body is posted, a configuration the form parser accepts is well-formed, so it
  survives the EEPROM image unchanged and boots: no prefix length outside 1..32, no zero port,
  no name or password with a NUL or longer than its slot gets through.
\<close>

theorem parse_form_keeps_wf:
  assumes "fixed_capacity ext" and "wf_config current" and "parse_form ext b current = Some c"
  shows "wf_config c \<and> from_bytes ext (to_bytes c) = Some c"
  using fixed_capacity.parse_form_wf [OF assms(1,3,2)] fixed_capacity.from_to_bytes [OF assms(1)] by blast

definition sample_form :: bytes where
  "sample_form = str ''prefix=16&id=lab%201&mpass=&wpass=x%26y''"

definition sample_saved :: network_config where
  "sample_saved = (default_config bounded_append)\<lparr>prefix_len := 16, client_id := str ''lab 1'',
    mqtt_pass := [], web_pass := str ''x&y''\<rparr>"

lemma sample_form_pairs:
  "split_on 38 sample_form = [str ''prefix=16'', str ''id=lab%201'', str ''mpass='', str ''wpass=x%26y'']"
  "form_pair bounded_append c (str ''prefix=16'') d = set_field bounded_append c (str ''prefix'') (str ''16'') d"
  "form_pair bounded_append c (str ''id=lab%201'') d = set_field bounded_append c (str ''id'') (str ''lab 1'') d"
  "form_pair bounded_append c (str ''mpass='') d = set_field bounded_append c (str ''mpass'') [] d"
  "form_pair bounded_append c (str ''wpass=x%26y'') d = set_field bounded_append c (str ''wpass'') (str ''x&y'') d"
proof -
  show "split_on 38 sample_form = [str ''prefix=16'', str ''id=lab%201'', str ''mpass='', str ''wpass=x%26y'']"
    by code_simp
qed ((rule form_pair_eq [where e = "str ''16''"]; code_simp),
    (rule form_pair_eq [where e = "str ''lab%201''"]; code_simp),
    (rule form_pair_eq [where e = "[]"]; code_simp),
    (rule form_pair_eq [where e = "str ''x%26y''"]; code_simp))

lemma sample_form_parses:
  "parse_form bounded_append sample_form (default_config bounded_append) = Some sample_saved"
proof -
  have "parse_prefix (str ''16'') = Some 16" by code_simp
  then show ?thesis
    unfolding parse_form_def sample_form_pairs fold_option.simps
    by (simp add: set_field_def secret_from_form_def string_try_from_def bounded_append_def CRED_MAX_def
        result_ok_def sample_saved_def default_config_def)
qed

theorem parse_form_keeps_wf_witness:
  "wf_config sample_saved \<and> from_bytes bounded_append (to_bytes sample_saved) = Some sample_saved"
  by (rule parse_form_keeps_wf [OF bounded_capacity hl.default_config_wf sample_form_parses])

section \<open>The page's own form\<close>

text \<open>
  A browser that submits the form as it was rendered sends each shown value in some spelling
  with neither white space nor an ampersand, and leaves the passwords empty.
\<close>

definition spells :: "bytes \<Rightarrow> bytes \<Rightarrow> bool" where
  "spells v e \<longleftrightarrow> form_encodes v e \<and> ascii e \<and> no_ws e \<and> 38 \<notin> set e"

definition pair_of :: "string \<Rightarrow> bytes \<Rightarrow> bytes" where
  "pair_of key e = str key @ 61 # e"

definition rendered_form :: "bytes list \<Rightarrow> bytes" where
  "rendered_form es =
    join 38 (map2 pair_of [''ip'', ''prefix'', ''gw'', ''broker'', ''port'', ''id'', ''muser'', ''mpass'',
      ''wuser'', ''wpass''] es)"

definition shown_values :: "heapless \<Rightarrow> network_config \<Rightarrow> bytes list" where
  "shown_values ext c =
    [fmt_ipv4 ext (ip c), fmt_u8 ext (prefix_len c), fmt_ipv4 ext (gateway c), fmt_ipv4 ext (broker_ip c),
     fmt_u16 ext (broker_port c), client_id c, mqtt_user c, [], web_user c, []]"

lemma wf_string_digits: "length s \<le> N \<Longrightarrow> \<forall>b\<in>set s. 46 \<le> b \<and> b \<le> 57 \<Longrightarrow> wf_string N s"
  by (force simp: wf_string_def ascii_def word_le_nat_alt word_less_nat_alt intro!: ascii_valid)

lemma wf_string_dec: "length (dec_digits n) \<le> N \<Longrightarrow> wf_string N (dec_digits n)"
  using dec_digits_set [of 0 n] by (auto simp: wf_string_def intro: ascii_valid)

lemma wf_string_dotted: "wf_string 64 (dotted a)"
proof (cases a)
  case (fields p q r s)
  have "0 \<notin> set (dec_digits n)" for n using dec_digits_set [of 0 n] by auto
  moreover have "ascii (dotted a)" by (simp add: dotted_def fields)
  ultimately show ?thesis
    using length_dotted [of a] by (auto simp: wf_string_def dotted_def fields intro: ascii_valid)
qed

context fixed_capacity
begin

lemma form_pair_spelled:
  assumes "spells v e" and "wf_string 64 v" and "61 \<notin> set (str key)" and "no_ws (str key)"
  shows "form_pair ext current (pair_of key e) cfg = set_field ext current (str key) v cfg"
proof (rule form_pair_eq)
  show "trim (split_key 61 (pair_of key e)) = str key"
    using assms(3,4) by (simp add: pair_of_def trim_no_ws)
  show "trim (split_value 61 (pair_of key e)) = e"
    using assms(1,3) by (simp add: pair_of_def trim_no_ws spells_def)
  show "form_url_decode ext 64 e = Inr v"
    using assms(1,2) by (simp add: form_url_decode_eq spells_def)
qed

lemma shown_fields_unchanged:
  assumes "wf_config c"
  shows "set_field ext c (str ''ip'') (dotted (ip c)) c = Some c"
    "set_field ext c (str ''prefix'') (dec_digits (unat (prefix_len c))) c = Some c"
    "set_field ext c (str ''gw'') (dotted (gateway c)) c = Some c"
    "set_field ext c (str ''broker'') (dotted (broker_ip c)) c = Some c"
    "set_field ext c (str ''port'') (dec_digits (unat (broker_port c))) c = Some c"
    "set_field ext c (str ''id'') (client_id c) c = Some c"
    "set_field ext c (str ''muser'') (mqtt_user c) c = Some c"
    "set_field ext c (str ''mpass'') [] c = Some c"
    "set_field ext c (str ''wuser'') (web_user c) c = Some c"
    "set_field ext c (str ''wpass'') [] c = Some c"
  using assms
  by (simp_all add: set_field_def parse_ipv4_dotted parse_prefix_def parse_u8_dec parse_port_dec inv_defs
      try_from_eq secret_from_form_def result_ok_def)

lemma rendered_form_unchanged:
  assumes "wf_config c" and "list_all2 spells (shown_values ext c) es"
  shows "parse_form ext (rendered_form es) c = Some c"
proof -
  obtain e1 e2 e3 e4 e5 e6 e7 e8 e9 e10 where es: "es = [e1, e2, e3, e4, e5, e6, e7, e8, e9, e10]"
    and sp: "spells (dotted (ip c)) e1" "spells (dec_digits (unat (prefix_len c))) e2"
      "spells (dotted (gateway c)) e3" "spells (dotted (broker_ip c)) e4"
      "spells (dec_digits (unat (broker_port c))) e5" "spells (client_id c) e6" "spells (mqtt_user c) e7"
      "spells [] e8" "spells (web_user c) e9" "spells [] e10"
    using assms(2) by (auto simp: shown_values_def list_all2_Cons1 fmt_ipv4_eq fmt_u8_eq fmt_u16_eq
        simp del: fmt_ipv4.simps)
  have wf: "wf_string 64 (dotted (ip c))" "wf_string 64 (dotted (gateway c))" "wf_string 64 (dotted (broker_ip c))"
    "wf_string 64 (dec_digits (unat (prefix_len c)))" "wf_string 64 (dec_digits (unat (broker_port c)))"
    "wf_string 64 (client_id c)" "wf_string 64 (mqtt_user c)" "wf_string 64 (web_user c)"
    using assms(1) length_dec_u8 [of "prefix_len c"] length_dec_u16 [of "broker_port c"]
    by (auto simp: wf_string_dotted wf_config_def CRED_MAX_def intro!: wf_string_dec elim: wf_string_mono)
      (auto simp: wf_string_def)
  have keys: "61 \<notin> set (str k) \<and> no_ws (str k) \<and> 38 \<notin> set (str k)"
    if "k \<in> {''ip'', ''prefix'', ''gw'', ''broker'', ''port'', ''id'', ''muser'', ''mpass'', ''wuser'', ''wpass''}" for k
    using that by (auto simp: no_ws_ascii)
  have amp: "38 \<notin> set e" if "spells v e" for v e using that by (simp add: spells_def)
  have "split_on 38 (rendered_form es) =
      map2 pair_of [''ip'', ''prefix'', ''gw'', ''broker'', ''port'', ''id'', ''muser'', ''mpass'', ''wuser'', ''wpass''] es"
    unfolding rendered_form_def es
    by (rule split_on_join) (use amp [OF sp(1)] amp [OF sp(2)] amp [OF sp(3)] amp [OF sp(4)] amp [OF sp(5)]
        amp [OF sp(6)] amp [OF sp(7)] amp [OF sp(8)] amp [OF sp(9)] amp [OF sp(10)] in \<open>auto simp: pair_of_def\<close>)
  then show ?thesis
    using keys shown_fields_unchanged [OF assms(1)]
    by (simp add: parse_form_def es form_pair_spelled [OF sp(1) wf(1)] form_pair_spelled [OF sp(2) wf(4)]
        form_pair_spelled [OF sp(3) wf(2)] form_pair_spelled [OF sp(4) wf(3)] form_pair_spelled [OF sp(5) wf(5)]
        form_pair_spelled [OF sp(6) wf(6)] form_pair_spelled [OF sp(7) wf(7)] form_pair_spelled [OF sp(8) wf_string_Nil]
        form_pair_spelled [OF sp(9) wf(8)] form_pair_spelled [OF sp(10) wf_string_Nil] del: str_Cons)
qed

end

text \<open>
  C24: submitting the page's form as it was rendered changes nothing: whatever spelling the browser
  uses for the values the page shows, with the password fields left empty, the parser gives the
  running configuration back, secrets included.
\<close>

theorem rendered_form_is_neutral:
  assumes "fixed_capacity ext" and "wf_config c" and "list_all2 spells (shown_values ext c) es"
  shows "parse_form ext (rendered_form es) c = Some c"
  using assms(2,3) by (rule fixed_capacity.rendered_form_unchanged [OF assms(1)])

lemma form_encodes_plain: "43 \<notin> set v \<Longrightarrow> 37 \<notin> set v \<Longrightarrow> form_encodes v v"
  by (induction v) (auto intro: form_encodes.intros)

lemma spells_plain: "ascii v \<Longrightarrow> no_ws v \<Longrightarrow> {37, 38, 43} \<inter> set v = {} \<Longrightarrow> spells v v"
  by (auto simp: spells_def intro: form_encodes_plain)

theorem rendered_form_is_neutral_witness:
  "parse_form bounded_append (rendered_form [str ''192.168.137.2'', str ''24'', str ''192.168.137.1'',
      str ''192.168.137.1'', str ''1883'', str ''stm32%2Djzf407'', [], [], [], []]) (default_config bounded_append)
    = Some (default_config bounded_append)"
proof -
  have v: "shown_values bounded_append (default_config bounded_append) = [str ''192.168.137.2'', str ''24'',
      str ''192.168.137.1'', str ''192.168.137.1'', str ''1883'', str ''stm32-jzf407'', [], [], [], []]"
    by code_simp
  have "form_url_decode bounded_append 64 (str ''stm32%2Djzf407'') = Inr (str ''stm32-jzf407'')" by code_simp
  then have "spells (str ''stm32-jzf407'') (str ''stm32%2Djzf407'')"
    unfolding hl.form_url_decode_eq spells_def by (simp add: no_ws_ascii)
  then have "list_all2 spells (shown_values bounded_append (default_config bounded_append))
      [str ''192.168.137.2'', str ''24'', str ''192.168.137.1'', str ''192.168.137.1'', str ''1883'',
       str ''stm32%2Djzf407'', [], [], [], []]"
    unfolding v by (simp add: spells_plain no_ws_ascii)
  from rendered_form_is_neutral [OF bounded_capacity hl.default_config_wf this] show ?thesis .
qed

end
