(* ===== verification/Sse.thy ===== *)
theory Sse
  imports Web_Pages
begin

text \<open>
  \<open>src/sse.rs\<close>: the event stream of the dashboard. The state is sampled every 150 ms and pushed
  when it differs from the last push; a comment line keeps an idle stream alive. Each round of
  the loop gets what the code reads in it: the sample, the clock, and whether its one write
  succeeds. Times of the clock are in milliseconds.
\<close>

section \<open>Snapshots\<close>

record snapshot =
  s_relay :: bool
  s_led1 :: bool
  s_led2 :: bool
  s_link :: bool
  s_mqtt :: bool

definition sample :: "view \<Rightarrow> snapshot" where
  "sample v =
    \<lparr>s_relay = get_relay (v_outputs v), s_led1 = get_led led_id.Led1 (v_outputs v),
     s_led2 = get_led led_id.Led2 (v_outputs v), s_link = v_link v, s_mqtt = v_mqtt v\<rparr>"

definition event_pieces :: "snapshot \<Rightarrow> u64 \<Rightarrow> bytes list" where
  "event_pieces s up =
    [str ''data: {'' @ [34] @ str ''relay'' @ [34] @ str '':'', bit_dec (s_relay s),
     str '','' @ [34] @ str ''led1'' @ [34] @ str '':'', bit_dec (s_led1 s),
     str '','' @ [34] @ str ''led2'' @ [34] @ str '':'', bit_dec (s_led2 s),
     str '','' @ [34] @ str ''link'' @ [34] @ str '':'', bit_dec (s_link s),
     str '','' @ [34] @ str ''mqtt'' @ [34] @ str '':'', bit_dec (s_mqtt s),
     str '','' @ [34] @ str ''up'' @ [34] @ str '':'', dec_digits (unat up),
     str ''}'' @ [10, 10]]"

text \<open>\<open>write_event\<close> into the cleared buffer of 128 bytes.\<close>

definition write_event :: "heapless \<Rightarrow> snapshot \<Rightarrow> u64 \<Rightarrow> bytes" where
  "write_event ext s up = write_pieces ext 128 [] (event_pieces s up)"

section \<open>The stream\<close>

definition POLL_MS :: nat where "POLL_MS = 150"
definition KEEPALIVE_MS :: nat where "KEEPALIVE_MS = 15000"

definition keepalive :: bytes where
  "keepalive = str '': keepalive'' @ [10, 10]"

record sse_round =
  r_now :: snapshot
  r_uptime :: u64
  r_check :: nat
  r_after :: nat
  r_write_ok :: bool

fun sse_loop :: "heapless \<Rightarrow> snapshot \<Rightarrow> nat \<Rightarrow> sse_round list \<Rightarrow> action list" where
  "sse_loop ext shown next_keepalive [] = []"
| "sse_loop ext shown next_keepalive (r # rs) =
    Sleep POLL_MS #
    (if r_now r \<noteq> shown then
       Write (write_event ext (r_now r) (r_uptime r)) #
       (if \<not> r_write_ok r then []
        else Flush # sse_loop ext (r_now r) (r_after r + KEEPALIVE_MS) rs)
     else if next_keepalive \<le> r_check r then
       Write keepalive #
       (if \<not> r_write_ok r then []
        else Flush # sse_loop ext shown (r_after r + KEEPALIVE_MS) rs)
     else sse_loop ext shown next_keepalive rs)"

text \<open>\<open>serve_events\<close>: the head, the first event, then the loop; a failed write ends it.\<close>

definition serve_events ::
  "heapless \<Rightarrow> bool \<Rightarrow> snapshot \<Rightarrow> u64 \<Rightarrow> bool \<Rightarrow> nat \<Rightarrow> sse_round list \<Rightarrow> action list" where
  "serve_events ext head_ok first up first_ok t rs =
    Write SSE_HEAD #
    (if \<not> head_ok then []
     else Write (write_event ext first up) #
       (if \<not> first_ok then [] else Flush # sse_loop ext first (t + KEEPALIVE_MS) rs))"

section \<open>What the browser sees\<close>

context fixed_capacity
begin

lemma write_event_eq: "write_event ext s up = concat (event_pieces s up)"
  using length_dec_u64 [of up]
  by (simp add: write_event_def event_pieces_def write_pieces_fits bit_dec_eq split del: if_split)
    (simp add: append_eq split: if_split)

end

text \<open>The writes of the loop that are not keep-alives, and the rounds in which the state changed.\<close>

definition events :: "action list \<Rightarrow> bytes list" where
  "events as = concat (map (\<lambda>a. case a of Write b \<Rightarrow> if b = keepalive then [] else [b] | _ \<Rightarrow> []) as)"

fun changes :: "snapshot \<Rightarrow> sse_round list \<Rightarrow> sse_round list" where
  "changes shown [] = []"
| "changes shown (r # rs) = (if r_now r \<noteq> shown then r # changes (r_now r) rs else changes shown rs)"

lemma changes_remdups: "map r_now (changes s rs) = tl (remdups_adj (s # map r_now rs))"
  by (induction rs arbitrary: s) auto

lemma events_simps [simp]:
  "events [] = []" "events (Sleep n # as) = events as" "events (Flush # as) = events as"
  "events (Write b # as) = (if b = keepalive then [] else [b]) @ events as"
  by (simp_all add: events_def)

lemma event_not_keepalive: "concat (event_pieces s up) \<noteq> keepalive"
  by (simp add: event_pieces_def keepalive_def)

abbreviation event_text :: "sse_round \<Rightarrow> bytes" where
  "event_text r \<equiv> concat (event_pieces (r_now r) (r_uptime r))"

context fixed_capacity
begin

lemma sse_loop_events:
  "\<exists>n. events (sse_loop ext shown k rs) = take n (map event_text (changes shown rs)) \<and>
    ((\<forall>r\<in>set rs. r_write_ok r) \<longrightarrow> length (changes shown rs) \<le> n)"
proof (induction rs arbitrary: shown k)
  case (Cons r rs)
  show ?case
  proof (cases "r_now r = shown")
    case True
    show ?thesis
    proof (cases "k \<le> r_check r \<and> \<not> r_write_ok r")
      case True
      with \<open>r_now r = shown\<close> show ?thesis by (intro exI [of _ 0]) auto
    next
      case False
      with \<open>r_now r = shown\<close> obtain k' where "events (sse_loop ext shown k (r # rs)) = events (sse_loop ext shown k' rs)"
        by (cases "k \<le> r_check r") auto
      with Cons.IH [of shown k'] \<open>r_now r = shown\<close> show ?thesis by auto
    qed
  next
    case change: False
    show ?thesis
    proof (cases "r_write_ok r")
      case True
      obtain n where n: "events (sse_loop ext (r_now r) (r_after r + KEEPALIVE_MS) rs)
            = take n (map event_text (changes (r_now r) rs))"
          "(\<forall>r\<in>set rs. r_write_ok r) \<longrightarrow> length (changes (r_now r) rs) \<le> n"
        using Cons.IH by blast
      with True change show ?thesis
        by (intro exI [of _ "Suc n"]) (auto simp: write_event_eq event_not_keepalive)
    next
      case False
      with change show ?thesis
        by (intro exI [of _ 1]) (auto simp: write_event_eq event_not_keepalive)
    qed
  qed
qed simp

end

text \<open>
  C31: the stream pushes the state at its start and then every change, once, in order and as a
  complete JSON event that always fits the 128-byte buffer: with every write succeeding, the
  pushed snapshots are the samples without adjacent repetitions; a failed write only cuts this
  sequence short.
\<close>

theorem stream_pushes_each_change:
  assumes "fixed_capacity ext"
  shows "\<exists>n. events (sse_loop ext first k rs) = take n (map event_text (changes first rs)) \<and>
    ((\<forall>r\<in>set rs. r_write_ok r) \<longrightarrow>
      events (serve_events ext True first up True t rs)
        = SSE_HEAD # concat (event_pieces first up) # map event_text (changes first rs)) \<and>
    map r_now (changes first rs) = tl (remdups_adj (first # map r_now rs))"
proof -
  have h: "SSE_HEAD \<noteq> keepalive" by (simp add: SSE_HEAD_def keepalive_def)
  have "events (sse_loop ext first (t + KEEPALIVE_MS) rs) = map event_text (changes first rs)"
    if "\<forall>r\<in>set rs. r_write_ok r"
    using fixed_capacity.sse_loop_events [OF assms, of first "t + KEEPALIVE_MS" rs] that by auto
  then show ?thesis
    using fixed_capacity.sse_loop_events [OF assms, of first k rs]
    by (auto simp: changes_remdups serve_events_def h fixed_capacity.write_event_eq [OF assms] event_not_keepalive)
qed

definition dark :: snapshot where
  "dark = \<lparr>s_relay = False, s_led1 = False, s_led2 = False, s_link = True, s_mqtt = True\<rparr>"

definition sample_rounds :: "sse_round list" where
  "sample_rounds = map (\<lambda>(s, ms). \<lparr>r_now = s, r_uptime = 9, r_check = ms, r_after = ms, r_write_ok = True\<rparr>)
    [(dark, 150), (dark\<lparr>s_relay := True\<rparr>, 300), (dark\<lparr>s_relay := True\<rparr>, 450), (dark, 16000), (dark, 31000)]"

theorem stream_pushes_each_change_witness:
  "length (events (serve_events bounded_append True dark 9 True 0 sample_rounds)) = 4 \<and>
    map r_now (changes dark sample_rounds) = [dark\<lparr>s_relay := True\<rparr>, dark]"
proof -
  have ok: "\<forall>r\<in>set sample_rounds. r_write_ok r" by (simp add: sample_rounds_def)
  have "changes dark sample_rounds = [sample_rounds ! 1, sample_rounds ! 3]"
    by (simp add: sample_rounds_def dark_def)
  moreover have "events (serve_events bounded_append True dark 9 True 0 sample_rounds)
      = SSE_HEAD # concat (event_pieces dark 9) # map event_text (changes dark sample_rounds)"
    using stream_pushes_each_change [OF bounded_capacity, of dark 0 sample_rounds 9 0] ok by blast
  ultimately show ?thesis by (simp add: sample_rounds_def)
qed

end
