(* ===== verification/Web_Server.thy ===== *)
theory Web_Server
  imports Web_Session Config_Form Sse Persistence
begin

text \<open>
  The request pipeline of \<open>src/web.rs\<close>: authentication, the handlers and the routing of one
  connection, and the loop of a web task. The state a connection can change is the session and
  the EEPROM behind its mutex; what it does to the socket and to the device is its list of
  actions. Nothing follows a \<open>Reset\<close>.
\<close>

section \<open>Configuration of a web task\<close>

text \<open>What \<open>serve_pool\<close> computes once, from the configuration it was started with.\<close>

record pool =
  p_cfg :: network_config
  p_auth_required :: bool
  p_expected_token :: bytes
  p_token_seed :: u64

definition start_pool :: "heapless \<Rightarrow> network_config \<Rightarrow> u64 \<Rightarrow> pool" where
  "start_pool ext cfg t =
    \<lparr>p_cfg = cfg,
     p_auth_required = (web_user cfg \<noteq> [] \<or> web_pass cfg \<noteq> []),
     p_expected_token = basic_token ext (web_user cfg) (web_pass cfg),
     p_token_seed = t * 0x9E3779B97F4A7C15\<rparr>"

text \<open>
  What one connection reads of the world: the clock at its successive readings, what the pages
  show, and the reset reason.
\<close>

record reading =
  at_validate :: u64
  at_login :: "u64 \<times> u64 \<times> u64"
  shows_view :: view
  shows_reset :: reset_reason

record 'd web_state =
  sess :: session
  ee :: "'d option"

section \<open>Authentication\<close>

definition show_login_form :: "bytes \<Rightarrow> panic + action list" where
  "show_login_form req =
    (case extract_cookie req session_cookie of
       Inl p \<Rightarrow> Inl p
     | Inr c \<Rightarrow> Inr (send_login_form (if c \<noteq> None then HTTP_401_EXPIRE_COOKIE else HTTP_401_LOGIN) None))"

definition handle_unauthenticated ::
  "heapless \<Rightarrow> pool \<Rightarrow> reading \<Rightarrow> parsed_request \<Rightarrow> session \<Rightarrow> panic + action list \<times> session" where
  "handle_unauthenticated ext p now r s =
    (if http_method r = str ''POST'' \<and> path r = str ''/login'' then
       Inr (handle_login ext r (p_expected_token p) (p_token_seed p) (at_login now) s)
     else if path r = str ''/events'' then Inr (send_and_close HTTP_401_LOGIN, s)
     else (case show_login_form (raw r) of Inl e \<Rightarrow> Inl e | Inr acts \<Rightarrow> Inr (acts, s)))"

definition authenticate_request ::
  "heapless \<Rightarrow> pool \<Rightarrow> reading \<Rightarrow> parsed_request \<Rightarrow> session \<Rightarrow> panic + bool \<times> action list \<times> session" where
  "authenticate_request ext p now r s =
    (if \<not> p_auth_required p then Inr (True, [], s)
     else (case validate_session (raw r) (refreshes_session r) (at_validate now) s of
         Inl e \<Rightarrow> Inl e
       | Inr (True, s') \<Rightarrow> Inr (True, [], s')
       | Inr (False, s') \<Rightarrow>
           (case handle_unauthenticated ext p now r s' of
              Inl e \<Rightarrow> Inl e
            | Inr (acts, s'') \<Rightarrow> Inr (False, acts, s''))))"

section \<open>Handlers\<close>

definition serve_dashboard :: "heapless \<Rightarrow> network_config \<Rightarrow> reading \<Rightarrow> action list" where
  "serve_dashboard ext cfg now = send_page ext cfg (shows_view now) (shows_reset now) @ [Close]"

definition serve_event_stream :: "action list" where
  "serve_event_stream = [Stream, Close]"

definition serve_state :: "heapless \<Rightarrow> network_config \<Rightarrow> reading \<Rightarrow> action list" where
  "serve_state ext cfg now = send_state ext cfg (shows_view now) (shows_reset now) @ [Close]"

definition reboot :: "action list" where
  "reboot = [Write HTTP_OK, Write REBOOT_BODY] @ finish_response @ [Sleep 300, Reset]"

definition save_and_reboot ::
  "heapless \<Rightarrow> ('d, 'e) i2c_bus \<Rightarrow> network_config \<Rightarrow> parsed_request \<Rightarrow> 'd option \<Rightarrow> action list \<times> 'd option" where
  "save_and_reboot ext bus cfg r guard =
    (case body r of
       None \<Rightarrow> (send_and_close HTTP_400, guard)
     | Some b \<Rightarrow>
       (case parse_form ext b cfg of
          None \<Rightarrow> (send_and_close HTTP_400, guard)
        | Some new_cfg \<Rightarrow>
          (case save_config bus new_cfg guard of
             (Inl e, guard') \<Rightarrow> (send_and_close HTTP_500, guard')
           | (Inr _, guard') \<Rightarrow>
               ([Write HTTP_OK, Write SAVED_BODY] @ finish_response @ [Sleep 200, Reset], guard'))))"

definition route_authenticated ::
  "heapless \<Rightarrow> ('d, 'e) i2c_bus \<Rightarrow> network_config \<Rightarrow> reading \<Rightarrow> parsed_request \<Rightarrow> 'd web_state \<Rightarrow>
    action list \<times> 'd web_state" where
  "route_authenticated ext bus cfg now r st =
    (if http_method r = str ''GET'' \<and> path r = str ''/'' then (serve_dashboard ext cfg now, st)
     else if http_method r = str ''GET'' \<and> path r = str ''/events'' then (serve_event_stream, st)
     else if http_method r = str ''GET'' \<and> path r = str ''/login'' then (send_and_close HTTP_303_HOME, st)
     else if http_method r = str ''GET'' \<and> path r = str ''/state'' then (serve_state ext cfg now, st)
     else if http_method r = str ''POST'' \<and> path r = str ''/logout'' then
       (let (acts, s) = log_out (sess st) in (acts, st\<lparr>sess := s\<rparr>))
     else if http_method r = str ''POST'' \<and> path r = str ''/reboot'' then (reboot, st)
     else if http_method r = str ''POST'' \<and> path r = str ''/save'' then
       (let (acts, g) = save_and_reboot ext bus cfg r (ee st) in (acts, st\<lparr>ee := g\<rparr>))
     else (send_not_found, st))"

section \<open>A connection\<close>

text \<open>\<open>serve_connection\<close>: the bytes of the one \<open>read\<close>, or nothing when it fails.\<close>

definition serve_connection ::
  "heapless \<Rightarrow> ('d, 'e) i2c_bus \<Rightarrow> pool \<Rightarrow> reading \<Rightarrow> bytes option \<Rightarrow> 'd web_state \<Rightarrow>
    panic + action list \<times> 'd web_state" where
  "serve_connection ext bus p now received st =
    (case received of
       None \<Rightarrow> Inr ([], st)
     | Some [] \<Rightarrow> Inr ([], st)
     | Some buf \<Rightarrow>
       (case from_utf8 buf of
          None \<Rightarrow> Inr ([Write HTTP_400], st)
        | Some req \<Rightarrow>
          (let request = parse_request req in
           case authenticate_request ext p now request (sess st) of
             Inl e \<Rightarrow> Inl e
           | Inr (False, acts, s) \<Rightarrow> Inr (acts, st\<lparr>sess := s\<rparr>)
           | Inr (True, acts, s) \<Rightarrow>
               (let (acts', st') = route_authenticated ext bus (p_cfg p) now request (st\<lparr>sess := s\<rparr>)
                in Inr (acts @ acts', st')))))"

text \<open>One turn of the loop of \<open>serve_pool\<close>: a failed accept, or a connection and its closing.\<close>

definition pool_turn ::
  "heapless \<Rightarrow> ('d, 'e) i2c_bus \<Rightarrow> pool \<Rightarrow> bool \<Rightarrow> reading \<Rightarrow> bytes option \<Rightarrow> 'd web_state \<Rightarrow>
    panic + action list \<times> 'd web_state" where
  "pool_turn ext bus p accepted now received st =
    (if \<not> accepted then Inr ([Sleep 100], st)
     else (case serve_connection ext bus p now received st of
         Inl e \<Rightarrow> Inl e
       | Inr (acts, st') \<Rightarrow> Inr (if Reset \<in> set acts then acts else acts @ [Close, Flush], st')))"

section \<open>The closed session\<close>

lemma parse_request_raw [simp]: "raw (parse_request req) = req"
  by (simp add: parse_request_def Let_def split: prod.splits)

text \<open>
  Everything a client without credentials is ever answered. None of it depends on the
  configuration or on the state of the device.
\<close>

definition refusals :: "action list set" where
  "refusals = {[], [Write HTTP_400], send_and_close HTTP_401_LOGIN, send_login_form HTTP_401_LOGIN None,
     send_login_form HTTP_401_EXPIRE_COOKIE None, send_login_form HTTP_401_LOGIN (Some LOGIN_LOCKED),
     Sleep LOGIN_FAIL_DELAY_MS # send_login_form HTTP_401_LOGIN (Some LOGIN_LOCKED),
     Sleep LOGIN_FAIL_DELAY_MS # send_login_form HTTP_401_LOGIN (Some LOGIN_ERROR)}"

lemma refusals_answer: "acts \<in> refusals \<Longrightarrow> only_answers acts"
  by (auto simp: refusals_def)

lemma rejected_login:
  assumes "\<not> login_credentials_match ext r expected" and "handle_login ext r expected seed ts s = (acts, s')"
  shows "session_token s' = session_token s \<and> created s' = created s \<and> acts \<in> refusals"
  using assms
  by (cases ts) (auto simp: handle_login_def reject_login_def session_token_def Let_def refusals_def
      split: if_split_asm)

lemma unauthenticated_cases:
  assumes "handle_unauthenticated ext p now r s = Inr (acts, s')"
  obtains (login) "handle_login ext r (p_expected_token p) (p_token_seed p) (at_login now) s = (acts, s')"
  | (refused) "s' = s" and "acts \<in> refusals"
  using assms
  by (auto simp: handle_unauthenticated_def show_login_form_def refusals_def simp del: str_Cons
      split: if_split_asm sum.splits)

lemma unauthenticated_refused:
  assumes "handle_unauthenticated ext p now r s = Inr (acts, s')"
    and "\<not> login_credentials_match ext r (p_expected_token p)"
  shows "session_token s' = session_token s \<and> created s' = created s \<and> acts \<in> refusals"
  using assms(1)
proof (cases rule: unauthenticated_cases)
  case login
  then show ?thesis by (rule rejected_login [OF assms(2)])
qed simp

lemma serve_request:
  "req \<noteq> [] \<Longrightarrow> utf8_valid req \<Longrightarrow> serve_connection ext bus p now (Some req) st =
    (case authenticate_request ext p now (parse_request req) (sess st) of
       Inl e \<Rightarrow> Inl e
     | Inr (False, acts, s) \<Rightarrow> Inr (acts, st\<lparr>sess := s\<rparr>)
     | Inr (True, acts, s) \<Rightarrow>
         (let (acts', st') = route_authenticated ext bus (p_cfg p) now (parse_request req) (st\<lparr>sess := s\<rparr>)
          in Inr (acts @ acts', st')))"
  by (auto simp: neq_Nil_conv serve_connection_def from_utf8_def Let_def simp del: utf8_valid.simps)

lemma authenticate_closed:
  "p_auth_required p \<Longrightarrow> session_token s = 0 \<Longrightarrow> authenticate_request ext p now r s =
    (case handle_unauthenticated ext p now r s of Inl e \<Rightarrow> Inl e | Inr (acts, s') \<Rightarrow> Inr (False, acts, s'))"
  by (simp add: authenticate_request_def validate_closed)

text \<open>A closed session turns every request away: only its login handler may touch the session.\<close>

lemma serve_closed:
  assumes "p_auth_required p" and "session_token (sess st) = 0" and "req \<noteq> []" and "utf8_valid req"
  shows "serve_connection ext bus p now (Some req) st =
    (case handle_unauthenticated ext p now (parse_request req) (sess st) of
       Inl e \<Rightarrow> Inl e | Inr (acts, s) \<Rightarrow> Inr (acts, st\<lparr>sess := s\<rparr>))"
  unfolding serve_request [OF assms(3,4)] authenticate_closed [OF assms(1,2)]
  by (simp split: sum.split prod.split)

lemma serve_nothing:
  "\<nexists>req. received = Some req \<and> req \<noteq> [] \<and> utf8_valid req \<Longrightarrow>
    \<exists>acts. serve_connection ext bus p now received st = Inr (acts, st) \<and> acts \<in> refusals"
  by (auto simp: serve_connection_def from_utf8_def refusals_def split: option.splits list.splits)

text \<open>No request opens a session or passes for authenticated without the credentials.\<close>

lemma closed_connection:
  assumes "p_auth_required p" and "session_token (sess st) = 0"
    and "serve_connection ext bus p now received st = Inr (acts, st')"
    and "\<forall>req. received = Some req \<longrightarrow> \<not> login_credentials_match ext (parse_request req) (p_expected_token p)"
  shows "acts \<in> refusals \<and> ee st' = ee st \<and> session_token (sess st') = 0"
proof (cases "\<exists>req. received = Some req \<and> req \<noteq> [] \<and> utf8_valid req")
  case False
  from serve_nothing [OF this, of ext bus p now st] assms(2,3) show ?thesis by auto
next
  case True
  then obtain req where req: "received = Some req" "req \<noteq> []" "utf8_valid req" by blast
  obtain s where h: "handle_unauthenticated ext p now (parse_request req) (sess st) = Inr (acts, s)"
    and st': "st' = st\<lparr>sess := s\<rparr>"
    using assms(3) unfolding req(1) serve_closed [OF assms(1,2) req(2,3)]
    by (auto split: sum.splits)
  with unauthenticated_refused [OF h] assms(2,4) req(1) show ?thesis by simp
qed

section \<open>Runs of connections\<close>

text \<open>
  The connections of both web tasks in the order their handlers run; a panic ends the run with a
  reset of the device.
\<close>

fun web_run ::
  "heapless \<Rightarrow> ('d, 'e) i2c_bus \<Rightarrow> pool \<Rightarrow> (reading \<times> bytes option) list \<Rightarrow> 'd web_state \<Rightarrow>
    panic + action list list \<times> 'd web_state" where
  "web_run ext bus p [] st = Inr ([], st)"
| "web_run ext bus p ((now, received) # cs) st =
    (case serve_connection ext bus p now received st of
       Inl e \<Rightarrow> Inl e
     | Inr (acts, st') \<Rightarrow>
       (case web_run ext bus p cs st' of
          Inl e \<Rightarrow> Inl e
        | Inr (ass, st'') \<Rightarrow> Inr (acts # ass, st'')))"

lemma closed_run:
  assumes "p_auth_required p" and "session_token (sess st) = 0"
    and "\<forall>(now, received)\<in>set cs. \<forall>req. received = Some req \<longrightarrow>
      \<not> login_credentials_match ext (parse_request req) (p_expected_token p)"
    and "web_run ext bus p cs st = Inr (ass, st')"
  shows "set ass \<subseteq> refusals \<and> ee st' = ee st \<and> session_token (sess st') = 0"
  using assms(2-)
proof (induction cs arbitrary: st ass)
  case (Cons c cs)
  obtain now received where c: "c = (now, received)" by (cases c)
  obtain acts st1 ass1 where s: "serve_connection ext bus p now received st = Inr (acts, st1)"
    and r: "web_run ext bus p cs st1 = Inr (ass1, st')" and ass: "ass = acts # ass1"
    using Cons.prems(3) by (auto simp: c split: sum.splits)
  have "acts \<in> refusals \<and> ee st1 = ee st \<and> session_token (sess st1) = 0"
    using Cons.prems(2) by (intro closed_connection [OF assms(1) Cons.prems(1) s]) (auto simp: c)
  with Cons.IH [of st1 ass1] Cons.prems(2) r ass show ?case by auto
qed simp

text \<open>
  C1: with a login configured, nothing but the right credentials opens the device: in any run of
  connections from a closed session in which no request carries them, every answer is one of
  eight fixed refusals, which tell nothing of the configuration or the device, the EEPROM is
  never written, the device is never restarted on request, and the session stays closed.
\<close>

theorem no_access_without_credentials:
  assumes "p_auth_required p" and "session_token (sess st) = 0"
    and "\<forall>(now, received)\<in>set cs. \<forall>req. received = Some req \<longrightarrow>
      \<not> login_credentials_match ext (parse_request req) (p_expected_token p)"
    and "web_run ext bus p cs st = Inr (ass, st')"
  shows "set ass \<subseteq> refusals \<and> (\<forall>acts\<in>set ass. Reset \<notin> set acts \<and> Stream \<notin> set acts) \<and>
    ee st' = ee st \<and> session_token (sess st') = 0"
  using closed_run [OF assms] refusals_answer by (auto simp: only_answers_def)

text \<open>A device with a login, a browser's first request, and a request with an accented header name.\<close>

definition login_config :: network_config where
  "login_config = (default_config bounded_append)\<lparr>web_user := str ''op'', web_pass := str ''a b''\<rparr>"

definition login_pool :: pool where
  "login_pool = start_pool bounded_append login_config 7"

definition sample_reading :: reading where
  "sample_reading = \<lparr>at_validate = 100, at_login = (100, 100, 100), shows_view = sample_view, shows_reset = PowerOn\<rparr>"

definition boot_web :: "sim web_state" where
  "boot_web = \<lparr>sess = boot_session, ee = Some blank_chip\<rparr>"

definition first_request :: bytes where
  "first_request = request_head [request_line (str ''GET'') (str ''/'')]"

definition accented_request :: bytes where
  "accented_request = request_head [request_line (str ''GET'') (str ''/''), str ''X-Name'' @ [0xC3, 0xA9] @ str '': 1'']"

lemma login_pool_auth: "p_auth_required login_pool"
  by (simp add: login_pool_def start_pool_def login_config_def)

lemma boot_closed: "session_token (sess boot_web) = 0"
  by (simp add: boot_web_def boot_session_def session_token_def)

lemma parse_first_request: "parse_request first_request = \<lparr>raw = first_request, http_method = str ''GET'', path = str ''/'', query = []\<rparr>"
  using parse_request_line [of "str ''GET''" "str ''/''" "[]" "[]"] sample_words
  by (simp add: first_request_def del: str_Cons) (simp add: str_Cons)

lemma first_request_refused:
  "handle_unauthenticated ext p now (parse_request first_request) s = Inr (send_login_form HTTP_401_LOGIN None, s)"
proof -
  have "extract_cookie first_request session_cookie = Inr None" by code_simp
  then show ?thesis by (simp add: handle_unauthenticated_def parse_first_request show_login_form_def)
qed

lemma first_request_valid: "first_request \<noteq> []" "utf8_valid first_request"
  by code_simp+

lemma first_request_no_login: "\<not> login_credentials_match bounded_append (parse_request first_request) e"
proof -
  have "body (parse_request first_request) = Some []"
    using body_request [of "[request_line (str ''GET'') (str ''/'')]" "parse_request first_request" "[]"]
    by (simp add: first_request_def request_line_def)
  moreover have "parse_login_form bounded_append [] = (None, None)" by code_simp
  ultimately show ?thesis by (simp add: login_credentials_match_def)
qed

lemma first_request_run:
  "web_run bounded_append sim_bus login_pool [(sample_reading, Some first_request)] boot_web
    = Inr ([send_login_form HTTP_401_LOGIN None], boot_web)"
  by (simp add: serve_closed [OF login_pool_auth boot_closed first_request_valid] first_request_refused)

theorem no_access_without_credentials_witness:
  "send_login_form HTTP_401_LOGIN None \<in> refusals \<and> session_token (sess boot_web) = 0"
proof -
  have "\<forall>(now, received)\<in>set [(sample_reading, Some first_request)]. \<forall>req. received = Some req \<longrightarrow>
      \<not> login_credentials_match bounded_append (parse_request req) (p_expected_token login_pool)"
    by (simp add: first_request_no_login)
  from no_access_without_credentials [OF login_pool_auth boot_closed this first_request_run]
  show ?thesis by simp
qed

section \<open>Requests that bring the device down\<close>

lemma unauthenticated_panics:
  "handle_unauthenticated ext p now r s = Inl e \<longleftrightarrow>
    \<not> (http_method r = str ''POST'' \<and> path r = str ''/login'') \<and> path r \<noteq> str ''/events'' \<and>
    extract_cookie (raw r) session_cookie = Inl e"
  by (auto simp: handle_unauthenticated_def show_login_form_def simp del: str_Cons split: sum.split)

lemma authenticate_panics:
  "authenticate_request ext p now r s = Inl e \<longleftrightarrow>
    p_auth_required p \<and> extract_cookie (raw r) session_cookie = Inl e \<and>
    (session_token s \<noteq> 0 \<or>
      \<not> (http_method r = str ''POST'' \<and> path r = str ''/login'') \<and> path r \<noteq> str ''/events'')"
proof (cases "validate_session (raw r) (refreshes_session r) (at_validate now) s")
  case (Inl e')
  with validate_panics [of "raw r" "refreshes_session r" "at_validate now" s e'] show ?thesis
    by (auto simp: authenticate_request_def)
next
  case (Inr v)
  obtain ok s' where v: "v = (ok, s')" by fastforce
  have "session_token s = 0 \<or> (\<exists>c. extract_cookie (raw r) session_cookie = Inr c)"
    using validate_panics [of "raw r" "refreshes_session r" "at_validate now" s] Inr
    by (cases "extract_cookie (raw r) session_cookie") auto
  moreover have "ok \<Longrightarrow> session_token s \<noteq> 0"
    using Inr v validate_closed [of s "raw r" "refreshes_session r" "at_validate now"] by auto
  ultimately show ?thesis
    using Inr v unauthenticated_panics [of ext p now r s' e]
    by (cases ok) (auto simp: authenticate_request_def simp del: str_Cons split: sum.split)
qed

lemma serve_panics:
  "serve_connection ext bus p now (Some req) st = Inl e \<longleftrightarrow>
    req \<noteq> [] \<and> utf8_valid req \<and> authenticate_request ext p now (parse_request req) (sess st) = Inl e"
proof (cases "req \<noteq> [] \<and> utf8_valid req")
  case True
  then show ?thesis by (auto simp: serve_request split: sum.split bool.split prod.split)
next
  case False
  then show ?thesis using serve_nothing [of "Some req" ext bus p now st] by auto
qed

text \<open>
  C5: which requests bring the firmware down, whoever sends them and whether or not a session is
  open: with a login configured, exactly the valid UTF-8 requests in which a character of some
  line straddles the line's seventh and eighth byte, no line before it yielding a session
  cookie, and which look at their cookies at all: every one while a session is open, and while
  none is open all but login attempts and event streams. No other request panics.
\<close>

theorem request_panics_iff:
  "serve_connection ext bus p now (Some req) st = Inl e \<longleftrightarrow>
    e = Char_Boundary \<and> req \<noteq> [] \<and> utf8_valid req \<and> p_auth_required p \<and>
    (session_token (sess st) \<noteq> 0 \<or>
      \<not> (http_method (parse_request req) = str ''POST'' \<and> path (parse_request req) = str ''/login'') \<and>
      path (parse_request req) \<noteq> str ''/events'') \<and>
    (\<exists>pre line post. lines req = pre @ line # post \<and> splits_char line \<and>
      (\<forall>l\<in>set pre. no_cookie session_cookie l))"
  by (auto simp: serve_panics authenticate_panics extract_cookie_def cookie_loop_panics simp del: str_Cons)

text \<open>It takes no credentials, and with a session open anywhere not even a path of its own.\<close>

definition open_web :: "sim web_state" where
  "open_web = boot_web\<lparr>sess := boot_session\<lparr>token_lo := 7, created := 100\<rparr>\<rparr>"

lemma open_token: "session_token (sess open_web) = 7" "created (sess open_web) = 100"
  by (simp_all add: open_web_def boot_session_def session_token_def)

definition accented_login :: bytes where
  "accented_login = request_head [request_line (str ''POST'') (str ''/login''), str ''X-Name'' @ [0xC3, 0xA9] @ str '': 1'']"

theorem request_panics_iff_witness:
  "serve_connection bounded_append sim_bus login_pool sample_reading (Some accented_request) boot_web = Inl Char_Boundary \<and>
    serve_connection bounded_append sim_bus login_pool sample_reading (Some accented_login) open_web = Inl Char_Boundary"
proof -
  let ?name = "str ''X-Name'' @ [0xC3, 0xA9] @ str '': 1''"
  have p: "parse_request accented_request = \<lparr>raw = accented_request, http_method = str ''GET'', path = str ''/'', query = []\<rparr>"
    using parse_request_line [of "str ''GET''" "str ''/''" "[?name]" "[]"] sample_words
    by (simp add: accented_request_def)
  have s: "splits_char ?name" by code_simp
  have "lines accented_request = [request_line (str ''GET'') (str ''/'')] @ ?name # [[]]"
    "no_cookie session_cookie (request_line (str ''GET'') (str ''/''))" by code_simp+
  then have get: "\<exists>pre line post. lines accented_request = pre @ line # post \<and> splits_char line \<and>
      (\<forall>l\<in>set pre. no_cookie session_cookie l)"
    using s by (intro exI [of _ "[request_line (str ''GET'') (str ''/'')]"] exI [of _ ?name] exI [of _ "[[]]"]) simp
  have "lines accented_login = [request_line (str ''POST'') (str ''/login'')] @ ?name # [[]]"
    "no_cookie session_cookie (request_line (str ''POST'') (str ''/login''))" by code_simp+
  then have post: "\<exists>pre line post. lines accented_login = pre @ line # post \<and> splits_char line \<and>
      (\<forall>l\<in>set pre. no_cookie session_cookie l)"
    using s by (intro exI [of _ "[request_line (str ''POST'') (str ''/login'')]"] exI [of _ ?name] exI [of _ "[[]]"]) simp
  have "accented_request \<noteq> []" "utf8_valid accented_request" "accented_login \<noteq> []" "utf8_valid accented_login"
    by code_simp+
  with get post show ?thesis
    unfolding request_panics_iff p by (simp add: login_pool_auth open_token)
qed

section \<open>What authenticated requests do\<close>

lemma authenticated_session:
  assumes "authenticate_request ext p now r s = Inr (True, acts, s')"
  shows "acts = [] \<and> fail_count s' = fail_count s \<and> fail_last s' = fail_last s \<and> session_token s' = session_token s"
  using assms
  by (auto simp: authenticate_request_def session_token_def Let_def validate_session_core
      split: if_split_asm sum.split_asm bool.split_asm)

lemma refused_get:
  assumes "authenticate_request ext p now r s = Inr (False, acts, s')" and "http_method r \<noteq> str ''POST''"
  shows "acts \<in> refusals \<and> fail_count s' = fail_count s \<and> fail_last s' = fail_last s \<and>
    (session_token s' = session_token s \<or>
      session_token s' = 0 \<and> carries_session (session_token s) (raw r) \<and> unat (created s) + 900 < unat (at_validate now))"
proof -
  obtain s1 where v: "validate_session (raw r) (refreshes_session r) (at_validate now) s = Inr (False, s1)"
    and h: "handle_unauthenticated ext p now r s1 = Inr (acts, s')"
    using assms(1) by (auto simp: authenticate_request_def split: if_split_asm sum.split_asm bool.split_asm)
  have "s' = s1 \<and> acts \<in> refusals"
    using h assms(2) by (auto simp: handle_unauthenticated_def show_login_form_def refusals_def
        simp del: str_Cons split: if_split_asm sum.split_asm)
  with validate_false [OF v] show ?thesis by (auto split: if_split_asm)
qed

lemma route_get:
  assumes "route_authenticated ext bus cfg now r st = (acts, st')" and "http_method r \<noteq> str ''POST''"
  shows "st' = st \<and> Reset \<notin> set acts"
proof -
  have "Reset \<notin> set (send_page ext cfg v x)" "Reset \<notin> set (send_state ext cfg v x)" for v x
    using pages_answer by (auto simp: only_answers_def)
  with assms show ?thesis
    by (auto simp: route_authenticated_def serve_dashboard_def serve_event_stream_def serve_state_def
        socket_defs simp del: str_Cons split: if_split_asm)
qed

lemma get_request:
  assumes "serve_connection ext bus p now (Some req) st = Inr (acts, st')"
    and "http_method (parse_request req) \<noteq> str ''POST''"
  shows "ee st' = ee st \<and> Reset \<notin> set acts \<and> fail_count (sess st') = fail_count (sess st) \<and>
    fail_last (sess st') = fail_last (sess st) \<and>
    (session_token (sess st') = session_token (sess st) \<or>
      session_token (sess st') = 0 \<and> carries_session (session_token (sess st)) req \<and>
      unat (created (sess st)) + 900 < unat (at_validate now))"
proof (cases "req \<noteq> [] \<and> utf8_valid req")
  case False
  then show ?thesis
    using serve_nothing [of "Some req" ext bus p now st] assms(1) refusals_answer by (auto simp: only_answers_def)
next
  case True
  let ?r = "parse_request req"
  from assms(1) True obtain ok acts1 s where a: "authenticate_request ext p now ?r (sess st) = Inr (ok, acts1, s)"
    by (cases "authenticate_request ext p now ?r (sess st)") (auto simp: serve_request)
  show ?thesis
  proof (cases ok)
    case True
    obtain acts2 st2 where r: "route_authenticated ext bus (p_cfg p) now ?r (st\<lparr>sess := s\<rparr>) = (acts2, st2)"
      by fastforce
    then have "acts = acts1 @ acts2" "st' = st2"
      using assms(1) \<open>req \<noteq> [] \<and> utf8_valid req\<close> a True by (auto simp: serve_request)
    moreover have "authenticate_request ext p now ?r (sess st) = Inr (True, acts1, s)" using a True by simp
    from authenticated_session [OF this] have "acts1 = []" "fail_count s = fail_count (sess st)"
      "fail_last s = fail_last (sess st)" "session_token s = session_token (sess st)" by auto
    ultimately show ?thesis using route_get [OF r assms(2)] by auto
  next
    case False
    then have "acts = acts1" "st' = st\<lparr>sess := s\<rparr>"
      using assms(1) \<open>req \<noteq> [] \<and> utf8_valid req\<close> a by (auto simp: serve_request)
    moreover have "authenticate_request ext p now ?r (sess st) = Inr (False, acts1, s)" using a False by simp
    from refused_get [OF this assms(2)] have "acts1 \<in> refusals" "fail_count s = fail_count (sess st)"
      "fail_last s = fail_last (sess st)"
      "session_token s = session_token (sess st) \<or> session_token s = 0 \<and>
        carries_session (session_token (sess st)) req \<and> unat (created (sess st)) + 900 < unat (at_validate now)"
      by auto
    ultimately show ?thesis using refusals_answer [of acts1] by (auto simp: only_answers_def)
  qed
qed

text \<open>
  C27: what a request that is not a post can do to the device, whoever sends it: it writes nothing to
  the EEPROM, asks for no restart, leaves the lockout counter alone, and touches the session's
  token only to clear one that it carries itself and that has expired. The one thing left to it
  is the panic on its cookies, which restarts the device.
\<close>

theorem only_posts_change_the_device:
  assumes "http_method (parse_request req) \<noteq> str ''POST''"
  shows "case serve_connection ext bus p now (Some req) st of
      Inl e \<Rightarrow> p_auth_required p \<and> extract_cookie req session_cookie = Inl e
    | Inr (acts, st') \<Rightarrow> ee st' = ee st \<and> Reset \<notin> set acts \<and> fail_count (sess st') = fail_count (sess st) \<and>
        fail_last (sess st') = fail_last (sess st) \<and>
        (session_token (sess st') = session_token (sess st) \<or>
          session_token (sess st') = 0 \<and> carries_session (session_token (sess st)) req \<and>
          unat (created (sess st)) + 900 < unat (at_validate now))"
proof (cases "serve_connection ext bus p now (Some req) st")
  case (Inl e)
  then have "authenticate_request ext p now (parse_request req) (sess st) = Inl e" by (simp add: serve_panics)
  with Inl show ?thesis by (simp add: authenticate_panics)
next
  case (Inr r)
  with get_request [OF _ assms, of ext bus p now st] show ?thesis by (cases r) auto
qed

theorem only_posts_change_the_device_witness:
  "\<exists>acts st'. serve_connection bounded_append sim_bus login_pool sample_reading (Some first_request) boot_web
      = Inr (acts, st') \<and> Reset \<notin> set acts \<and> ee st' = Some blank_chip"
proof -
  have "serve_connection bounded_append sim_bus login_pool sample_reading (Some first_request) boot_web
      = Inr (send_login_form HTTP_401_LOGIN None, boot_web)"
    using first_request_run by (auto split: sum.splits)
  moreover have "http_method (parse_request first_request) \<noteq> str ''POST''" by (simp add: parse_first_request)
  ultimately show ?thesis
    using only_posts_change_the_device [of first_request, where ext = bounded_append and bus = sim_bus
        and p = login_pool and now = sample_reading and st = boot_web]
    by (simp add: boot_web_def)
qed

section \<open>Sessions left behind\<close>

lemma route_polling:
  assumes "route_authenticated ext bus cfg now r st = (acts, st')"
  shows "sess st' = sess st \<or> session_token (sess st') = 0"
  using assms
  by (auto simp: route_authenticated_def log_out_def session_token_def simp del: str_Cons
      split: if_split_asm prod.splits)

text \<open>One connection beside a session that nobody refreshes.\<close>

definition left_behind :: "u64 \<Rightarrow> nat \<Rightarrow> session \<Rightarrow> bool" where
  "left_behind v deadline s \<longleftrightarrow> session_token s = 0 \<or> session_token s = v \<and> unat (created s) + 900 = deadline"

lemma left_behind_connection:
  assumes "p_auth_required p" and "left_behind v deadline (sess st)"
    and "\<forall>req. received = Some req \<longrightarrow> \<not> login_credentials_match ext (parse_request req) (p_expected_token p) \<and>
      (carries_session v req \<and> refreshes_session (parse_request req) \<longrightarrow> deadline < unat (at_validate now))"
    and "serve_connection ext bus p now received st = Inr (acts, st')"
  shows "left_behind v deadline (sess st') \<and> (session_token (sess st) = 0 \<longrightarrow> session_token (sess st') = 0) \<and>
    (deadline < unat (at_validate now) \<longrightarrow> acts \<in> refusals \<and> ee st' = ee st \<and>
      (\<forall>req. received = Some req \<and> req \<noteq> [] \<and> utf8_valid req \<and> carries_session v req \<longrightarrow> session_token (sess st') = 0))"
proof (cases "session_token (sess st) = 0")
  case True
  from closed_connection [OF assms(1) True assms(4)] assms(3) show ?thesis by (simp add: left_behind_def)
next
  case False
  then have s: "session_token (sess st) = v" "unat (created (sess st)) + 900 = deadline"
    using assms(2) by (auto simp: left_behind_def)
  show ?thesis
  proof (cases "\<exists>req. received = Some req \<and> req \<noteq> [] \<and> utf8_valid req")
    case False
    from serve_nothing [OF this, of ext bus p now st] assms(2,4) False show ?thesis
      using \<open>session_token (sess st) \<noteq> 0\<close> by auto
  next
    case True
    then obtain req where req: "received = Some req" "req \<noteq> []" "utf8_valid req" by blast
    let ?r = "parse_request req"
    obtain ok acts1 s1 where a: "authenticate_request ext p now ?r (sess st) = Inr (ok, acts1, s1)"
      using assms(4) unfolding req(1) serve_request [OF req(2,3)]
      by (auto split: sum.splits)
    obtain s0 where v: "validate_session req (refreshes_session ?r) (at_validate now) (sess st) = Inr (ok, s0)"
      using a assms(1) by (auto simp: authenticate_request_def split: sum.splits bool.splits)
    show ?thesis
    proof (cases ok)
      case True
      with v have c: "carries_session v req" "unat (at_validate now) \<le> deadline"
        "s0 = (if refreshes_session ?r then (sess st)\<lparr>created := ucast (at_validate now)\<rparr> else sess st)"
        by (simp_all add: validate_session_core s)
      then have "\<not> refreshes_session ?r" using assms(3) req(1) by force
      then have "s1 = sess st" using a v c True assms(1) by (simp add: authenticate_request_def)
      then obtain acts2 where "route_authenticated ext bus (p_cfg p) now ?r (st\<lparr>sess := sess st\<rparr>) = (acts2, st')"
        using assms(4) a True unfolding req(1) serve_request [OF req(2,3)] by (auto split: prod.splits)
      from route_polling [OF this] have "left_behind v deadline (sess st')"
        using assms(2) by (auto simp: left_behind_def)
      with c(2) False show ?thesis by auto
    next
      case refused: False
      with v have s0: "s0 = (if carries_session v req \<and> deadline < unat (at_validate now)
          then (sess st)\<lparr>token_hi := 0, token_lo := 0\<rparr> else sess st)"
        using False validate_false [of req "refreshes_session ?r" "at_validate now" "sess st" s0] s by simp
      have h: "handle_unauthenticated ext p now ?r s0 = Inr (acts1, s1)"
        using a v refused assms(1) by (auto simp: authenticate_request_def split: sum.splits)
      have st': "acts = acts1" "st' = st\<lparr>sess := s1\<rparr>"
        using assms(4) a refused unfolding req(1) serve_request [OF req(2,3)] by auto
      have "session_token s1 = session_token s0 \<and> created s1 = created s0 \<and> acts1 \<in> refusals"
        using unauthenticated_refused [OF h] assms(3) req(1) by simp
      with st' s0 s False req(1) show ?thesis by (auto simp: left_behind_def split: if_splits)
    qed
  qed
qed

lemma left_behind_run:
  assumes "p_auth_required p" and "left_behind v deadline (sess st)"
    and "\<forall>(now, received)\<in>set cs. \<forall>req. received = Some req \<longrightarrow>
      \<not> login_credentials_match ext (parse_request req) (p_expected_token p) \<and>
      (carries_session v req \<and> refreshes_session (parse_request req) \<longrightarrow> deadline < unat (at_validate now))"
    and "web_run ext bus p cs st = Inr (ass, st')"
  shows "length ass = length cs \<and> (session_token (sess st) = 0 \<longrightarrow> session_token (sess st') = 0) \<and>
    (\<forall>k<length cs. deadline < unat (at_validate (fst (cs ! k))) \<longrightarrow> ass ! k \<in> refusals) \<and>
    ((\<exists>(now, received)\<in>set cs. deadline < unat (at_validate now) \<and>
      (\<exists>req. received = Some req \<and> req \<noteq> [] \<and> utf8_valid req \<and> carries_session v req)) \<longrightarrow> session_token (sess st') = 0)"
  using assms(2-)
proof (induction cs arbitrary: st ass)
  case (Cons c cs)
  obtain now received where c: "c = (now, received)" by (cases c)
  obtain acts st1 ass1 where s: "serve_connection ext bus p now received st = Inr (acts, st1)"
    and r: "web_run ext bus p cs st1 = Inr (ass1, st')" and ass: "ass = acts # ass1"
    using Cons.prems(3) by (auto simp: c split: sum.splits)
  have one: "left_behind v deadline (sess st1) \<and> (session_token (sess st) = 0 \<longrightarrow> session_token (sess st1) = 0) \<and>
    (deadline < unat (at_validate now) \<longrightarrow> acts \<in> refusals \<and> ee st1 = ee st \<and>
      (\<forall>req. received = Some req \<and> req \<noteq> [] \<and> utf8_valid req \<and> carries_session v req \<longrightarrow> session_token (sess st1) = 0))"
    using Cons.prems(2) by (intro left_behind_connection [OF assms(1) Cons.prems(1) _ s]) (auto simp: c)
  have rest: "length ass1 = length cs \<and> (session_token (sess st1) = 0 \<longrightarrow> session_token (sess st') = 0) \<and>
    (\<forall>k<length cs. deadline < unat (at_validate (fst (cs ! k))) \<longrightarrow> ass1 ! k \<in> refusals) \<and>
    ((\<exists>(now, received)\<in>set cs. deadline < unat (at_validate now) \<and>
      (\<exists>req. received = Some req \<and> req \<noteq> [] \<and> utf8_valid req \<and> carries_session v req)) \<longrightarrow> session_token (sess st') = 0)"
    using Cons.IH [OF _ _ r] one Cons.prems(2) by simp
  have "ass ! k \<in> refusals" if "k < length (c # cs)" "deadline < unat (at_validate (fst ((c # cs) ! k)))" for k
    using that one rest ass c by (cases k) auto
  with one rest show ?case unfolding ass c by (auto split: prod.splits)
qed simp

text \<open>
  C26: a session that nobody uses ends, polling or not. In any run of connections without the right
  credentials in which the session's cookie comes only with polls of \<open>/state\<close> and \<open>/events\<close> that do
  not report activity, every request later than 900 seconds after the session was last refreshed
  is refused, its cookie included; and the first late request that carries the cookie closes the
  session for good, so that no request of the run opens it again. The run is one without a panic,
  which would restart the device and end the session at once.
\<close>

theorem abandoned_session_expires:
  assumes "p_auth_required p" and "session_token (sess st) = v" and "unat (created (sess st)) + 900 = deadline"
    and "\<forall>(now, received)\<in>set cs. \<forall>req. received = Some req \<longrightarrow>
      \<not> login_credentials_match ext (parse_request req) (p_expected_token p) \<and>
      (carries_session v req \<and> refreshes_session (parse_request req) \<longrightarrow> deadline < unat (at_validate now))"
    and "web_run ext bus p cs st = Inr (ass, st')"
  shows "length ass = length cs \<and>
    (\<forall>k<length cs. deadline < unat (at_validate (fst (cs ! k))) \<longrightarrow> ass ! k \<in> refusals) \<and>
    ((\<exists>(now, received)\<in>set cs. deadline < unat (at_validate now) \<and>
      (\<exists>req. received = Some req \<and> req \<noteq> [] \<and> utf8_valid req \<and> carries_session v req)) \<longrightarrow> session_token (sess st') = 0)"
  using left_behind_run [OF assms(1) _ assms(4,5)] assms(2,3) by (simp add: left_behind_def)

text \<open>A page left open: a poll in time, which is answered, and a late request, which ends the session.\<close>

definition left_page :: "bytes \<Rightarrow> bytes" where
  "left_page p = session_request (str ''GET'') p 7 [] []"

lemma left_page_carries:
  assumes "plain_word p" and "no_cookie session_cookie (request_line (str ''GET'') p)"
  shows "carries_session 7 (left_page p)"
proof -
  have "parse_u64 (dec_digits (unat (7 :: u64))) = Some 7" by (rule parse_u64_token)
  moreover have "utf8_valid (dec_digits n)" for n by (rule ascii_valid) simp
  ultimately show ?thesis
    using session_request_cookie [OF sample_words(1) assms, of "[]" 7 "[]"]
    by (simp add: carries_session_def left_page_def)
qed

lemma left_page_parts:
  assumes "plain_word p" and "63 \<notin> set p"
  shows "parse_request (left_page p) = \<lparr>raw = left_page p, http_method = str ''GET'', path = p, query = []\<rparr>"
    "body (parse_request (left_page p)) = Some []"
proof -
  have h: "10 \<notin> set (cookie_header (dec_digits (unat (7 :: u64))))" by code_simp
  show p: "parse_request (left_page p) = \<lparr>raw = left_page p, http_method = str ''GET'', path = p, query = []\<rparr>"
    using parse_request_line [OF sample_words(1) assms, of "[cookie_header (dec_digits (unat (7 :: u64)))]" "[]"] h
    by (simp add: left_page_def session_request_def)
  have "13 \<notin> set (cookie_header (dec_digits (unat (7 :: u64))))" "cookie_header (dec_digits (unat (7 :: u64))) \<noteq> []"
    by code_simp+
  then show "body (parse_request (left_page p)) = Some []"
    using assms(1) [THEN plain_word_no_lf] sample_words(1) [THEN plain_word_no_lf]
    by (intro body_request [of "[request_line (str ''GET'') p, cookie_header (dec_digits (unat (7 :: u64)))]"])
      (simp_all add: left_page_def session_request_def request_line_def)
qed

lemma left_page_no_login: "plain_word p \<Longrightarrow> 63 \<notin> set p \<Longrightarrow> \<not> login_credentials_match bounded_append (parse_request (left_page p)) e"
proof -
  have "parse_login_form bounded_append [] = (None, None)" by code_simp
  then show "plain_word p \<Longrightarrow> 63 \<notin> set p \<Longrightarrow> ?thesis" by (simp add: login_credentials_match_def left_page_parts(2))
qed

lemma served_or_panics:
  "(\<exists>acts st'. serve_connection ext bus p now (Some req) st = Inr (acts, st')) \<or>
    (\<exists>e. extract_cookie req session_cookie = Inl e)"
  using serve_panics [of ext bus p now req st] by (cases "serve_connection ext bus p now (Some req) st") (auto simp: authenticate_panics)

definition polls_then_returns :: "(reading \<times> bytes option) list" where
  "polls_then_returns =
    [(sample_reading\<lparr>at_validate := 500\<rparr>, Some (left_page (str ''/state''))),
     (sample_reading\<lparr>at_validate := 1001\<rparr>, Some (left_page (str ''/'')))]"

theorem abandoned_session_expires_witness:
  "\<exists>ass st'. web_run bounded_append sim_bus login_pool polls_then_returns open_web = Inr (ass, st') \<and>
    length ass = 2 \<and> ass ! 1 \<in> refusals \<and> session_token (sess st') = 0"
proof -
  have words: "63 \<notin> set (str ''/state'')" "63 \<notin> set (str ''/'')"
    "no_cookie session_cookie (request_line (str ''GET'') (str ''/state''))" by code_simp+
  note carries = left_page_carries [OF sample_words(3) words(3)] left_page_carries [OF sample_words(2,4)]
  note parts = left_page_parts [OF sample_words(3) words(1)] left_page_parts [OF sample_words(2) words(2)]
  have "\<not> (\<exists>e. extract_cookie (left_page p) session_cookie = Inl e)" if "carries_session 7 (left_page p)" for p
    using that by (auto simp: carries_session_def)
  then have "\<exists>acts st'. serve_connection bounded_append sim_bus login_pool now (Some (left_page p)) st = Inr (acts, st')"
    if "carries_session 7 (left_page p)" for p now st
    using that served_or_panics [of bounded_append sim_bus login_pool now "left_page p" st] by blast
  note served = this
  obtain acts1 st1 where s1: "serve_connection bounded_append sim_bus login_pool (sample_reading\<lparr>at_validate := 500\<rparr>)
      (Some (left_page (str ''/state''))) open_web = Inr (acts1, st1)"
    using served [OF carries(1)] by blast
  obtain acts2 st2 where s2: "serve_connection bounded_append sim_bus login_pool (sample_reading\<lparr>at_validate := 1001\<rparr>)
      (Some (left_page (str ''/''))) st1 = Inr (acts2, st2)"
    using served [OF carries(2)] by blast
  have run: "web_run bounded_append sim_bus login_pool polls_then_returns open_web = Inr ([acts1, acts2], st2)"
    by (simp add: polls_then_returns_def s1 s2 del: str_Cons)
  have "\<not> refreshes_session (parse_request (left_page (str ''/state'')))"
    unfolding parts refreshes_session_def by code_simp
  then have quiet: "\<forall>(now, received)\<in>set polls_then_returns. \<forall>req. received = Some req \<longrightarrow>
      \<not> login_credentials_match bounded_append (parse_request req) (p_expected_token login_pool) \<and>
      (carries_session 7 req \<and> refreshes_session (parse_request req) \<longrightarrow> 1000 < unat (at_validate now))"
    using left_page_no_login sample_words(2,3) words(1,2) by (simp add: polls_then_returns_def del: str_Cons)
  have "left_page (str ''/'') \<noteq> []" "utf8_valid (left_page (str ''/''))" by code_simp+
  then have late: "\<exists>(now, received)\<in>set polls_then_returns. 1000 < unat (at_validate now) \<and>
      (\<exists>req. received = Some req \<and> req \<noteq> [] \<and> utf8_valid req \<and> carries_session 7 req)"
    using carries(2) by (simp add: polls_then_returns_def del: str_Cons)
  have "unat (created (sess open_web)) + 900 = 1000" by (simp add: open_token)
  from abandoned_session_expires [OF login_pool_auth open_token(1) this quiet run] late
  have "[acts1, acts2] ! 1 \<in> refusals" "session_token (sess st2) = 0"
    by (auto simp: polls_then_returns_def simp del: str_Cons)
  with run show ?thesis by (intro exI conjI) auto
qed

section \<open>Saving the configuration\<close>

lemma save_route:
  assumes "http_method r = str ''POST''" and "path r = str ''/save''" and "body r = Some b"
  shows "route_authenticated ext bus cfg now r st =
    (case parse_form ext b cfg of
       None \<Rightarrow> (send_and_close HTTP_400, st)
     | Some c \<Rightarrow>
       (case save_config bus c (ee st) of
          (Inl e, g) \<Rightarrow> (send_and_close HTTP_500, st\<lparr>ee := g\<rparr>)
        | (Inr u, g) \<Rightarrow> ([Write HTTP_OK, Write SAVED_BODY] @ finish_response @ [Sleep 200, Reset], st\<lparr>ee := g\<rparr>)))"
  using assms by (simp add: route_authenticated_def save_and_reboot_def split: option.split prod.split sum.split)

text \<open>
  C4: an authenticated post to \<open>/save\<close> does what it says, from the form to the next boot: a form that
  does not parse is answered 400 and changes nothing; one that parses is stored, the device
  restarts, and the configuration it then loads is exactly the one that was submitted.
\<close>

theorem save_request_takes_effect:
  assumes "responsive_at24c02 bus cells idle" and "fixed_capacity ext" and "idle d"
    and "ee st = Some d" and "wf_config (p_cfg p)" and "req \<noteq> []" and "utf8_valid req"
    and "authenticate_request ext p now (parse_request req) (sess st) = Inr (True, [], s)"
    and "http_method (parse_request req) = str ''POST''" and "path (parse_request req) = str ''/save''"
    and "body (parse_request req) = Some b"
  shows "case parse_form ext b (p_cfg p) of
      None \<Rightarrow> serve_connection ext bus p now (Some req) st = Inr (send_and_close HTTP_400, st\<lparr>sess := s\<rparr>)
    | Some c \<Rightarrow> \<exists>acts d'. serve_connection ext bus p now (Some req) st = Inr (acts, st\<lparr>sess := s, ee := Some d'\<rparr>) \<and>
        last acts = Reset \<and> fst (load_config ext bus (Unheld (Some d'))) = c"
proof (cases "parse_form ext b (p_cfg p)")
  case None
  then show ?thesis
    by (simp add: serve_request [OF assms(6,7)] assms(8) save_route [OF assms(9-11)])
next
  case (Some c)
  have "wf_config c" using fixed_capacity.parse_form_wf [OF assms(2) Some assms(5)] .
  then obtain d' where "save_config bus c (Some d) = (Inr (), Some d')"
    and "fst (load_config ext bus (Unheld (Some d'))) = c"
    using save_config_loads [OF assms(1,2) _ assms(3)] by blast
  then show ?thesis
    by (simp add: Some serve_request [OF assms(6,7)] assms(4,8) save_route [OF assms(9-11)]) blast
qed

definition open_pool :: pool where
  "open_pool = start_pool bounded_append (default_config bounded_append) 7"

definition save_request :: bytes where
  "save_request = request_head [request_line (str ''POST'') (str ''/save'')] @ sample_form"

lemma save_request_facts:
  "save_request \<noteq> []" "utf8_valid save_request"
  "http_method (parse_request save_request) = str ''POST''" "path (parse_request save_request) = str ''/save''"
  "body (parse_request save_request) = Some sample_form"
proof -
  have words: "plain_word (str ''POST'')" "plain_word (str ''/save'')" by code_simp+
  have "parse_request save_request = \<lparr>raw = save_request, http_method = str ''POST'', path = str ''/save'', query = []\<rparr>"
    using parse_request_line [OF words, of "[]" sample_form] by (simp add: save_request_def)
  then show "http_method (parse_request save_request) = str ''POST''" "path (parse_request save_request) = str ''/save''"
    by simp_all
  show "body (parse_request save_request) = Some sample_form"
    by (rule body_request [of "[request_line (str ''POST'') (str ''/save'')]"])
      (simp_all add: save_request_def request_line_def)
  show "save_request \<noteq> []" "utf8_valid save_request" by code_simp+
qed

theorem save_request_takes_effect_witness:
  "\<exists>acts d'. serve_connection bounded_append sim_bus open_pool sample_reading (Some save_request) boot_web
      = Inr (acts, boot_web\<lparr>ee := Some d'\<rparr>) \<and> last acts = Reset \<and>
    fst (load_config bounded_append sim_bus (Unheld (Some d'))) = sample_saved"
proof -
  have idle: "sim_idle blank_chip" by (simp add: sim_idle_def blank_chip_def)
  have cfg: "p_cfg open_pool = default_config bounded_append" "\<not> p_auth_required open_pool"
    by (simp_all add: open_pool_def start_pool_def default_config_def)
  have auth: "authenticate_request bounded_append open_pool sample_reading (parse_request save_request) (sess boot_web)
      = Inr (True, [], sess boot_web)"
    by (simp add: authenticate_request_def cfg)
  have "ee boot_web = Some blank_chip" "boot_web\<lparr>sess := sess boot_web\<rparr> = boot_web"
    by (simp_all add: boot_web_def)
  then show ?thesis
    using save_request_takes_effect [OF sim_responsive bounded_capacity idle _ _ save_request_facts(1,2) auth
        save_request_facts(3-5)]
      hl.default_config_wf sample_form_parses by (simp add: cfg)
qed

end
