(* ===== verification/Boot.thy ===== *)
theory Boot
  imports Mqtt Web_Server
begin

text \<open>
  \<open>src/main.rs\<close>: what the firmware does before its tasks run, in the order of the code: the reset
  reason, the recovery of the I2C bus, the EEPROM, the stored configuration and LED states, the
  outputs. Clock tree, peripheral registers, the network stack and the spawning of tasks are
  \<open>embassy\<close>'s. The periods of \<open>heartbeat.rs\<close> and \<open>watchdog.rs\<close> are here too.
\<close>

section \<open>Recovery of the I2C bus\<close>

text \<open>What the code does with the two lines; a half period is 840 cycles.\<close>

datatype gpio = Scl bool | Sda bool | Delay nat

definition HALF :: nat where "HALF = 840"

definition clock_pulse :: "gpio list" where
  "clock_pulse = [Scl False, Delay HALF, Scl True, Delay HALF]"

text \<open>The \<open>for\<close> loop: \<open>sda i\<close> is the level of SDA read after pulse \<open>i\<close>.\<close>

fun recovery_loop :: "(nat \<Rightarrow> bool) \<Rightarrow> nat \<Rightarrow> nat \<Rightarrow> gpio list" where
  "recovery_loop sda i 0 = []"
| "recovery_loop sda i (Suc n) = clock_pulse @ (if sda i then [] else recovery_loop sda (Suc i) n)"

definition stop_condition :: "gpio list" where
  "stop_condition =
    [Scl False, Delay HALF, Sda False, Delay HALF, Scl True, Delay HALF, Sda True, Delay HALF]"

definition i2c_recovery :: "(nat \<Rightarrow> bool) \<Rightarrow> gpio list" where
  "i2c_recovery sda = recovery_loop sda 0 9 @ stop_condition"

lemma recovery_loop_pulses:
  "\<exists>k. recovery_loop sda i n = concat (replicate k clock_pulse) \<and> k \<le> n \<and> (0 < n \<longrightarrow> 0 < k) \<and>
    (\<forall>j. Suc j < k \<longrightarrow> \<not> sda (i + j)) \<and> (0 < k \<and> k < n \<longrightarrow> sda (i + k - 1))"
proof (induction n arbitrary: i)
  case (Suc n)
  show ?case
  proof (cases "sda i")
    case True
    then show ?thesis by (intro exI [of _ 1]) auto
  next
    case False
    obtain k where k: "recovery_loop sda (Suc i) n = concat (replicate k clock_pulse)" "k \<le> n" "0 < n \<longrightarrow> 0 < k"
      "\<forall>j. Suc j < k \<longrightarrow> \<not> sda (Suc i + j)" "0 < k \<and> k < n \<longrightarrow> sda (Suc i + k - 1)"
      using Suc.IH [of "Suc i"] by blast
    have "\<not> sda (i + j)" if "Suc j < Suc k" for j
      using that k(4) False by (cases j) auto
    with k False show ?thesis by (intro exI [of _ "Suc k"]) auto
  qed
qed simp

text \<open>
  C40: the recovery always ends: it gives between one and nine clock pulses, stops after the first
  one that leaves the data line released, and closes with a stop condition, a rising data line
  under a high clock, with both lines high.
\<close>

theorem recovery_is_bounded:
  "\<exists>k. 1 \<le> k \<and> k \<le> 9 \<and> i2c_recovery sda = concat (replicate k clock_pulse) @ stop_condition \<and>
    (\<forall>j. Suc j < k \<longrightarrow> \<not> sda j) \<and> (k < 9 \<longrightarrow> sda (k - 1))"
  using recovery_loop_pulses [of sda 0 9] by (auto simp: i2c_recovery_def Suc_le_eq)

theorem recovery_is_bounded_witness:
  "i2c_recovery (\<lambda>i. i = 3) = concat (replicate 4 clock_pulse) @ stop_condition"
proof -
  obtain k where k: "1 \<le> k" "k \<le> 9" "i2c_recovery (\<lambda>i. i = 3) = concat (replicate k clock_pulse) @ stop_condition"
    "\<forall>j. Suc j < k \<longrightarrow> j \<noteq> 3" "k < 9 \<longrightarrow> k - 1 = 3"
    using recovery_is_bounded [of "\<lambda>i. i = 3"] by blast
  have "k = 4"
  proof (cases "k < 9")
    case True
    then show ?thesis using k(1,5) by simp
  next
    case False
    then have "Suc 3 < k" using k(2) by simp
    then show ?thesis using k(4) by blast
  qed
  with k(3) show ?thesis by simp
qed

section \<open>Booting\<close>

definition guard_of :: "'a option mutex \<Rightarrow> 'a option" where
  "guard_of m = (case try_lock m of Some g \<Rightarrow> g | None \<Rightarrow> None)"

text \<open>The levels the output pins are created with.\<close>

definition output_pins_at_boot :: output_pins where
  "output_pins_at_boot = \<lparr>pin_led1 = True, pin_led2 = True, pin_relay = False\<rparr>"

definition boot ::
  "heapless \<Rightarrow> ('d, 'e) i2c_bus \<Rightarrow> 'd \<Rightarrow> u32 \<Rightarrow> csr \<Rightarrow> panic + reset_reason \<times> network_config \<times> 'd device" where
  "boot ext bus chip soft_marker flags =
    (let (reason, m, flags') = read_and_clear soft_marker flags in
     case init_global chip (Unheld None) of
       Inl e \<Rightarrow> Inl e
     | Inr slot \<Rightarrow>
       (let (net_cfg, slot) = load_config ext bus slot in
        case load_state bus slot (Unheld None) of
          Inl e \<Rightarrow> Inl e
        | Inr (saved_state, slot, cache) \<Rightarrow>
          (let outs = register output_pins_at_boot outputs_new;
               outs = set_led led_id.Led1 (led1 saved_state) outs;
               outs = set_led led_id.Led2 (led2 saved_state) outs
           in Inr (reason, net_cfg,
                \<lparr>outputs = outs, relay_trigger = None, relay_change = None, led_cache = guard_of cache,
                 eeprom = guard_of slot, mqtt_online = False, marker = m\<rparr>))))"

text \<open>The hardware address: locally administered, from the first bytes of the chip's identifier.\<close>

definition mac_addr :: "bytes \<Rightarrow> bytes" where
  "mac_addr uid = 0x02 # take 5 uid"

lemma boot_result:
  "\<exists>cfg slot saved slot'. load_config ext bus (Unheld (Some chip)) = (cfg, slot) \<and>
    load_state bus slot (Unheld None) = Inr (saved, slot', Unheld (Some saved)) \<and>
    (\<exists>g. boot ext bus chip mk flags = Inr (fst (read_and_clear mk flags), cfg, g) \<and>
      ready (outputs g) \<and> \<not> get_relay (outputs g) \<and> shown_leds g = saved \<and>
      led_cache g = Some saved \<and> eeprom g = guard_of slot')"
proof -
  obtain cfg slot where c: "load_config ext bus (Unheld (Some chip)) = (cfg, slot)" by fastforce
  obtain saved slot' where s: "load_state bus slot (Unheld None) = Inr (saved, slot', Unheld (Some saved))"
    by (cases "read_slot bus STATE_BASE 8 slot") (auto simp: load_state_def Let_def)
  show ?thesis
    using c s
    by (simp add: boot_def init_global_def Let_def guard_of_def outputs_new_def output_pins_at_boot_def
        shown_leds_def drive_active_low_def split: prod.split)
qed

lemma booted_chip:
  assumes "responsive_at24c02 bus cells idle" and "idle chip"
  shows "\<exists>d d'. read_bytes bus CONFIG_BASE LEN chip = (Inr (window (cells chip) CONFIG_BASE LEN), d) \<and>
    read_bytes bus STATE_BASE 8 d = (Inr (window (cells chip) STATE_BASE 8), d') \<and> idle d' \<and> cells d' = cells chip"
proof -
  note chip = responsive_at24c02.axioms(1) [OF assms(1)]
  note read = responsive_at24c02.read_succeeds [OF assms(1)]
  obtain d where r: "read_bytes bus CONFIG_BASE LEN chip = (Inr (window (cells chip) CONFIG_BASE LEN), d)" "idle d"
    using read [OF assms(2)] by blast
  obtain d' where r': "read_bytes bus STATE_BASE 8 d = (Inr (window (cells d) STATE_BASE 8), d')" "idle d'"
    using read [OF r(2)] by blast
  with r at24c02.read_cells_same [OF chip r(1)] at24c02.read_cells_same [OF chip r'(1)] show ?thesis by auto
qed

text \<open>
  The firmware boots from anything: whatever the EEPROM, the bus, the marker and the reset flags
  hold, no panic occurs before the tasks start, the configuration is well-formed, the relay is
  open, and the LEDs are shown as cached.
\<close>

lemma boot_is_safe:
  assumes "fixed_capacity ext"
  shows "\<exists>cfg g. boot ext bus chip mk flags = Inr (fst (read_and_clear mk flags), cfg, g) \<and> wf_config cfg \<and>
    ready (outputs g) \<and> \<not> get_relay (outputs g) \<and> led_cache g = Some (shown_leds g)"
proof -
  obtain cfg slot saved slot' g where c: "load_config ext bus (Unheld (Some chip)) = (cfg, slot)"
    and b: "boot ext bus chip mk flags = Inr (fst (read_and_clear mk flags), cfg, g)" "ready (outputs g)"
      "\<not> get_relay (outputs g)" "shown_leds g = saved" "led_cache g = Some saved"
    using boot_result [of ext bus chip mk flags] by blast
  have "wf_config cfg" using load_config_wf [OF assms, of bus "Unheld (Some chip)"] c by simp
  with b show ?thesis by auto
qed

definition stored_chip :: sim where
  "stored_chip = blank_chip\<lparr>sim_cells :=
     overlay (overlay (\<lambda>_. 0xFF) CONFIG_BASE (to_bytes (default_config bounded_append)))
       STATE_BASE (image_of_state \<lparr>led1 = True, led2 = False\<rparr>)\<rparr>"

definition power_on_flags :: csr where
  "power_on_flags = \<lparr>porrstf = True, borrstf = True, wdgrstf = False, sftrstf = False, padrstf = True, rmvf = False\<rparr>"

lemma boot_core:
  assumes "responsive_at24c02 bus cells idle" and "idle chip"
  shows "\<exists>g. boot ext bus chip mk flags = Inr (fst (read_and_clear mk flags),
      (case from_bytes ext (window (cells chip) CONFIG_BASE LEN) of None \<Rightarrow> default_config ext | Some c \<Rightarrow> c), g) \<and>
    shown_leds g = stored_state (cells chip) \<and> led_inv cells idle g \<and> \<not> get_relay (outputs g) \<and>
    (\<exists>d. eeprom g = Some d \<and> cells d = cells chip)"
proof -
  note at = responsive_at24c02.axioms(1) [OF assms(1)]
  obtain d d' where r: "read_bytes bus CONFIG_BASE LEN chip = (Inr (window (cells chip) CONFIG_BASE LEN), d)"
    and r': "read_bytes bus STATE_BASE 8 d = (Inr (window (cells chip) STATE_BASE 8), d')"
    and i: "idle d'" "cells d' = cells chip"
    using booted_chip [OF assms(1,2)] by blast
  let ?cfg = "case from_bytes ext (window (cells chip) CONFIG_BASE LEN) of None \<Rightarrow> default_config ext | Some c \<Rightarrow> c"
  have c: "load_config ext bus (Unheld (Some chip)) = (?cfg, Unheld (Some d))"
    using r by (simp add: load_config_def read_slot_def split: option.split)
  have "load_state bus (Unheld (Some d)) (Unheld None) =
      Inr (stored_state (cells chip), Unheld (Some d'), Unheld (Some (stored_state (cells chip))))"
    using r' by (simp add: load_state_def read_slot_def stored_state_def Let_def)
  with c obtain g where b: "boot ext bus chip mk flags = Inr (fst (read_and_clear mk flags), ?cfg, g)"
    and g: "ready (outputs g)" "shown_leds g = stored_state (cells chip)"
      "led_cache g = Some (stored_state (cells chip))" "eeprom g = Some d'"
      "\<not> get_relay (outputs g)"
    using boot_result [of ext bus chip mk flags] by (auto simp: guard_of_def)
  have "led_inv cells idle g" using g i by (simp add: led_inv_def coherent_def)
  with b g i(2) show ?thesis by blast
qed

text \<open>
  C13: on a chip that answers, booting restores what was stored: the configuration the image parses
  to, and the LED states; and it establishes the invariant under which every later LED message
  keeps the LEDs, the cache and the EEPROM in agreement.
\<close>

theorem boot_restores:
  assumes "responsive_at24c02 bus cells idle" and "idle chip"
    and "from_bytes ext (window (cells chip) CONFIG_BASE LEN) = Some stored"
  shows "\<exists>g. boot ext bus chip mk flags = Inr (fst (read_and_clear mk flags), stored, g) \<and>
    shown_leds g = stored_state (cells chip) \<and> led_inv cells idle g"
  using boot_core [OF assms(1,2), of ext mk flags] assms(3) by auto

lemma stored_chip_facts:
  "sim_idle stored_chip"
  "from_bytes bounded_append (window (sim_cells stored_chip) CONFIG_BASE LEN) = Some (default_config bounded_append)"
  "stored_state (sim_cells stored_chip) = \<lparr>led1 = True, led2 = False\<rparr>"
proof -
  let ?c = "overlay (\<lambda>_. 0xFF) CONFIG_BASE (to_bytes (default_config bounded_append))"
  show "sim_idle stored_chip" by (simp add: stored_chip_def sim_idle_def blank_chip_def)
  show "stored_state (sim_cells stored_chip) = \<lparr>led1 = True, led2 = False\<rparr>"
    by (simp add: stored_chip_def)
  have "8 \<le> unat (CONFIG_BASE + of_nat i - STATE_BASE)" if "i < LEN" for i
    using that by (simp add: CONFIG_BASE_def STATE_BASE_def LEN_def unat_word_ariths)
  then have "window (sim_cells stored_chip) CONFIG_BASE LEN = window ?c CONFIG_BASE LEN"
    by (simp add: stored_chip_def window_def overlay_other)
  also have "\<dots> = to_bytes (default_config bounded_append)"
    using window_overlay [of "to_bytes (default_config bounded_append)"] by simp
  finally show "from_bytes bounded_append (window (sim_cells stored_chip) CONFIG_BASE LEN)
      = Some (default_config bounded_append)"
    using hl.from_to_bytes [OF hl.default_config_wf] by simp
qed

theorem boot_restores_witness:
  "\<exists>g. boot bounded_append sim_bus stored_chip TAG_REMOTE_REBOOT power_on_flags
      = Inr (RemoteReboot, default_config bounded_append, g) \<and> shown_leds g = \<lparr>led1 = True, led2 = False\<rparr>"
proof -
  have "fst (read_and_clear TAG_REMOTE_REBOOT power_on_flags) = RemoteReboot"
    using tags_distinct by (simp add: read_and_clear_def)
  then show ?thesis
    using boot_restores [where mk = TAG_REMOTE_REBOOT and flags = power_on_flags, OF sim_responsive stored_chip_facts(1,2)]
      stored_chip_facts(3) by auto
qed

section \<open>The periodic tasks\<close>

text \<open>One turn of \<open>heartbeat_led_task\<close> and of \<open>watchdog_task\<close>; times in milliseconds.\<close>

datatype periodic = Led3_Low | Led3_High | Pet | Wait nat

definition heartbeat_turn :: "periodic list" where
  "heartbeat_turn = [Led3_Low, Wait 100, Led3_High, Wait 5000]"

definition WATCHDOG_TIMEOUT_US :: nat where "WATCHDOG_TIMEOUT_US = 20000000"

definition watchdog_turn :: "periodic list" where
  "watchdog_turn = [Pet, Wait 1500]"

definition duration_ms :: "periodic list \<Rightarrow> nat" where
  "duration_ms ps = sum_list (map (\<lambda>p. case p of Wait t \<Rightarrow> t | _ \<Rightarrow> 0) ps)"

lemma heartbeat_period: "duration_ms heartbeat_turn = 5100"
  by (simp add: duration_ms_def heartbeat_turn_def)

lemma watchdog_margin: "13 * duration_ms watchdog_turn * 1000 < WATCHDOG_TIMEOUT_US"
  by (simp add: duration_ms_def watchdog_turn_def WATCHDOG_TIMEOUT_US_def)

end
