(* ===== verification/System.thy ===== *)
theory System
  imports Boot
begin

text \<open>
  The whole device: the tasks of \<open>src/main.rs\<close> running against the statics they share. A step is
  what one task does between two awaits that matter to the others; the executor takes them in any
  order. The awaits inside a task that others can see are the ones behind the EEPROM: taking its
  mutex, and the write cycle after every byte. A handler's other awaits (its writes to the socket)
  come after everything it does to the shared state. A reset can come between any two steps. One
  inside a write cycle, after which the cell being written may hold anything, is not a step of a
  run but the start of a new one: the starts are allowed on any idle chip, whatever its cells.
\<close>

section \<open>Handlers split at their awaits\<close>

text \<open>What a message commands, what a command drives at once, and the LED update it stores.\<close>

definition event_command :: "event \<Rightarrow> output_cmd option" where
  "event_command ev =
    (case ev of Other_Event \<Rightarrow> None
     | Publish retain topic payload \<Rightarrow> if retain then None else mqtt_command topic payload)"

fun drive_leds :: "output_cmd \<Rightarrow> shared_outputs \<Rightarrow> shared_outputs" where
  "drive_leds (output_cmd.Led1 on) outs = set_led led_id.Led1 on outs"
| "drive_leds (output_cmd.Led2 on) outs = set_led led_id.Led2 on outs"
| "drive_leds (AllLeds on) outs = set_led led_id.Led2 on (set_led led_id.Led1 on outs)"
| "drive_leds _ outs = outs"

fun led_update :: "output_cmd \<Rightarrow> (output_state \<Rightarrow> output_state) option" where
  "led_update (output_cmd.Led1 on) = Some (\<lambda>s. s\<lparr>led1 := on\<rparr>)"
| "led_update (output_cmd.Led2 on) = Some (\<lambda>s. s\<lparr>led2 := on\<rparr>)"
| "led_update (AllLeds on) = Some (\<lambda>s. s\<lparr>led1 := on, led2 := on\<rparr>)"
| "led_update _ = None"

text \<open>The state \<open>save_field\<close> writes when it gets the EEPROM, or nothing when the cache has it.\<close>

definition changed_state :: "(output_state \<Rightarrow> output_state) \<Rightarrow> output_state option \<Rightarrow> output_state option" where
  "changed_state update cache =
    (let state = update (case cache of None \<Rightarrow> default_output | Some s \<Rightarrow> s) in
     if cache = Some state then None else Some state)"

text \<open>The session and the configuration with which a request reaches \<open>save_config\<close>.\<close>

definition save_submission :: "heapless \<Rightarrow> network_config \<Rightarrow> parsed_request \<Rightarrow> network_config option" where
  "save_submission ext cfg r =
    (if http_method r = str ''POST'' \<and> path r = str ''/save''
     then (case body r of None \<Rightarrow> None | Some b \<Rightarrow> parse_form ext b cfg) else None)"

definition submits ::
  "heapless \<Rightarrow> pool \<Rightarrow> reading \<Rightarrow> bytes option \<Rightarrow> session \<Rightarrow> (session \<times> network_config) option" where
  "submits ext p now received s =
    (case received of
       Some (b # bs) \<Rightarrow>
         (case from_utf8 (b # bs) of
            Some req \<Rightarrow>
              (case authenticate_request ext p now (parse_request req) s of
                 Inr (True, acts, s') \<Rightarrow> map_option (Pair s') (save_submission ext (p_cfg p) (parse_request req))
               | _ \<Rightarrow> None)
          | None \<Rightarrow> None)
     | _ \<Rightarrow> None)"

section \<open>State\<close>

text \<open>
  Where the MQTT task is suspended: between connections, at the top of its loop with the due time
  of the next heartbeat, or inside \<open>save_field\<close>, waiting for the EEPROM or after so many bytes.
\<close>

datatype mqtt_pc = Offline | Polling nat | Led_Locking output_state nat | Led_Writing output_state nat nat

text \<open>
  Where a web task is suspended: waiting for a request, inside \<open>save_config\<close>, or in the delay before
  a reset it asked for.
\<close>

datatype web_pc = Accepting | Config_Locking network_config | Config_Writing network_config nat | Resetting

datatype pool_id = Pool_A | Pool_B

text \<open>
  The statics (\<open>dev\<close> and the session), the position of every task, the broker connection, the
  clock, and what the tasks were started with. \<open>pending\<close> belongs to the proofs: the configuration
  the last complete save stored, or the one that was booted.
\<close>

record ('d, 'c) system =
  dev :: "'d device"
  web_session :: session
  clock_ms :: nat
  relay_at :: relay_task
  mqtt_at :: mqtt_pc
  web_at :: "pool_id \<Rightarrow> web_pc"
  client :: 'c
  reason :: reset_reason
  pools :: "pool_id \<Rightarrow> pool"
  running :: network_config
  pending :: network_config

definition eeprom_locked :: "('d, 'c) system \<Rightarrow> bool" where
  "eeprom_locked s \<longleftrightarrow> (\<exists>x i due. mqtt_at s = Led_Writing x i due) \<or> (\<exists>q c i. web_at s q = Config_Writing c i)"

text \<open>A restart: everything but the chip and the marker word starts anew.\<close>

definition started ::
  "heapless \<Rightarrow> ('d, 'e) i2c_bus \<Rightarrow> 'd \<Rightarrow> u32 \<Rightarrow> ('d, 'c) system \<Rightarrow> bool" where
  "started ext bus chip mk s \<longleftrightarrow>
    (\<exists>flags. boot ext bus chip mk flags = Inr (reason s, running s, dev s)) \<and>
    web_session s = boot_session \<and> clock_ms s = 0 \<and> relay_at s = Waiting \<and> mqtt_at s = Offline \<and>
    web_at s = (\<lambda>_. Accepting) \<and> (\<forall>q. \<exists>t. pools s q = start_pool ext (running s) t) \<and> pending s = running s"

text \<open>What a connection reads agrees with the statics and the clock; only the link is the environment's.\<close>

definition reads :: "('d, 'c) system \<Rightarrow> reading \<Rightarrow> bool" where
  "reads s now \<longleftrightarrow>
    (let t = of_nat (clock_ms s div 1000) in
     at_validate now = t \<and> at_login now = (t, t, t) \<and> v_outputs (shows_view now) = outputs (dev s) \<and>
     v_mqtt (shows_view now) = mqtt_online (dev s) \<and> v_uptime (shows_view now) = t \<and> shows_reset now = reason s)"

section \<open>Steps\<close>

text \<open>What a step takes from outside, and what a web task answers.\<close>

datatype label = Tick | Relay_Poll | Connect bool | Round header | Led_Save
  | Request pool_id reading "bytes option" "action list" | Config_Save pool_id | Restart

inductive sys_step ::
  "heapless \<Rightarrow> ('d, 'e) i2c_bus \<Rightarrow> 'c mqtt_client \<Rightarrow> ('d, 'c) system \<Rightarrow> label \<Rightarrow> ('d, 'c) system \<Rightarrow> bool"
  for ext bus ops where
  Time: "clock_ms s \<le> t \<Longrightarrow> sys_step ext bus ops s Tick (s\<lparr>clock_ms := t\<rparr>)"
| Relay: "relay_poll (clock_ms s) (relay_at s) (dev s) = (k, g) \<Longrightarrow>
    sys_step ext bus ops s Relay_Poll (s\<lparr>relay_at := k, dev := g\<rparr>)"
| Connected: "mqtt_at s = Offline \<Longrightarrow> mqtt_connect ops (running s) (reason s) tcp (c, dev s) = (ok, c', g) \<Longrightarrow>
    sys_step ext bus ops s (Connect tcp) (s\<lparr>client := c', dev := g,
      mqtt_at := if ok then Polling (clock_ms s + HEARTBEAT_INTERVAL_MS) else Offline\<rparr>)"
| Round_Led: "mqtt_at s = Polling due \<Longrightarrow> heartbeat_due ops (clock_ms s) due (client s) = (due', c) \<Longrightarrow>
    event_command ev = Some cmd \<Longrightarrow> led_update cmd = Some update \<Longrightarrow>
    sys_step ext bus ops s (Round (Body ev)) (s\<lparr>client := c, dev := (dev s)\<lparr>outputs := drive_leds cmd (outputs (dev s))\<rparr>,
      mqtt_at := (case changed_state update (led_cache (dev s)) of None \<Rightarrow> Polling due' | Some x \<Rightarrow> Led_Locking x due')\<rparr>)"
| Round_Other: "mqtt_at s = Polling due \<Longrightarrow> heartbeat_due ops (clock_ms s) due (client s) = (due', c) \<Longrightarrow>
    (\<And>ev cmd. h = Body ev \<Longrightarrow> event_command ev = Some cmd \<Longrightarrow> led_update cmd = None) \<Longrightarrow>
    mqtt_step bus ops h (c, dev s) = (e, c', g) \<Longrightarrow> e \<noteq> Rebooted \<Longrightarrow>
    sys_step ext bus ops s (Round h) (s\<lparr>client := c',
      dev := (if e = Returned then g\<lparr>mqtt_online := False\<rparr> else g),
      mqtt_at := (if e = Returned then Offline else Polling due')\<rparr>)"
| Round_Reboot: "mqtt_at s = Polling due \<Longrightarrow> heartbeat_due ops (clock_ms s) due (client s) = (due', c) \<Longrightarrow>
    mqtt_step bus ops (Body ev) (c, dev s) = (Rebooted, c', g) \<Longrightarrow> eeprom g = Some d \<Longrightarrow>
    started ext bus d (marker g) s' \<Longrightarrow> sys_step ext bus ops s (Round (Body ev)) s'"
| Led_Lock: "mqtt_at s = Led_Locking x due \<Longrightarrow> \<not> eeprom_locked s \<Longrightarrow>
    sys_step ext bus ops s Led_Save (s\<lparr>mqtt_at := Led_Writing x 0 due\<rparr>)"
| Led_Byte: "mqtt_at s = Led_Writing x i due \<Longrightarrow> i < 8 \<Longrightarrow> eeprom (dev s) = Some d \<Longrightarrow>
    write_step bus STATE_BASE i (image_of_state x ! i) d = (r, d') \<Longrightarrow>
    sys_step ext bus ops s Led_Save (s\<lparr>dev := (dev s)\<lparr>eeprom := Some d'\<rparr>,
      mqtt_at := (case r of Inl e \<Rightarrow> Polling due | Inr u \<Rightarrow> Led_Writing x (Suc i) due)\<rparr>)"
| Led_Done: "mqtt_at s = Led_Writing x 8 due \<Longrightarrow>
    sys_step ext bus ops s Led_Save (s\<lparr>dev := (dev s)\<lparr>led_cache := Some x\<rparr>, mqtt_at := Polling due\<rparr>)"
| Served: "web_at s q = Accepting \<Longrightarrow> reads s now \<Longrightarrow> submits ext (pools s q) now received (web_session s) = None \<Longrightarrow>
    serve_connection ext bus (pools s q) now received \<lparr>sess = web_session s, ee = eeprom (dev s)\<rparr> = Inr (acts, st) \<Longrightarrow>
    sys_step ext bus ops s (Request q now received acts) (s\<lparr>web_session := sess st,
      dev := (dev s)\<lparr>eeprom := ee st\<rparr>, web_at := (web_at s)(q := if Reset \<in> set acts then Resetting else Accepting)\<rparr>)"
| Panicked: "web_at s q = Accepting \<Longrightarrow> reads s now \<Longrightarrow>
    serve_connection ext bus (pools s q) now received \<lparr>sess = web_session s, ee = eeprom (dev s)\<rparr> = Inl e \<Longrightarrow>
    eeprom (dev s) = Some d \<Longrightarrow> started ext bus d (marker (dev s)) s' \<Longrightarrow>
    sys_step ext bus ops s (Request q now received []) s'"
| Save_Begin: "web_at s q = Accepting \<Longrightarrow> reads s now \<Longrightarrow>
    submits ext (pools s q) now received (web_session s) = Some (se, c) \<Longrightarrow>
    sys_step ext bus ops s (Request q now received []) (s\<lparr>web_session := se, web_at := (web_at s)(q := Config_Locking c)\<rparr>)"
| Save_Lock: "web_at s q = Config_Locking c \<Longrightarrow> \<not> eeprom_locked s \<Longrightarrow>
    sys_step ext bus ops s (Config_Save q) (s\<lparr>web_at := (web_at s)(q := Config_Writing c 0)\<rparr>)"
| Save_Byte: "web_at s q = Config_Writing c i \<Longrightarrow> i < LEN \<Longrightarrow> eeprom (dev s) = Some d \<Longrightarrow>
    write_step bus CONFIG_BASE i (to_bytes c ! i) d = (r, d') \<Longrightarrow>
    sys_step ext bus ops s (Config_Save q) (s\<lparr>dev := (dev s)\<lparr>eeprom := Some d'\<rparr>,
      web_at := (web_at s)(q := (case r of Inl e \<Rightarrow> Accepting | Inr u \<Rightarrow> Config_Writing c (Suc i)))\<rparr>)"
| Save_Done: "web_at s q = Config_Writing c LEN \<Longrightarrow>
    sys_step ext bus ops s (Config_Save q) (s\<lparr>web_at := (web_at s)(q := Resetting), pending := c\<rparr>)"
| Web_Reset: "web_at s q = Resetting \<Longrightarrow> eeprom (dev s) = Some d \<Longrightarrow> started ext bus d (marker (dev s)) s' \<Longrightarrow>
    sys_step ext bus ops s (Config_Save q) s'"
| Reset: "eeprom (dev s) = Some d \<Longrightarrow> started ext bus d mk s' \<Longrightarrow> sys_step ext bus ops s Restart s'"

inductive_cases sys_stepE: "sys_step ext bus ops s l s'"

inductive sys_run ::
  "heapless \<Rightarrow> ('d, 'e) i2c_bus \<Rightarrow> 'c mqtt_client \<Rightarrow> ('d, 'c) system \<Rightarrow> label list \<Rightarrow> ('d, 'c) system \<Rightarrow> bool"
  for ext bus ops where
  Refl: "sys_run ext bus ops s [] s"
| Step: "sys_run ext bus ops s ls s' \<Longrightarrow> sys_step ext bus ops s' l s'' \<Longrightarrow> sys_run ext bus ops s (ls @ [l]) s''"

section \<open>What the steps leave alone\<close>

lemma save_field_changed:
  "save_field bus update (cache, Some d) =
    (case changed_state update cache of
       None \<Rightarrow> (cache, Some d)
     | Some x \<Rightarrow> (case write_bytes bus STATE_BASE (image_of_state x) d of
         (Inr u, d') \<Rightarrow> (Some x, Some d') | (Inl e, d') \<Rightarrow> (cache, Some d')))"
  by (simp add: save_field_def changed_state_def Let_def split: prod.split sum.split)

lemma mqtt_step_frame:
  assumes "mqtt_step bus ops h (c, g) = (e, c', g')"
    and "\<And>ev cmd. h = Body ev \<Longrightarrow> event_command ev = Some cmd \<Longrightarrow> led_update cmd = None"
  shows "outputs g' = outputs g \<and> led_cache g' = led_cache g \<and> eeprom g' = eeprom g"
proof -
  have "outputs g1 = outputs g \<and> led_cache g1 = led_cache g \<and> eeprom g1 = eeprom g"
    if "handle_event bus ops ev (c, g) = (f, c1, g1)" and "h = Body ev" for ev f c1 g1
  proof (cases "event_command ev")
    case None
    with that show ?thesis
      by (auto simp: handle_event_def event_command_def split: event.splits option.splits if_splits)
  next
    case (Some cmd)
    then have r: "run_command bus ops cmd (c, g) = (f, c1, g1)"
      using that by (auto simp: handle_event_def event_command_def split: event.splits option.splits if_splits)
    have "led_update cmd = None" using assms(2) that(2) Some by blast
    with r show ?thesis by (cases cmd) (auto simp: pulse_relay_def relay_off_def split: if_splits)
  qed
  then show ?thesis
    using assms(1)
    by (auto simp: mqtt_step_def split: header.splits prod.splits flow.splits option.splits if_splits)
qed

lemma reboot_step:
  assumes "mqtt_step bus ops h (c, g) = (Rebooted, c', g')"
  shows "g' = g\<lparr>marker := mark_remote_reboot (marker g)\<rparr>"
proof -
  obtain cmd where "run_command bus ops cmd (c, g) = (Resets, c', g')"
    using assms by (auto simp: mqtt_step_def handle_event_def
        split: header.splits prod.splits flow.splits event.splits option.splits if_splits)
  then show ?thesis by (cases cmd) auto
qed

lemma mqtt_connect_frame:
  "mqtt_connect ops cfg rs tcp (c, g) = (ok, c', g') \<Longrightarrow>
    outputs g' = outputs g \<and> led_cache g' = led_cache g \<and> eeprom g' = eeprom g"
  by (auto simp: mqtt_connect_def Let_def split: if_splits prod.splits bool.splits)

lemma route_frame:
  assumes "route_authenticated ext bus cfg now r st = (acts, st')" and "save_submission ext cfg r = None"
  shows "ee st' = ee st"
  using assms
  by (auto simp: route_authenticated_def save_submission_def save_and_reboot_def simp del: str_Cons
      split: if_split_asm option.split_asm prod.split_asm)

lemma serve_frame:
  assumes "serve_connection ext bus p now received st = Inr (acts, st')"
    and "submits ext p now received (sess st) = None"
  shows "ee st' = ee st"
proof (cases "\<exists>req. received = Some req \<and> req \<noteq> [] \<and> utf8_valid req")
  case False
  from serve_nothing [OF this, of ext bus p now st] assms(1) show ?thesis by auto
next
  case True
  then obtain req where req: "received = Some req" "req \<noteq> []" "utf8_valid req" by blast
  from assms(1) show ?thesis
    unfolding req(1) serve_request [OF req(2,3)]
    using assms(2) req route_frame [of ext bus "p_cfg p" now "parse_request req"]
    by (auto simp: submits_def from_utf8_def neq_Nil_conv split: sum.splits bool.splits prod.splits)
qed

lemma drive_leds_ready [simp]: "ready (drive_leds cmd outs) = ready outs"
  "get_relay (drive_leds cmd outs) = get_relay outs"
  by (cases cmd; simp)+

lemma drive_leds_shown:
  "led_update cmd = Some update \<Longrightarrow> ready (outputs g) \<Longrightarrow>
    shown_leds (g\<lparr>outputs := drive_leds cmd (outputs g)\<rparr>) = update (shown_leds g)"
  by (cases cmd) (auto simp: shown_leds_def)

lemma shown_leds_eq: "outputs g' = outputs g \<Longrightarrow> shown_leds g' = shown_leds g"
  by (simp add: shown_leds_def)

lemma relay_poll_device:
  assumes "relay_poll t k (g :: 'd device) = (k', g')"
  shows "led_cache g' = led_cache g \<and> eeprom g' = eeprom g \<and> shown_leds g' = shown_leds g"
proof -
  have "relay_io.more g' = relay_io.more g" and "\<And>l. get_led l (outputs g') = get_led l (outputs g)"
    using relay_poll_frame [OF assms] by auto
  then show ?thesis by (cases g; cases g') (simp add: shown_leds_def)
qed

section \<open>The invariant\<close>

text \<open>
  The LEDs show the last state asked for. Unless the MQTT task is inside a save, that is the cached
  and the stored state; inside one the cache is the stored state of before, and the record is the
  new image up to the byte that was written.
\<close>

definition leds_ok :: "('d \<Rightarrow> cells) \<Rightarrow> mqtt_pc \<Rightarrow> 'd \<Rightarrow> 'd device \<Rightarrow> bool" where
  "leds_ok cells pc d g \<longleftrightarrow> ready (outputs g) \<and> (\<exists>old. led_cache g = Some old \<and>
    (case pc of
       Offline \<Rightarrow> shown_leds g = old \<and> stored_state (cells d) = old
     | Polling due \<Rightarrow> shown_leds g = old \<and> stored_state (cells d) = old
     | Led_Locking x due \<Rightarrow> shown_leds g = x \<and> stored_state (cells d) = old
     | Led_Writing x i due \<Rightarrow> shown_leds g = x \<and> i \<le> 8 \<and>
         (\<exists>b. length b = 8 \<and> state_of_image (Some b) = old \<and>
           window (cells d) STATE_BASE 8 = torn (image_of_state x) i b)))"

text \<open>The configuration the next boot would take from the chip.\<close>

definition booting :: "heapless \<Rightarrow> cells \<Rightarrow> network_config" where
  "booting ext c = (case from_bytes ext (window c CONFIG_BASE LEN) of None \<Rightarrow> default_config ext | Some cfg \<Rightarrow> cfg)"

definition saving_ok :: "cells \<Rightarrow> web_pc \<Rightarrow> bool" where
  "saving_ok c pc =
    (case pc of
       Config_Locking cfg \<Rightarrow> wf_config cfg
     | Config_Writing cfg i \<Rightarrow> wf_config cfg \<and> i \<le> LEN \<and>
         (\<exists>b. length b = LEN \<and> window c CONFIG_BASE LEN = torn (to_bytes cfg) i b)
     | _ \<Rightarrow> True)"

definition config_ok :: "heapless \<Rightarrow> cells \<Rightarrow> ('d, 'c) system \<Rightarrow> bool" where
  "config_ok ext c s \<longleftrightarrow> wf_config (running s) \<and> wf_config (pending s) \<and>
    (\<forall>q. \<exists>t. pools s q = start_pool ext (running s) t) \<and> (\<forall>q. saving_ok c (web_at s q)) \<and>
    ((\<forall>q cfg i. web_at s q \<noteq> Config_Writing cfg i) \<longrightarrow> booting ext c = pending s)"

text \<open>The EEPROM has one writer at most.\<close>

definition one_writer :: "('d, 'c) system \<Rightarrow> bool" where
  "one_writer s \<longleftrightarrow> (\<forall>q cfg i. web_at s q = Config_Writing cfg i \<longrightarrow>
    (\<forall>x j due. mqtt_at s \<noteq> Led_Writing x j due) \<and> (\<forall>q' cfg' j. web_at s q' = Config_Writing cfg' j \<longrightarrow> q' = q))"

definition sys_inv :: "heapless \<Rightarrow> ('d \<Rightarrow> cells) \<Rightarrow> ('d \<Rightarrow> bool) \<Rightarrow> ('d, 'c) system \<Rightarrow> bool" where
  "sys_inv ext cells idle s \<longleftrightarrow> (\<exists>d. eeprom (dev s) = Some d \<and> idle d \<and>
    relay_ok (clock_ms s) (relay_at s) (dev s) \<and> leds_ok cells (mqtt_at s) d (dev s) \<and>
    config_ok ext (cells d) s \<and> one_writer s)"

declare leds_ok_def [inv_defs] config_ok_def [inv_defs] one_writer_def [inv_defs]

text \<open>What the two records leave of each other.\<close>

lemma state_byte_other:
  assumes "i < 8"
  shows "window (c(STATE_BASE + of_nat i := b)) CONFIG_BASE LEN = window c CONFIG_BASE LEN"
proof (rule nth_equalityI)
  fix j assume "j < length (window (c(STATE_BASE + of_nat i := b)) CONFIG_BASE LEN)"
  then have "j < LEN" by simp
  moreover have "CONFIG_BASE + of_nat j \<noteq> STATE_BASE + of_nat i" if "j < LEN"
    using that assms by (simp add: word_unat_eq_iff STATE_BASE_def CONFIG_BASE_def LEN_def unat_word_ariths)
  ultimately show "window (c(STATE_BASE + of_nat i := b)) CONFIG_BASE LEN ! j = window c CONFIG_BASE LEN ! j" by simp
qed simp

lemma config_byte_other:
  assumes "i < LEN"
  shows "window (c(CONFIG_BASE + of_nat i := b)) STATE_BASE 8 = window c STATE_BASE 8"
proof (rule nth_equalityI)
  fix j assume "j < length (window (c(CONFIG_BASE + of_nat i := b)) STATE_BASE 8)"
  then have "j < 8" by simp
  moreover have "STATE_BASE + of_nat j \<noteq> CONFIG_BASE + of_nat i" if "j < 8"
    using that assms by (simp add: word_unat_eq_iff STATE_BASE_def CONFIG_BASE_def LEN_def unat_word_ariths)
  ultimately show "window (c(CONFIG_BASE + of_nat i := b)) STATE_BASE 8 ! j = window c STATE_BASE 8 ! j" by simp
qed simp

lemma saving_ok_cong: "window c CONFIG_BASE LEN = window c' CONFIG_BASE LEN \<Longrightarrow> saving_ok c pc = saving_ok c' pc"
  by (simp add: saving_ok_def split: web_pc.split)

lemma config_ok_cong:
  "window c CONFIG_BASE LEN = window c' CONFIG_BASE LEN \<Longrightarrow> running s = running s' \<Longrightarrow> pending s = pending s' \<Longrightarrow>
    pools s = pools s' \<Longrightarrow> web_at s = web_at s' \<Longrightarrow> config_ok ext c s = config_ok ext c' s'"
  by (simp add: config_ok_def booting_def saving_ok_cong [of c c'])

lemma leds_ok_cong:
  "window (cells d) STATE_BASE 8 = window (cells d') STATE_BASE 8 \<Longrightarrow> ready (outputs g) = ready (outputs g') \<Longrightarrow>
    shown_leds g = shown_leds g' \<Longrightarrow> led_cache g = led_cache g' \<Longrightarrow> leds_ok cells pc d g = leds_ok cells pc d' g'"
  by (simp add: leds_ok_def stored_state_def split: mqtt_pc.split)

section \<open>The invariant holds in every run\<close>

context responsive_at24c02
begin

lemma started_inv:
  assumes "fixed_capacity ext" and "started ext bus chip mk s" and "idle chip"
  shows "sys_inv ext cells idle s \<and> running s = booting ext (cells chip) \<and>
    shown_leds (dev s) = stored_state (cells chip)"
proof -
  obtain flags where b: "boot ext bus chip mk flags = Inr (reason s, running s, dev s)"
    using assms(2) by (auto simp: started_def)
  have "led_inv cells idle (dev s)" and run: "running s = booting ext (cells chip)"
    and shown: "shown_leds (dev s) = stored_state (cells chip)" and off: "\<not> get_relay (outputs (dev s))"
    and "\<exists>d. eeprom (dev s) = Some d \<and> cells d = cells chip"
    using boot_core [OF responsive_at24c02_axioms assms(3), of ext mk flags] b by (auto simp: booting_def)
  then obtain d where d: "eeprom (dev s) = Some d" "idle d" "cells d = cells chip"
    and led: "ready (outputs (dev s))" "led_cache (dev s) = Some (shown_leds (dev s))"
    by (auto simp: led_inv_def)
  have "wf_config (running s)"
    using fixed_capacity.default_config_wf [OF assms(1)] fixed_capacity.from_bytes_wf [OF assms(1)]
    by (auto simp: run booting_def split: option.split)
  then have "config_ok ext (cells d) s"
    using assms(2) run d(3) by (auto simp: config_ok_def started_def saving_ok_def)
  moreover have "relay_ok (clock_ms s) (relay_at s) (dev s)" "leds_ok cells (mqtt_at s) d (dev s)" "one_writer s"
    using assms(2) led off shown d(3) by (auto simp: started_def relay_ok_def leds_ok_def one_writer_def)
  ultimately show ?thesis using d run shown by (auto simp: sys_inv_def)
qed

lemma led_byte_ok:
  assumes "leds_ok cells (Led_Writing x i due) d g" and "idle d" and "i < 8"
    and "write_step bus STATE_BASE i (image_of_state x ! i) d = (r, d')"
  shows "r = Inr () \<and> idle d' \<and> leds_ok cells (Led_Writing x (Suc i) due) d' g \<and>
    window (cells d') CONFIG_BASE LEN = window (cells d) CONFIG_BASE LEN"
proof -
  have w: "r = Inr ()" "idle d'" "cells d' = (cells d)(STATE_BASE + of_nat i := image_of_state x ! i)"
    using write_step_succeeds [OF assms(2), of STATE_BASE i "image_of_state x ! i"] assms(4) by auto
  have "window (cells d') STATE_BASE 8 = (window (cells d) STATE_BASE 8)[i := image_of_state x ! i]"
    unfolding w(3) by (rule window_upd) (use assms(3) in auto)
  then have "length b = 8 \<Longrightarrow> window (cells d) STATE_BASE 8 = torn (image_of_state x) i b \<Longrightarrow>
      window (cells d') STATE_BASE 8 = torn (image_of_state x) (Suc i) b" for b
    using assms(3) by (simp add: torn_Suc)
  then have "leds_ok cells (Led_Writing x (Suc i) due) d' g"
    using assms(1,3) by (auto simp: leds_ok_def)
  with w(1,2) show ?thesis by (simp add: w(3) state_byte_other [OF assms(3)])
qed

lemma config_byte_ok:
  assumes "saving_ok (cells d) (Config_Writing c i)" and "idle d" and "i < LEN"
    and "write_step bus CONFIG_BASE i (to_bytes c ! i) d = (r, d')"
  shows "r = Inr () \<and> idle d' \<and> saving_ok (cells d') (Config_Writing c (Suc i)) \<and>
    window (cells d') STATE_BASE 8 = window (cells d) STATE_BASE 8"
proof -
  have w: "r = Inr ()" "idle d'" "cells d' = (cells d)(CONFIG_BASE + of_nat i := to_bytes c ! i)"
    using write_step_succeeds [OF assms(2), of CONFIG_BASE i "to_bytes c ! i"] assms(4) by auto
  have "window (cells d') CONFIG_BASE LEN = (window (cells d) CONFIG_BASE LEN)[i := to_bytes c ! i]"
    unfolding w(3) by (rule window_upd) (use assms(3) in auto)
  then have "length b = LEN \<Longrightarrow> window (cells d) CONFIG_BASE LEN = torn (to_bytes c) i b \<Longrightarrow>
      window (cells d') CONFIG_BASE LEN = torn (to_bytes c) (Suc i) b" for b
    using assms(3) by (simp add: torn_Suc)
  then have "saving_ok (cells d') (Config_Writing c (Suc i))"
    using assms(1,3) by (auto simp: saving_ok_def)
  with w(1,2) show ?thesis by (simp add: w(3) config_byte_other [OF assms(3)])
qed

end

lemma leds_ok_idle_pc:
  "leds_ok cells (Polling due) d g \<longleftrightarrow> leds_ok cells Offline d g"
  by (simp add: leds_ok_def)

lemma submits_wf:
  assumes "fixed_capacity ext" and "submits ext p now received s = Some (s', c)" and "wf_config (p_cfg p)"
  shows "wf_config c"
  using assms(2) fixed_capacity.parse_form_wf [OF assms(1) _ assms(3)]
  by (auto simp: submits_def save_submission_def simp del: str_Cons
      split: option.splits list.splits sum.splits prod.splits bool.splits if_splits)

lemma start_pool_cfg [simp]: "p_cfg (start_pool ext cfg t) = cfg"
  by (simp add: start_pool_def)

text \<open>Steps that leave the chip and the web tasks alone.\<close>

lemma sys_inv_device:
  assumes "sys_inv ext cells idle s" and "eeprom (dev s') = eeprom (dev s)"
    and "web_at s' = web_at s" "pools s' = pools s" "running s' = running s" "pending s' = pending s"
    and "\<And>d. leds_ok cells (mqtt_at s) d (dev s) \<Longrightarrow> leds_ok cells (mqtt_at s') d (dev s')"
    and "\<And>x i due. mqtt_at s' = Led_Writing x i due \<Longrightarrow> mqtt_at s = Led_Writing x i due"
    and "relay_ok (clock_ms s) (relay_at s) (dev s) \<Longrightarrow> relay_ok (clock_ms s') (relay_at s') (dev s')"
  shows "sys_inv ext cells idle s'"
proof -
  obtain d where d: "eeprom (dev s) = Some d" "idle d" "relay_ok (clock_ms s) (relay_at s) (dev s)"
    "leds_ok cells (mqtt_at s) d (dev s)" "config_ok ext (cells d) s" "one_writer s"
    using assms(1) by (auto simp: sys_inv_def)
  have "config_ok ext (cells d) s'" using d(5) assms(3-6) by (simp add: config_ok_def)
  moreover have "one_writer s'" using d(6) assms(3,8) by (fastforce simp: one_writer_def)
  ultimately show ?thesis using d assms(2,7,9) by (auto simp: sys_inv_def)
qed

lemma relay_ok_cong:
  "ready (outputs g') = ready (outputs g) \<Longrightarrow> get_relay (outputs g') = get_relay (outputs g) \<Longrightarrow>
    relay_ok t k g' = relay_ok t k g"
  by (cases k) (simp_all add: relay_ok_def)

lemma relay_ok_later: "relay_ok t k g \<Longrightarrow> t \<le> t' \<Longrightarrow> relay_ok t' k g"
  by (auto simp: relay_ok_def split: relay_task.splits)

text \<open>The steps of the tasks other than the web tasks' saves.\<close>

lemma round_led_inv:
  assumes "sys_inv ext cells idle s" and "mqtt_at s = Polling due" and "led_update cmd = Some update"
  shows "sys_inv ext cells idle (s\<lparr>client := c, dev := (dev s)\<lparr>outputs := drive_leds cmd (outputs (dev s))\<rparr>,
    mqtt_at := (case changed_state update (led_cache (dev s)) of None \<Rightarrow> Polling due' | Some x \<Rightarrow> Led_Locking x due')\<rparr>)"
    (is "sys_inv ext cells idle ?s")
proof (rule sys_inv_device [OF assms(1)])
  fix d assume "leds_ok cells (mqtt_at s) d (dev s)"
  then show "leds_ok cells (mqtt_at ?s) d (dev ?s)"
    using drive_leds_shown [OF assms(3), of "dev s"]
    by (auto simp: leds_ok_def assms(2) changed_state_def Let_def)
next
  show "relay_ok (clock_ms ?s) (relay_at ?s) (dev ?s)" if "relay_ok (clock_ms s) (relay_at s) (dev s)"
    using that relay_ok_cong [of "dev ?s" "dev s"] by simp
qed (auto split: option.splits)

lemma round_other_inv:
  assumes "sys_inv ext cells idle s" and "mqtt_at s = Polling due"
    and "\<And>ev cmd. h = Body ev \<Longrightarrow> event_command ev = Some cmd \<Longrightarrow> led_update cmd = None"
    and "mqtt_step bus ops h (c, dev s) = (e, c', g)"
  shows "sys_inv ext cells idle (s\<lparr>client := c', dev := (if e = Returned then g\<lparr>mqtt_online := False\<rparr> else g),
    mqtt_at := (if e = Returned then Offline else Polling due')\<rparr>)"
    (is "sys_inv ext cells idle ?s")
proof (rule sys_inv_device [OF assms(1)])
  have f: "outputs (dev ?s) = outputs (dev s)" "led_cache (dev ?s) = led_cache (dev s)" "eeprom (dev ?s) = eeprom (dev s)"
    using mqtt_step_frame [OF assms(4,3)] by auto
  show "eeprom (dev ?s) = eeprom (dev s)" by (fact f)
  show "relay_ok (clock_ms ?s) (relay_at ?s) (dev ?s)" if "relay_ok (clock_ms s) (relay_at s) (dev s)"
    using that f(1) relay_ok_cong [of "dev ?s" "dev s"] by (simp split del: if_split)
  show "leds_ok cells (mqtt_at ?s) d (dev ?s)" if "leds_ok cells (mqtt_at s) d (dev s)" for d
    using that f(1,2) by (cases "e = Returned") (simp_all add: leds_ok_def shown_leds_def assms(2))
qed (auto split: if_splits)

text \<open>A web task's step that does not enter or leave a write.\<close>

lemma web_step_inv:
  assumes "sys_inv ext cells idle s"
    and "dev s' = dev s" "clock_ms s' = clock_ms s" "relay_at s' = relay_at s" "mqtt_at s' = mqtt_at s"
    and "pools s' = pools s" "running s' = running s" "pending s' = pending s"
    and "web_at s' = (web_at s)(q := pc)" and "\<nexists>c i. web_at s q = Config_Writing c i" and "\<nexists>c i. pc = Config_Writing c i"
    and "\<And>c. saving_ok c pc"
  shows "sys_inv ext cells idle s'"
proof -
  obtain d where d: "eeprom (dev s) = Some d" "idle d" "relay_ok (clock_ms s) (relay_at s) (dev s)"
    "leds_ok cells (mqtt_at s) d (dev s)" "config_ok ext (cells d) s" "one_writer s"
    using assms(1) by (auto simp: sys_inv_def)
  have "(\<forall>q' c i. web_at s' q' \<noteq> Config_Writing c i) \<longleftrightarrow> (\<forall>q' c i. web_at s q' \<noteq> Config_Writing c i)"
    using assms(9-11) by auto metis
  with d(5) have "config_ok ext (cells d) s'" using assms(6-9,12) by (auto simp: config_ok_def)
  moreover have "one_writer s'" using d(6) assms(5,9,11) by (auto simp: one_writer_def)
  ultimately show ?thesis using d assms(2-5) by (auto simp: sys_inv_def)
qed

context responsive_at24c02
begin

lemma config_save_inv:
  assumes "sys_inv ext cells idle s" and "web_at s q = Config_Writing c i" and "i < LEN"
    and "eeprom (dev s) = Some d" and "write_step bus CONFIG_BASE i (to_bytes c ! i) d = (r, d')"
  shows "sys_inv ext cells idle (s\<lparr>dev := (dev s)\<lparr>eeprom := Some d'\<rparr>,
      web_at := (web_at s)(q := (case r of Inl e \<Rightarrow> Accepting | Inr u \<Rightarrow> Config_Writing c (Suc i)))\<rparr>)"
    (is "sys_inv ext cells idle ?s")
proof -
  have inv: "idle d" "relay_ok (clock_ms s) (relay_at s) (dev s)" "leds_ok cells (mqtt_at s) d (dev s)"
    "config_ok ext (cells d) s" "one_writer s"
    using assms(1,4) by (auto simp: sys_inv_def)
  have "saving_ok (cells d) (Config_Writing c i)" using inv(4) assms(2) by (metis config_ok_def)
  from config_byte_ok [OF this inv(1) assms(3,5)] have r: "r = Inr ()" "idle d'"
    "saving_ok (cells d') (Config_Writing c (Suc i))" "window (cells d') STATE_BASE 8 = window (cells d) STATE_BASE 8"
    by auto
  have "saving_ok (cells d') (web_at ?s q')" for q'
  proof (cases "q' = q")
    case False
    then have "\<nexists>c' j. web_at s q' = Config_Writing c' j" using inv(5) assms(2) by (auto simp: one_writer_def)
    moreover have "saving_ok (cells d) (web_at s q')" using inv(4) by (simp add: config_ok_def)
    ultimately show ?thesis using False by (auto simp: saving_ok_def split: web_pc.splits)
  qed (use r in simp)
  then have "config_ok ext (cells d') ?s" using inv(4) r(1) by (auto simp: config_ok_def)
  moreover have "leds_ok cells (mqtt_at ?s) d' (dev ?s)"
    using inv(3) leds_ok_cong [OF r(4), of "dev ?s" "dev s" "mqtt_at s"] by (simp add: shown_leds_def)
  moreover have "one_writer ?s" using inv(5) assms(2) r(1) by (auto simp: one_writer_def)
  moreover have "relay_ok (clock_ms ?s) (relay_at ?s) (dev ?s)"
    using inv(2) relay_ok_cong [of "dev ?s" "dev s"] by simp
  ultimately show ?thesis using r(2) by (auto simp: sys_inv_def)
qed

lemma led_save_inv:
  assumes "sys_inv ext cells idle s" and "mqtt_at s = Led_Writing x i due" and "i < 8"
    and "eeprom (dev s) = Some d" and "write_step bus STATE_BASE i (image_of_state x ! i) d = (r, d')"
  shows "sys_inv ext cells idle (s\<lparr>dev := (dev s)\<lparr>eeprom := Some d'\<rparr>,
      mqtt_at := (case r of Inl e \<Rightarrow> Polling due | Inr u \<Rightarrow> Led_Writing x (Suc i) due)\<rparr>)"
    (is "sys_inv ext cells idle ?s")
proof -
  have inv: "idle d" "relay_ok (clock_ms s) (relay_at s) (dev s)" "leds_ok cells (Led_Writing x i due) d (dev s)"
    "config_ok ext (cells d) s" "one_writer s"
    using assms(1,2,4) by (auto simp: sys_inv_def)
  from led_byte_ok [OF inv(3,1) assms(3,5)] have r: "r = Inr ()" "idle d'"
    "leds_ok cells (Led_Writing x (Suc i) due) d' (dev s)"
    "window (cells d') CONFIG_BASE LEN = window (cells d) CONFIG_BASE LEN" by auto
  have "config_ok ext (cells d') ?s" using inv(4) config_ok_cong [OF r(4), of ?s s ext] by simp
  moreover have "leds_ok cells (mqtt_at ?s) d' (dev ?s)" using r(1,3) by (simp add: leds_ok_def shown_leds_def)
  moreover have "one_writer ?s" using inv(5) assms(2) by (fastforce simp: one_writer_def)
  moreover have "relay_ok (clock_ms ?s) (relay_at ?s) (dev ?s)"
    using inv(2) relay_ok_cong [of "dev ?s" "dev s"] by simp
  ultimately show ?thesis using r(2) by (auto simp: sys_inv_def)
qed

lemma sys_step_inv:
  assumes "fixed_capacity ext" and "sys_step ext bus ops s l s'" and "sys_inv ext cells idle s"
  shows "sys_inv ext cells idle s'"
  using assms(2,3)
proof (induction rule: sys_step.induct)
  case (Time s t)
  then show ?case by (intro sys_inv_device [OF Time(2)]) (auto intro: relay_ok_later)
next
  case (Relay s k g)
  obtain d where "relay_ok (clock_ms s) (relay_at s) (dev s)" "leds_ok cells (mqtt_at s) d (dev s)"
    using Relay(2) by (auto simp: sys_inv_def)
  then have "ready (outputs g)" "ready (outputs (dev s))" and ok: "relay_ok (clock_ms s) k g"
    using relay_poll_ok [OF _ Relay(1)] by (auto simp: relay_ok_def)
  then have "leds_ok cells (mqtt_at s) d g = leds_ok cells (mqtt_at s) d (dev s)" for d
    using relay_poll_device [OF Relay(1)] by (intro leds_ok_cong) auto
  with ok relay_poll_device [OF Relay(1)] show ?case by (intro sys_inv_device [OF Relay(2)]) auto
next
  case (Connected s tcp c ok c' g)
  from mqtt_connect_frame [OF Connected(2)] Connected(1) show ?case
    by (intro sys_inv_device [OF Connected(3)]) (auto simp: leds_ok_def shown_leds_def relay_ok_cong [of g "dev s"] split: if_splits)
next
  case (Round_Led s due due' c ev cmd update)
  then show ?case by (blast intro: round_led_inv)
next
  case (Round_Other s due due' c h e c' g)
  then show ?case by (blast intro: round_other_inv)
next
  case (Round_Reboot s due due' c ev c' g d s')
  have "eeprom g = eeprom (dev s)" using reboot_step [OF Round_Reboot(3)] by simp
  then show ?case using Round_Reboot started_inv [OF assms(1) Round_Reboot(5)] by (auto simp: sys_inv_def)
next
  case (Led_Lock s x due)
  let ?s = "s\<lparr>mqtt_at := Led_Writing x 0 due\<rparr>"
  obtain d where d: "eeprom (dev s) = Some d" "idle d" "relay_ok (clock_ms s) (relay_at s) (dev s)"
    "leds_ok cells (Led_Locking x due) d (dev s)" "config_ok ext (cells d) s"
    using Led_Lock(1,3) by (auto simp: sys_inv_def)
  then have "leds_ok cells (Led_Writing x 0 due) d (dev s)"
    by (auto simp: leds_ok_def stored_state_def intro!: exI [of _ "window (cells d) STATE_BASE 8"])
  moreover have "config_ok ext (cells d) ?s" using d(5) by (simp add: config_ok_def)
  moreover have "one_writer ?s" using Led_Lock(2) by (auto simp: one_writer_def eeprom_locked_def)
  ultimately show ?case using d by (auto simp: sys_inv_def)
next
  case (Led_Byte s x i due d r d')
  then show ?case by (blast intro: led_save_inv)
next
  case (Led_Done s x due)
  let ?s = "s\<lparr>dev := (dev s)\<lparr>led_cache := Some x\<rparr>, mqtt_at := Polling due\<rparr>"
  show ?case
  proof (rule sys_inv_device [OF Led_Done(2)])
    fix d assume l: "leds_ok cells (mqtt_at s) d (dev s)"
    then have "window (cells d) STATE_BASE 8 = image_of_state x"
      using torn_all(1) [of _ "image_of_state x"] by (auto simp: leds_ok_def Led_Done(1))
    then have "stored_state (cells d) = x" by (simp add: stored_state_def state_of_image_of_state)
    with l show "leds_ok cells (mqtt_at ?s) d (dev ?s)"
      by (auto simp: leds_ok_def Led_Done(1) shown_leds_def)
  next
    show "relay_ok (clock_ms ?s) (relay_at ?s) (dev ?s)" if "relay_ok (clock_ms s) (relay_at s) (dev s)"
      using that relay_ok_cong [of "dev ?s" "dev s"] by simp
  qed auto
next
  case (Served s q now received acts st)
  let ?s = "s\<lparr>web_session := sess st, dev := (dev s)\<lparr>eeprom := ee st\<rparr>,
      web_at := (web_at s)(q := if Reset \<in> set acts then Resetting else Accepting)\<rparr>"
  have "ee st = eeprom (dev s)" using serve_frame [OF Served(4)] Served(3) by simp
  then have "dev ?s = dev s" by simp
  with web_step_inv [OF Served(5), of ?s q] Served(1) show ?case by (simp add: saving_ok_def)
next
  case (Panicked s q now received e d s')
  then show ?case using started_inv [OF assms(1) Panicked(5)] by (auto simp: sys_inv_def)
next
  case (Save_Begin s q now received se c)
  let ?s = "s\<lparr>web_session := se, web_at := (web_at s)(q := Config_Locking c)\<rparr>"
  obtain t where "wf_config (running s)" "pools s q = start_pool ext (running s) t"
    using Save_Begin(4) by (auto simp: sys_inv_def config_ok_def)
  then have "wf_config (p_cfg (pools s q))" by simp
  then have "wf_config c" using submits_wf [OF assms(1) Save_Begin(3)] by simp
  with web_step_inv [OF Save_Begin(4), of ?s q] Save_Begin(1) show ?case by (simp add: saving_ok_def)
next
  case (Save_Lock s q c)
  let ?s = "s\<lparr>web_at := (web_at s)(q := Config_Writing c 0)\<rparr>"
  obtain d where d: "eeprom (dev s) = Some d" "idle d" "relay_ok (clock_ms s) (relay_at s) (dev s)"
    "leds_ok cells (mqtt_at s) d (dev s)" "config_ok ext (cells d) s"
    using Save_Lock(3) by (auto simp: sys_inv_def)
  have "saving_ok (cells d) (Config_Locking c)" using d(5) Save_Lock(1) by (metis config_ok_def)
  then have "saving_ok (cells d) (Config_Writing c 0)"
    by (auto simp: saving_ok_def intro!: exI [of _ "window (cells d) CONFIG_BASE LEN"])
  with d(5) have "config_ok ext (cells d) ?s" by (auto simp: config_ok_def)
  moreover have "one_writer ?s" using Save_Lock(2) by (auto simp: one_writer_def eeprom_locked_def)
  ultimately show ?case using d by (auto simp: sys_inv_def)
next
  case (Save_Byte s q c i d r d')
  then show ?case by (blast intro: config_save_inv)
next
  case (Save_Done s q c)
  let ?s = "s\<lparr>web_at := (web_at s)(q := Resetting), pending := c\<rparr>"
  obtain d where d: "eeprom (dev s) = Some d" "idle d" "relay_ok (clock_ms s) (relay_at s) (dev s)"
    "leds_ok cells (mqtt_at s) d (dev s)" "config_ok ext (cells d) s" "one_writer s"
    using Save_Done(2) by (auto simp: sys_inv_def)
  have "saving_ok (cells d) (Config_Writing c LEN)" using d(5) Save_Done(1) by (metis config_ok_def)
  then have c: "wf_config c" "window (cells d) CONFIG_BASE LEN = to_bytes c"
    using torn_all(1) [of _ "to_bytes c"] by (auto simp: saving_ok_def)
  then have "booting ext (cells d) = c"
    using fixed_capacity.from_to_bytes [OF assms(1)] by (simp add: booting_def)
  with d(5) c(1) have "config_ok ext (cells d) ?s" by (auto simp: config_ok_def saving_ok_def)
  moreover have "one_writer ?s" using d(6) by (auto simp: one_writer_def)
  ultimately show ?case using d by (auto simp: sys_inv_def)
next
  case (Web_Reset s q d s')
  then show ?case using started_inv [OF assms(1) Web_Reset(3)] by (auto simp: sys_inv_def)
next
  case (Reset s d mk s')
  then show ?case using started_inv [OF assms(1) Reset(2)] by (auto simp: sys_inv_def)
qed

lemma sys_run_inv:
  assumes "fixed_capacity ext" and "sys_run ext bus ops s ls s'" and "sys_inv ext cells idle s"
  shows "sys_inv ext cells idle s'"
  using assms(2,3) by (induction rule: sys_run.induct) (auto intro: sys_step_inv [OF assms(1)])

end

text \<open>Where a restart from a reachable state leads.\<close>

lemma restart_from:
  assumes "responsive_at24c02 bus cells idle" and "fixed_capacity ext" and "sys_inv ext cells idle s"
    and "eeprom (dev s) = Some d" and "started ext bus d mk s'"
  shows "sys_inv ext cells idle s' \<and> running s' = booting ext (cells d) \<and> pending s' = running s' \<and>
    shown_leds (dev s') = stored_state (cells d) \<and>
    ((\<forall>q c i. web_at s q \<noteq> Config_Writing c i) \<longrightarrow> running s' = pending s)"
proof -
  have d: "idle d" "config_ok ext (cells d) s" using assms(3,4) by (auto simp: sys_inv_def)
  from responsive_at24c02.started_inv [OF assms(1,2,5) d(1)] d(2) assms(5)
  show ?thesis by (auto simp: config_ok_def started_def)
qed

section \<open>Nobody without credentials changes the configuration\<close>

text \<open>A session that is closed, no save or reset under way, and the configuration as it was.\<close>

definition guarded :: "network_config \<Rightarrow> ('d, 'c) system \<Rightarrow> bool" where
  "guarded cfg s \<longleftrightarrow> running s = cfg \<and> pending s = cfg \<and> session_token (web_session s) = 0 \<and>
    web_at s = (\<lambda>_. Accepting)"

definition no_credentials :: "heapless \<Rightarrow> network_config \<Rightarrow> label \<Rightarrow> bool" where
  "no_credentials ext cfg l \<longleftrightarrow> (\<forall>q now req acts. l = Request q now (Some req) acts \<longrightarrow>
    \<not> login_credentials_match ext (parse_request req) (basic_token ext (web_user cfg) (web_pass cfg)))"

definition refused :: "label \<Rightarrow> bool" where
  "refused l \<longleftrightarrow> (\<forall>q now received acts. l = Request q now received acts \<longrightarrow> acts \<in> refusals)"

lemma closed_submits:
  assumes "p_auth_required p" and "session_token s = 0"
  shows "submits ext p now received s = None"
  by (auto simp: submits_def authenticate_closed [OF assms] split: option.splits list.splits sum.splits)

lemma started_closed:
  "started ext bus d mk s \<Longrightarrow> session_token (web_session s) = 0 \<and> web_at s = (\<lambda>_. Accepting) \<and> pending s = running s"
  by (simp add: started_def boot_session_def session_token_def)

lemma guarded_restart:
  assumes "responsive_at24c02 bus cells idle" and "fixed_capacity ext" and "sys_inv ext cells idle s"
    and "guarded cfg s" and "eeprom (dev s) = Some d" and "started ext bus d mk s'"
  shows "guarded cfg s'"
  using restart_from [OF assms(1-3,5,6)] started_closed [OF assms(6)] assms(4) by (auto simp: guarded_def)

lemma guarded_step:
  assumes chip: "responsive_at24c02 bus cells idle" and cap: "fixed_capacity ext"
    and "sys_step ext bus ops s l s'" and "sys_inv ext cells idle s" and "guarded cfg s"
    and "no_credentials ext cfg l" and login: "web_user cfg \<noteq> [] \<or> web_pass cfg \<noteq> []"
  shows "guarded cfg s' \<and> refused l"
  using assms(3-6)
proof (induction rule: sys_step.induct)
  case (Round_Reboot s due due' c ev c' g d s')
  have "eeprom (dev s) = Some d" using reboot_step [OF Round_Reboot(3)] Round_Reboot(4) by simp
  with guarded_restart [OF chip cap Round_Reboot(6,7) _ Round_Reboot(5)] show ?case by (simp add: refused_def)
next
  case (Served s q now received acts st)
  obtain t where p: "pools s q = start_pool ext cfg t"
    using Served(5,6) by (auto simp: sys_inv_def config_ok_def guarded_def)
  then have "p_auth_required (pools s q)" "p_expected_token (pools s q) = basic_token ext (web_user cfg) (web_pass cfg)"
    using login by (auto simp: start_pool_def)
  moreover have "session_token (web_session s) = 0" using Served(6) by (simp add: guarded_def)
  ultimately have "acts \<in> refusals" "session_token (sess st) = 0"
    using closed_connection [OF _ _ Served(4)] Served(7) by (auto simp: no_credentials_def)
  moreover have "Reset \<notin> set acts" using refusals_answer [OF \<open>acts \<in> refusals\<close>] by (simp add: only_answers_def)
  ultimately show ?case using Served(6) by (auto simp: guarded_def refused_def)
next
  case (Panicked s q now received e d s')
  with guarded_restart [OF chip cap Panicked(6,7,4,5)] show ?case by (simp add: refused_def refusals_def)
next
  case (Save_Begin s q now received se c)
  obtain t where p: "pools s q = start_pool ext cfg t"
    using Save_Begin(4,5) by (auto simp: sys_inv_def config_ok_def guarded_def)
  then have "p_auth_required (pools s q)" using login by (auto simp: start_pool_def)
  then show ?case using closed_submits [of "pools s q" "web_session s"] Save_Begin(3,5) by (simp add: guarded_def)
next
  case (Reset s d mk s')
  with guarded_restart [OF chip cap Reset(3,4,1,2)] show ?case by (simp add: refused_def)
qed (auto simp: guarded_def refused_def)

lemma guarded_run:
  assumes "responsive_at24c02 bus cells idle" and "fixed_capacity ext"
    and "sys_run ext bus ops s ls s'" and "sys_inv ext cells idle s" and "guarded cfg s"
    and "\<forall>l\<in>set ls. no_credentials ext cfg l" and "web_user cfg \<noteq> [] \<or> web_pass cfg \<noteq> []"
  shows "guarded cfg s' \<and> sys_inv ext cells idle s' \<and> (\<forall>l\<in>set ls. refused l)"
  using assms(3-6)
proof (induction rule: sys_run.induct)
  case (Step s ls s1 l s2)
  then have "guarded cfg s1" "sys_inv ext cells idle s1" "\<forall>l\<in>set ls. refused l" by auto
  with guarded_step [OF assms(1,2) Step(2) _ _ _ assms(7)] Step.prems(3)
    responsive_at24c02.sys_step_inv [OF assms(1,2) Step(2)]
  show ?case by auto
qed simp

section \<open>A device just started\<close>

definition start_system ::
  "heapless \<Rightarrow> 'd device \<Rightarrow> network_config \<Rightarrow> reset_reason \<Rightarrow> 'c \<Rightarrow> ('d, 'c) system" where
  "start_system ext g cfg r c = \<lparr>dev = g, web_session = boot_session, clock_ms = 0, relay_at = Waiting,
     mqtt_at = Offline, web_at = (\<lambda>_. Accepting), client = c, reason = r, pools = (\<lambda>_. start_pool ext cfg 3),
     running = cfg, pending = cfg\<rparr>"

lemma start_system_started:
  "boot ext bus chip mk flags = Inr (r, cfg, g) \<Longrightarrow> started ext bus chip mk (start_system ext g cfg r c)"
  by (auto simp: started_def start_system_def)

lemma start_exists:
  assumes "responsive_at24c02 bus cells idle" and "idle chip"
  shows "\<exists>g d. started ext bus chip mk (start_system ext g (booting ext (cells chip)) (fst (read_and_clear mk flags)) c) \<and>
    shown_leds g = stored_state (cells chip) \<and> led_cache g = Some (stored_state (cells chip)) \<and>
    eeprom g = Some d \<and> idle d \<and> cells d = cells chip"
proof -
  obtain g where g: "boot ext bus chip mk flags = Inr (fst (read_and_clear mk flags), booting ext (cells chip), g)"
    "shown_leds g = stored_state (cells chip)" "led_inv cells idle g" "\<exists>d. eeprom g = Some d \<and> cells d = cells chip"
    using boot_core [OF assms, of ext mk flags] by (auto simp: booting_def)
  from g(2-4) obtain d where "led_cache g = Some (stored_state (cells chip))" "eeprom g = Some d" "idle d" "cells d = cells chip"
    by (auto simp: led_inv_def)
  with start_system_started [OF g(1)] g(2) show ?thesis by (intro exI [of _ g] exI [of _ d] conjI) simp_all
qed

lemma restart_exists:
  assumes "responsive_at24c02 (bus :: ('d, 'e) i2c_bus) cells idle" and "idle chip"
  shows "\<exists>s :: ('d, 'c) system. started ext bus chip mk s \<and> running s = booting ext (cells chip) \<and> shown_leds (dev s) = stored_state (cells chip)"
proof -
  let ?s = "\<lambda>g. start_system ext g (booting ext (cells chip)) (fst (read_and_clear mk power_on_flags)) undefined :: ('d, 'c) system"
  obtain g where "started ext bus chip mk (?s g)" and "shown_leds g = stored_state (cells chip)"
    using start_exists [OF assms, of ext mk power_on_flags undefined] by (elim exE conjE)
  then show ?thesis by (intro exI [of _ "?s g"]) (simp add: start_system_def)
qed

end
