(* ===== verification/System_Runs.thy ===== *)
theory System_Runs
  imports System
begin

text \<open>
  Runs of the device with a save in them: one that is not interrupted, which takes the device where
  \<open>handle_event\<close> takes it (\<open>event_steps\<close>), one that a restart cuts between two bytes or inside a write
  cycle, and the ends of all saves in progress (\<open>settle_all\<close>); and the concrete devices on which the
  properties are tried.
\<close>

section \<open>Runs\<close>

lemma run_append: "sys_run ext bus ops s1 ls' s2 \<Longrightarrow> sys_run ext bus ops s ls s1 \<Longrightarrow> sys_run ext bus ops s (ls @ ls') s2"
  by (induction rule: sys_run.induct) (auto simp flip: append_assoc intro: sys_run.intros)

lemma run_one: "sys_step ext bus ops s l s' \<Longrightarrow> sys_run ext bus ops s [l] s'"
  using Step [OF Refl] by (metis append_Nil)

lemma run_Cons: "sys_step ext bus ops s l s1 \<Longrightarrow> sys_run ext bus ops s1 ls s2 \<Longrightarrow> sys_run ext bus ops s (l # ls) s2"
  using run_append [OF _ run_one] by fastforce

section \<open>A save that is not interrupted\<close>

fun cache_after :: "'e + unit \<Rightarrow> output_state \<Rightarrow> output_state option \<Rightarrow> output_state option" where
  "cache_after (Inr u) x c = Some x"
| "cache_after (Inl e) x c = c"

lemma led_bytes_run:
  assumes "mqtt_at s = Led_Writing x i due" and "i \<le> 8" and "eeprom (dev s) = Some d"
    and "write_loop bus STATE_BASE i (drop i (image_of_state x)) d = (r, d')"
  shows "\<exists>n \<le> Suc (8 - i). sys_run ext bus ops s (replicate n Led_Save) (s\<lparr>dev := (dev s)\<lparr>eeprom := Some d',
    led_cache := cache_after r x (led_cache (dev s))\<rparr>, mqtt_at := Polling due\<rparr>)"
  using assms
proof (induction "8 - i" arbitrary: i d s)
  case 0
  then have "i = 8" by simp
  with 0 Led_Done [of s x due ext bus ops] have "r = Inr ()" "d' = d"
    and step: "sys_step ext bus ops s Led_Save (s\<lparr>dev := (dev s)\<lparr>led_cache := Some x\<rparr>, mqtt_at := Polling due\<rparr>)"
    by auto
  moreover have "(dev s)\<lparr>eeprom := Some d, led_cache := Some x\<rparr> = (dev s)\<lparr>led_cache := Some x\<rparr>"
    using 0(4) by (cases "dev s") simp
  ultimately show ?case using run_one [OF step] by (intro exI [of _ 1]) simp
next
  case (Suc m)
  then have i: "i < 8" by simp
  obtain r1 d1 where w: "write_step bus STATE_BASE i (image_of_state x ! i) d = (r1, d1)" by fastforce
  have dr: "drop i (image_of_state x) = image_of_state x ! i # drop (Suc i) (image_of_state x)"
    using i by (simp add: Cons_nth_drop_Suc)
  note step = Led_Byte [OF Suc.prems(1) i Suc.prems(3) w, of ext ops]
  show ?case
  proof (cases r1)
    case (Inl e)
    then have "r = Inl e" "d' = d1" using Suc.prems(4) w dr by auto
    with run_one [OF step] Inl show ?thesis by (intro exI [of _ 1]) simp
  next
    case (Inr u)
    let ?s = "s\<lparr>dev := (dev s)\<lparr>eeprom := Some d1\<rparr>, mqtt_at := Led_Writing x (Suc i) due\<rparr>"
    have "write_loop bus STATE_BASE (Suc i) (drop (Suc i) (image_of_state x)) d1 = (r, d')"
      using Suc.prems(4) w dr Inr by simp
    moreover have "m = 8 - Suc i" using Suc.hyps(2) by simp
    ultimately obtain n where "n \<le> Suc (8 - Suc i)" "sys_run ext bus ops ?s (replicate n Led_Save) (?s\<lparr>dev := (dev ?s)\<lparr>eeprom := Some d',
        led_cache := cache_after r x (led_cache (dev ?s))\<rparr>, mqtt_at := Polling due\<rparr>)"
      using Suc.hyps(1) [of "Suc i" ?s d1] i by auto
    with step Inr i show ?thesis by (intro exI [of _ "Suc n"]) (auto intro: run_Cons)
  qed
qed

lemma handle_led_event:
  assumes "event_command ev = Some cmd" and "led_update cmd = Some update"
  shows "handle_event bus ops ev (c, g) =
    (Goes_On, c, leds_saved (save_field bus update) (g\<lparr>outputs := drive_leds cmd (outputs g)\<rparr>))"
proof -
  have "run_command bus ops cmd (c, g) =
      (Goes_On, c, leds_saved (save_field bus update) (g\<lparr>outputs := drive_leds cmd (outputs g)\<rparr>))"
    using assms(2) by (cases cmd) (auto simp: save_led1_def save_led2_def save_leds_def)
  with assms(1) show ?thesis
    by (auto simp: handle_event_def event_command_def split: event.splits if_splits)
qed

lemma event_steps:
  assumes "mqtt_at s = Polling due" and "\<not> eeprom_locked s" and "eeprom (dev s) = Some d"
    and "heartbeat_due ops (clock_ms s) due (client s) = (due', c)"
    and "handle_event bus ops ev (c, dev s) = (Goes_On, c', g)"
  shows "\<exists>n. sys_run ext bus ops s (Round (Body ev) # replicate n Led_Save)
    (s\<lparr>client := c', dev := g, mqtt_at := Polling due'\<rparr>)"
proof (cases "\<exists>cmd update. event_command ev = Some cmd \<and> led_update cmd = Some update")
  case True
  then obtain cmd update where cmd: "event_command ev = Some cmd" "led_update cmd = Some update" by blast
  let ?g = "(dev s)\<lparr>outputs := drive_leds cmd (outputs (dev s))\<rparr>"
  let ?s = "s\<lparr>client := c, dev := ?g,
      mqtt_at := (case changed_state update (led_cache (dev s)) of None \<Rightarrow> Polling due' | Some x \<Rightarrow> Led_Locking x due')\<rparr>"
  have step: "sys_step ext bus ops s (Round (Body ev)) ?s"
    by (rule Round_Led [OF assms(1,4) cmd])
  have h: "c' = c" "g = leds_saved (save_field bus update) ?g"
    using assms(5) unfolding handle_led_event [OF cmd] by auto
  show ?thesis
  proof (cases "changed_state update (led_cache (dev s))")
    case None
    then have "g = ?g" unfolding h(2) using assms(3)
      by (cases "dev s") (simp add: leds_saved_def save_field_changed)
    with run_one [OF step] None h(1) show ?thesis by (intro exI [of _ 0]) simp
  next
    case (Some x)
    obtain r d' where w: "write_bytes bus STATE_BASE (image_of_state x) d = (r, d')" by fastforce
    let ?s1 = "?s\<lparr>mqtt_at := Led_Writing x 0 due'\<rparr>"
    have "sys_step ext bus ops ?s Led_Save ?s1"
      using Led_Lock [of ?s x due' ext bus ops] assms(1,2) Some by (auto simp: eeprom_locked_def)
    moreover obtain n where "sys_run ext bus ops ?s1 (replicate n Led_Save) (?s1\<lparr>dev := (dev ?s1)\<lparr>eeprom := Some d',
        led_cache := cache_after r x (led_cache (dev ?s1))\<rparr>, mqtt_at := Polling due'\<rparr>)"
      using led_bytes_run [of ?s1 x 0 due' d bus r d' ext ops] w assms(3) by (auto simp: write_bytes_def)
    moreover have "g = ?g\<lparr>eeprom := Some d', led_cache := cache_after r x (led_cache (dev s))\<rparr>"
      unfolding h(2) using assms(3) w Some
      by (cases r) (auto simp: leds_saved_def save_field_changed)
    ultimately have "sys_run ext bus ops ?s (replicate (Suc n) Led_Save) (s\<lparr>client := c', dev := g, mqtt_at := Polling due'\<rparr>)"
      using h(1) by (auto intro: run_Cons)
    with run_Cons [OF step] show ?thesis by blast
  qed
next
  case False
  have "mqtt_step bus ops (Body ev) (c, dev s) = (Pending, c', g)"
    using assms(5) by (simp add: mqtt_step_def)
  from Round_Other [OF assms(1,4) _ this, of ext] False show ?thesis
    by (intro exI [of _ 0]) (auto intro!: run_one)
qed

section \<open>A configuration save, complete or cut\<close>

context responsive_at24c02
begin

lemma config_bytes_run:
  assumes "web_at s q = Config_Writing c 0" and "eeprom (dev s) = Some d" and "idle d" and "k \<le> LEN"
  shows "\<exists>d'. sys_run ext bus ops s (replicate k (Config_Save q)) (s\<lparr>dev := (dev s)\<lparr>eeprom := Some d'\<rparr>,
      web_at := (web_at s)(q := Config_Writing c k)\<rparr>) \<and> idle d' \<and>
    window (cells d') CONFIG_BASE LEN = torn (to_bytes c) k (window (cells d) CONFIG_BASE LEN)"
  using assms(4)
proof (induction k)
  case 0
  have "s\<lparr>dev := (dev s)\<lparr>eeprom := Some d\<rparr>, web_at := (web_at s)(q := Config_Writing c 0)\<rparr> = s"
    using assms(1,2) by (cases s; cases "dev s") (simp add: fun_upd_idem)
  with assms(3) show ?case by (intro exI [of _ d]) (simp add: Refl del: fun_upd_apply)
next
  case (Suc k)
  let ?at = "\<lambda>d k. s\<lparr>dev := (dev s)\<lparr>eeprom := Some d\<rparr>, web_at := (web_at s)(q := Config_Writing c k)\<rparr>"
  obtain d1 where r: "sys_run ext bus ops s (replicate k (Config_Save q)) (?at d1 k)" "idle d1"
    "window (cells d1) CONFIG_BASE LEN = torn (to_bytes c) k (window (cells d) CONFIG_BASE LEN)"
    using Suc.IH Suc_leD [OF Suc.prems] by blast
  obtain d2 where w: "write_step bus CONFIG_BASE k (to_bytes c ! k) d1 = (Inr (), d2)" "idle d2"
    "cells d2 = (cells d1)(CONFIG_BASE + of_nat k := to_bytes c ! k)"
    using write_step_succeeds [OF r(2)] by blast
  have "sys_step ext bus ops (?at d1 k) (Config_Save q) (?at d2 (Suc k))"
    using Save_Byte [of "?at d1 k" q c k d1 bus "Inr ()" d2 ext ops] w(1) Suc.prems by simp
  with r(1) have "sys_run ext bus ops s (replicate (Suc k) (Config_Save q)) (?at d2 (Suc k))"
    by (metis Step replicate_append_same replicate_Suc)
  moreover have "window (cells d2) CONFIG_BASE LEN = torn (to_bytes c) (Suc k) (window (cells d) CONFIG_BASE LEN)"
    unfolding w(3) using Suc.prems by (subst window_upd) (auto simp: r(3) torn_Suc)
  ultimately show ?case using w(2) by blast
qed

text \<open>A save from its lock to its end, and one that is cut after \<open>k\<close> bytes.\<close>

lemma config_write_run:
  assumes "web_at s q = Config_Locking c" and "\<not> eeprom_locked s" and "eeprom (dev s) = Some d" and "idle d" and "k \<le> LEN"
  shows "\<exists>d'. sys_run ext bus ops s (replicate (Suc k) (Config_Save q)) (s\<lparr>dev := (dev s)\<lparr>eeprom := Some d'\<rparr>,
      web_at := (web_at s)(q := Config_Writing c k)\<rparr>) \<and> idle d' \<and>
    window (cells d') CONFIG_BASE LEN = torn (to_bytes c) k (window (cells d) CONFIG_BASE LEN)"
proof -
  have "sys_step ext bus ops s (Config_Save q) (s\<lparr>web_at := (web_at s)(q := Config_Writing c 0)\<rparr>)"
    by (rule Save_Lock [OF assms(1,2)])
  with config_bytes_run [of "s\<lparr>web_at := (web_at s)(q := Config_Writing c 0)\<rparr>" q c d k ext ops] assms(3-5)
  show ?thesis by (auto intro: run_Cons)
qed

end

section \<open>A power cut during an LED save\<close>

context responsive_at24c02
begin

lemma led_write_run:
  assumes "mqtt_at s = Led_Locking x due" and "\<not> eeprom_locked s" and "eeprom (dev s) = Some d" and "idle d" and "i \<le> 8"
  shows "\<exists>d'. sys_run ext bus ops s (replicate (Suc i) Led_Save)
      (s\<lparr>dev := (dev s)\<lparr>eeprom := Some d'\<rparr>, mqtt_at := Led_Writing x i due\<rparr>) \<and> idle d' \<and>
    window (cells d') STATE_BASE 8 = torn (image_of_state x) i (window (cells d) STATE_BASE 8)"
  using assms(5)
proof (induction i)
  case 0
  have "s\<lparr>dev := (dev s)\<lparr>eeprom := Some d\<rparr>, mqtt_at := Led_Writing x 0 due\<rparr> = s\<lparr>mqtt_at := Led_Writing x 0 due\<rparr>"
    using assms(3) by (cases s; cases "dev s") simp
  with run_one [OF Led_Lock [OF assms(1,2)]] assms(4) show ?case by (intro exI [of _ d]) simp
next
  case (Suc i)
  let ?at = "\<lambda>d i. s\<lparr>dev := (dev s)\<lparr>eeprom := Some d\<rparr>, mqtt_at := Led_Writing x i due\<rparr>"
  obtain d1 where r: "sys_run ext bus ops s (replicate (Suc i) Led_Save) (?at d1 i)" "idle d1"
    "window (cells d1) STATE_BASE 8 = torn (image_of_state x) i (window (cells d) STATE_BASE 8)"
    using Suc.IH Suc_leD [OF Suc.prems] by blast
  obtain d2 where w: "write_step bus STATE_BASE i (image_of_state x ! i) d1 = (Inr (), d2)" "idle d2"
    "cells d2 = (cells d1)(STATE_BASE + of_nat i := image_of_state x ! i)"
    using write_step_succeeds [OF r(2)] by blast
  have "sys_step ext bus ops (?at d1 i) Led_Save (?at d2 (Suc i))"
    using Led_Byte [of "?at d1 i" x i due d1 bus "Inr ()" d2 ext ops] w(1) Suc.prems by simp
  with r(1) have "sys_run ext bus ops s (replicate (Suc i) Led_Save @ [Led_Save]) (?at d2 (Suc i))"
    by (rule Step)
  then have "sys_run ext bus ops s (replicate (Suc (Suc i)) Led_Save) (?at d2 (Suc i))"
    by (simp add: replicate_append_same)
  moreover have "window (cells d2) STATE_BASE 8 = torn (image_of_state x) (Suc i) (window (cells d) STATE_BASE 8)"
    unfolding w(3) using Suc.prems by (subst window_upd) (auto simp: r(3) torn_Suc)
  ultimately show ?case using w(2) by blast
qed

lemma cut_led_save:
  assumes "mqtt_at s = Led_Locking x due" and "\<not> eeprom_locked s" and "eeprom (dev s) = Some d" and "idle d"
    and "i \<le> 8" and "fixed_capacity ext"
  shows "\<exists>s1 d1. sys_run ext bus ops s (replicate (Suc i) Led_Save) s1 \<and> eeprom (dev s1) = Some d1 \<and> idle d1 \<and>
    (\<forall>mk (s2 :: ('a, 'c) system). started ext bus d1 mk s2 \<longrightarrow>
      shown_leds (dev s2) = state_of_image (Some (torn (image_of_state x) i (window (cells d) STATE_BASE 8)))) \<and>
    (i < 8 \<longrightarrow> (\<forall>d2 mk (s2 :: ('a, 'c) system). idle d2 \<longrightarrow> (\<forall>a. a \<noteq> STATE_BASE + of_nat i \<longrightarrow> cells d2 a = cells d1 a) \<longrightarrow>
      started ext bus d2 mk s2 \<longrightarrow> shown_leds (dev s2) = state_of_image (Some
        ((torn (image_of_state x) i (window (cells d) STATE_BASE 8))[i := cells d2 (STATE_BASE + of_nat i)]))))"
proof -
  obtain d1 where d1: "sys_run ext bus ops s (replicate (Suc i) Led_Save)
      (s\<lparr>dev := (dev s)\<lparr>eeprom := Some d1\<rparr>, mqtt_at := Led_Writing x i due\<rparr>)" "idle d1"
    "window (cells d1) STATE_BASE 8 = torn (image_of_state x) i (window (cells d) STATE_BASE 8)"
    using led_write_run [OF assms(1-5)] by blast
  have clean: "shown_leds (dev s2) = state_of_image (Some (torn (image_of_state x) i (window (cells d) STATE_BASE 8)))"
    if "started ext bus d1 mk s2" for mk and s2 :: "('a, 'c) system"
    using started_inv [OF assms(6) that d1(2)] d1(3) by (simp add: stored_state_def)
  have mid: "shown_leds (dev s2) = state_of_image (Some
      ((torn (image_of_state x) i (window (cells d) STATE_BASE 8))[i := cells d2 (STATE_BASE + of_nat i)]))"
    if i: "i < 8" and d2: "idle d2" and same: "\<forall>a. a \<noteq> STATE_BASE + of_nat i \<longrightarrow> cells d2 a = cells d1 a"
      and st: "started ext bus d2 mk s2" for d2 mk and s2 :: "('a, 'c) system"
  proof -
    let ?a = "STATE_BASE + of_nat i"
    have "cells d2 = (cells d1)(?a := cells d2 ?a)" using same by (auto simp del: of_nat_Suc)
    then have "window (cells d2) STATE_BASE 8 = (window (cells d1) STATE_BASE 8)[i := cells d2 ?a]"
      using window_upd [OF i, of "cells d1" STATE_BASE "cells d2 ?a"] by simp
    with started_inv [OF assms(6) st d2] d1(3) show ?thesis by (simp add: stored_state_def)
  qed
  show ?thesis
    by (rule exI, rule exI [of _ d1], intro conjI allI impI, rule d1(1)) (auto simp: d1(2) clean intro: mid)
qed

end

text \<open>
  What the restart shows after a save of \<open>x\<close> over \<open>old\<close> was cut with \<open>i\<close> bytes written, and when the cut
  came inside the write cycle of the next byte and left \<open>b\<close> in its cell.
\<close>

definition cut_shows :: "nat \<Rightarrow> output_state \<Rightarrow> output_state \<Rightarrow> output_state" where
  "cut_shows i x old = \<lparr>led1 = led1 (if 5 < i then x else old), led2 = led2 (if 6 < i then x else old)\<rparr>"

definition mid_cut_shows :: "nat \<Rightarrow> output_state \<Rightarrow> output_state \<Rightarrow> u8 \<Rightarrow> output_state" where
  "mid_cut_shows i x old b =
    (if i < 4 then if b = STATE_MAGIC ! i then old else default_output
     else if i = 5 then (cut_shows i x old)\<lparr>led1 := b AND 1 \<noteq> 0\<rparr>
     else if i = 6 then (cut_shows i x old)\<lparr>led2 := b AND 1 \<noteq> 0\<rparr>
     else cut_shows i x old)"

lemma cut_state:
  assumes "length old = 8" and "take 4 old = STATE_MAGIC"
  shows "i \<le> 8 \<Longrightarrow> state_of_image (Some (torn (image_of_state x) i old)) = cut_shows i x (state_of_image (Some old))"
    and "i < 8 \<Longrightarrow> state_of_image (Some ((torn (image_of_state x) i old)[i := b])) = mid_cut_shows i x (state_of_image (Some old)) b"
proof -
  obtain v4 v5 v6 v7 where old: "old = STATE_MAGIC @ [v4, v5, v6, v7]"
    using assms(1) append_take_drop_id [of 4 old] unfolding assms(2)
    by (auto simp: STATE_MAGIC_def length_Suc_conv eval_nat_numeral dest!: sym [of _ old])
  note defs = old torn_def state_of_image_def image_of_state_def STATE_MAGIC_def sub_slice_def cut_shows_def
    mid_cut_shows_def eval_nat_numeral
  {
    assume "i \<le> 8"
    then have "i \<in> {0, 1, 2, 3, 4, 5, 6, 7, 8}" by auto
    then show "state_of_image (Some (torn (image_of_state x) i old)) = cut_shows i x (state_of_image (Some old))"
      by (auto simp: defs)
  next
    assume "i < 8"
    then have "i \<in> {0, 1, 2, 3, 4, 5, 6, 7}" by auto
    then show "state_of_image (Some ((torn (image_of_state x) i old)[i := b])) = mid_cut_shows i x (state_of_image (Some old)) b"
      by (auto simp: defs)
  }
qed

section \<open>Saves finish\<close>

text \<open>
  What a web task has been asked to store, and that every save in progress comes to its end within so
  many steps of its own task, once nobody else holds the EEPROM.
\<close>

fun asked_to_save :: "web_pc \<Rightarrow> network_config option" where
  "asked_to_save (Config_Locking c) = Some c"
| "asked_to_save (Config_Writing c i) = Some c"
| "asked_to_save pc = None"

lemma asked_to_save_iff: "asked_to_save pc = Some c \<longleftrightarrow> pc = Config_Locking c \<or> (\<exists>i. pc = Config_Writing c i)"
  by (cases pc) auto

definition settled :: "web_pc \<Rightarrow> web_pc" where
  "settled pc = (if asked_to_save pc = None then pc else Resetting)"

definition stored_last :: "('d, 'c) system \<Rightarrow> ('d, 'c) system \<Rightarrow> bool" where
  "stored_last s s' \<longleftrightarrow>
    (if \<forall>q. asked_to_save (web_at s q) = None then pending s' = pending s
     else \<exists>q. asked_to_save (web_at s q) = Some (pending s'))"

lemma pool_ids: "q = Pool_A \<or> q = Pool_B"
  by (cases q) auto

context responsive_at24c02
begin

lemma finish_config_bytes:
  assumes "web_at s q = Config_Writing c i" and "i \<le> LEN" and "eeprom (dev s) = Some d" and "idle d"
  shows "\<exists>d'. sys_run ext bus ops s (replicate (Suc (LEN - i)) (Config_Save q))
    (s\<lparr>dev := (dev s)\<lparr>eeprom := Some d'\<rparr>, web_at := (web_at s)(q := Resetting), pending := c\<rparr>)"
  using assms
proof (induction "LEN - i" arbitrary: i d s)
  case 0
  then have "i = LEN" by simp
  moreover have "(dev s)\<lparr>eeprom := Some d\<rparr> = dev s" using 0(4) by (cases "dev s") simp
  then have "s\<lparr>dev := (dev s)\<lparr>eeprom := Some d\<rparr>, web_at := (web_at s)(q := Resetting), pending := c\<rparr> =
      s\<lparr>web_at := (web_at s)(q := Resetting), pending := c\<rparr>" by (cases s) simp
  ultimately show ?case using run_one [OF Save_Done [of s q c ext bus ops]] 0(2)
    by (intro exI [of _ d]) (simp del: fun_upd_apply)
next
  case (Suc m)
  then have i: "i < LEN" by simp
  obtain d1 where w: "write_step bus CONFIG_BASE i (to_bytes c ! i) d = (Inr (), d1)" "idle d1"
    using write_step_succeeds [OF Suc.prems(4)] by blast
  let ?s = "s\<lparr>dev := (dev s)\<lparr>eeprom := Some d1\<rparr>, web_at := (web_at s)(q := Config_Writing c (Suc i))\<rparr>"
  have step: "sys_step ext bus ops s (Config_Save q) ?s"
    using Save_Byte [OF Suc.prems(1) i Suc.prems(3) w(1), of ext ops] by simp
  have next_byte: "m = LEN - Suc i" "web_at ?s q = Config_Writing c (Suc i)" "Suc i \<le> LEN" "eeprom (dev ?s) = Some d1"
    using Suc.hyps(2) i by simp_all
  obtain d' where "sys_run ext bus ops ?s (replicate (Suc (LEN - Suc i)) (Config_Save q))
      (?s\<lparr>dev := (dev ?s)\<lparr>eeprom := Some d'\<rparr>, web_at := (web_at ?s)(q := Resetting), pending := c\<rparr>)"
    using Suc.hyps(1) [OF next_byte w(2)] by (elim exE)
  with run_Cons [OF step] have "sys_run ext bus ops s (Config_Save q # replicate (Suc (LEN - Suc i)) (Config_Save q))
      (s\<lparr>dev := (dev s)\<lparr>eeprom := Some d'\<rparr>, web_at := (web_at s)(q := Resetting), pending := c\<rparr>)" by simp
  moreover have "Suc (LEN - i) = Suc (Suc (LEN - Suc i))" using i by simp
  ultimately show ?case by (metis replicate_Suc)
qed

lemma settle_led:
  assumes "sys_inv ext cells idle s" and "\<not> eeprom_locked s \<or> (\<exists>x i due. mqtt_at s = Led_Writing x i due)"
  shows "\<exists>ls s'. sys_run ext bus ops s ls s' \<and> length ls \<le> 10 \<and> set ls \<subseteq> {Led_Save} \<and> \<not> eeprom_locked s' \<and>
    (\<forall>x i due. mqtt_at s' \<noteq> Led_Locking x due) \<and> web_at s' = web_at s \<and> pending s' = pending s \<and>
    shown_leds (dev s') = shown_leds (dev s)"
proof -
  obtain d where d: "eeprom (dev s) = Some d" "idle d" "leds_ok cells (mqtt_at s) d (dev s)" "one_writer s"
    using assms(1) by (auto simp: sys_inv_def)
  have finish: "\<exists>ls s'. sys_run ext bus ops u ls s' \<and> length ls \<le> 9 \<and> set ls \<subseteq> {Led_Save} \<and> mqtt_at s' = Polling due \<and>
      web_at s' = web_at u \<and> pending s' = pending u \<and> shown_leds (dev s') = shown_leds (dev u)"
    if u: "mqtt_at u = Led_Writing x i due" "i \<le> 8" "eeprom (dev u) = Some d" for u :: "('a, 'c) system" and x i due
  proof -
    obtain r d' where "write_loop bus STATE_BASE i (drop i (image_of_state x)) d = (r, d')" by fastforce
    from led_bytes_run [OF u this, of ext ops] obtain n where "n \<le> Suc (8 - i)"
      "sys_run ext bus ops u (replicate n Led_Save) (u\<lparr>dev := (dev u)\<lparr>eeprom := Some d',
        led_cache := cache_after r x (led_cache (dev u))\<rparr>, mqtt_at := Polling due\<rparr>)" by (elim exE conjE)
    then show ?thesis by (intro exI [of _ "replicate n Led_Save"] exI) (auto simp: shown_leds_def)
  qed
  show ?thesis
  proof (cases "mqtt_at s")
    case (Led_Locking x due)
    let ?s = "s\<lparr>mqtt_at := Led_Writing x 0 due\<rparr>"
    have free: "\<not> eeprom_locked s" using assms(2) Led_Locking by auto
    obtain ls s' where r: "sys_run ext bus ops ?s ls s'" "length ls \<le> 9" "set ls \<subseteq> {Led_Save}" "mqtt_at s' = Polling due"
      "web_at s' = web_at s" "pending s' = pending s" "shown_leds (dev s') = shown_leds (dev s)"
      using finish [of ?s x 0 due] d(1) by auto
    have "sys_run ext bus ops s (Led_Save # ls) s'" by (rule run_Cons [OF Led_Lock [OF Led_Locking free] r(1)])
    with r(2-) free show ?thesis by (intro exI [of _ "Led_Save # ls"] exI [of _ s']) (auto simp: eeprom_locked_def)
  next
    case (Led_Writing x i due)
    then have "i \<le> 8" and alone: "\<forall>q c i. web_at s q \<noteq> Config_Writing c i"
      using d(3,4) by (auto simp: leds_ok_def one_writer_def)
    with finish [OF Led_Writing _ d(1)] obtain ls s' where r: "sys_run ext bus ops s ls s'" "length ls \<le> 9"
      "set ls \<subseteq> {Led_Save}" "mqtt_at s' = Polling due" "web_at s' = web_at s" "pending s' = pending s"
      "shown_leds (dev s') = shown_leds (dev s)" by blast
    with alone show ?thesis by (intro exI [of _ ls] exI [of _ s']) (auto simp: eeprom_locked_def)
  qed (use assms(2) in \<open>auto intro!: exI [of _ "[]"] exI [of _ s] Refl\<close>)
qed

lemma settle_config:
  assumes "sys_inv ext cells idle s" and "\<not> eeprom_locked s \<or> (\<exists>c i. web_at s q = Config_Writing c i)"
  shows "\<exists>ls s'. sys_run ext bus ops s ls s' \<and> set ls \<subseteq> {Config_Save q} \<and> \<not> eeprom_locked s' \<and>
    length ls \<le> (if asked_to_save (web_at s q) = None then 0 else LEN + 2) \<and> mqtt_at s' = mqtt_at s \<and> web_at s' = (web_at s)(q := if asked_to_save (web_at s q) = None then web_at s q else Resetting) \<and>
    pending s' = (case asked_to_save (web_at s q) of None \<Rightarrow> pending s | Some c \<Rightarrow> c) \<and>
    shown_leds (dev s') = shown_leds (dev s)"
proof -
  obtain d where d: "eeprom (dev s) = Some d" "idle d" "saving_ok (cells d) (web_at s q)" "one_writer s"
    using assms(1) by (auto simp: sys_inv_def config_ok_def)
  have finish: "\<exists>ls s'. sys_run ext bus ops u ls s' \<and> length ls \<le> LEN + 1 \<and> set ls \<subseteq> {Config_Save q} \<and> mqtt_at s' = mqtt_at u \<and>
      web_at s' = (web_at u)(q := Resetting) \<and> pending s' = c \<and> shown_leds (dev s') = shown_leds (dev u)"
    if u: "web_at u q = Config_Writing c i" "i \<le> LEN" "eeprom (dev u) = Some d" for u :: "('a, 'c) system" and c i
  proof -
    obtain d' where "sys_run ext bus ops u (replicate (Suc (LEN - i)) (Config_Save q))
        (u\<lparr>dev := (dev u)\<lparr>eeprom := Some d'\<rparr>, web_at := (web_at u)(q := Resetting), pending := c\<rparr>)"
      using finish_config_bytes [OF u d(2), of ext ops] by (elim exE)
    then show ?thesis
      by (intro exI [of _ "replicate (Suc (LEN - i)) (Config_Save q)"] exI)
        (auto simp: shown_leds_def simp del: fun_upd_apply replicate_Suc)
  qed
  have unlocked: "\<not> eeprom_locked s'" if "mqtt_at s' = mqtt_at s" "web_at s' = (web_at s)(q := Resetting)"
    for s' :: "('a, 'c) system"
    using assms(2) d(4) that by (auto simp: eeprom_locked_def one_writer_def split: if_splits)
  show ?thesis
  proof (cases "web_at s q")
    case (Config_Locking c)
    let ?s = "s\<lparr>web_at := (web_at s)(q := Config_Writing c 0)\<rparr>"
    have free: "\<not> eeprom_locked s" using assms(2) Config_Locking by auto
    obtain ls s' where r: "sys_run ext bus ops ?s ls s'" "length ls \<le> LEN + 1" "set ls \<subseteq> {Config_Save q}" "mqtt_at s' = mqtt_at s"
      "web_at s' = (web_at s)(q := Resetting)" "pending s' = c" "shown_leds (dev s') = shown_leds (dev s)"
      using finish [of ?s c 0] d(1) by auto
    have "sys_run ext bus ops s (Config_Save q # ls) s'" by (rule run_Cons [OF Save_Lock [OF Config_Locking free] r(1)])
    with r(2-) unlocked [OF r(4,5)] Config_Locking show ?thesis
      by (intro exI [of _ "Config_Save q # ls"] exI [of _ s']) (auto simp del: fun_upd_apply)
  next
    case (Config_Writing c i)
    then have "i \<le> LEN" using d(3) by (simp add: saving_ok_def)
    with finish [OF Config_Writing _ d(1)] obtain ls s' where r: "sys_run ext bus ops s ls s'" "length ls \<le> LEN + 1"
      "set ls \<subseteq> {Config_Save q}" "mqtt_at s' = mqtt_at s" "web_at s' = (web_at s)(q := Resetting)" "pending s' = c"
      "shown_leds (dev s') = shown_leds (dev s)" by blast
    with unlocked [OF r(4,5)] Config_Writing show ?thesis
      by (intro exI [of _ ls] exI [of _ s']) (auto simp del: fun_upd_apply)
  qed (use assms(2) in \<open>auto intro!: exI [of _ "[]"] exI [of _ s] Refl simp: fun_upd_idem\<close>)
qed

text \<open>All of them, one after the other, unless a web task is writing, and then from any state of a run.\<close>

lemma settle_free:
  assumes "fixed_capacity ext" and "sys_inv ext cells idle s"
    and "\<not> eeprom_locked s \<or> (\<exists>x i due. mqtt_at s = Led_Writing x i due)"
  shows "\<exists>ls s'. sys_run ext bus ops s ls s' \<and> set ls \<subseteq> {Led_Save, Config_Save Pool_A, Config_Save Pool_B} \<and>
    length ls \<le> 10 + (\<Sum>q\<leftarrow>[Pool_A, Pool_B]. if asked_to_save (web_at s q) = None then 0 else LEN + 2) \<and>
    \<not> eeprom_locked s' \<and> (\<forall>x i due. mqtt_at s' \<noteq> Led_Locking x due) \<and> web_at s' = settled \<circ> web_at s \<and>
    stored_last s s' \<and> shown_leds (dev s') = shown_leds (dev s)"
proof -
  obtain l1 s1 where 1: "sys_run ext bus ops s l1 s1" "length l1 \<le> 10" "set l1 \<subseteq> {Led_Save}" "\<not> eeprom_locked s1"
    "\<forall>x i due. mqtt_at s1 \<noteq> Led_Locking x due" "web_at s1 = web_at s" "pending s1 = pending s"
    "shown_leds (dev s1) = shown_leds (dev s)"
    using settle_led [OF assms(2), of ops] assms(3) by blast
  have i1: "sys_inv ext cells idle s1" by (rule sys_run_inv [OF assms(1) 1(1) assms(2)])
  obtain l2 s2 where 2: "sys_run ext bus ops s1 l2 s2" "set l2 \<subseteq> {Config_Save Pool_A}" "\<not> eeprom_locked s2"
    "length l2 \<le> (if asked_to_save (web_at s1 Pool_A) = None then 0 else LEN + 2)" "mqtt_at s2 = mqtt_at s1"
    "web_at s2 = (web_at s1)(Pool_A := if asked_to_save (web_at s1 Pool_A) = None then web_at s1 Pool_A else Resetting)"
    "pending s2 = (case asked_to_save (web_at s1 Pool_A) of None \<Rightarrow> pending s1 | Some c \<Rightarrow> c)"
    "shown_leds (dev s2) = shown_leds (dev s1)"
    using settle_config [OF i1, of Pool_A ops] 1(4) by blast
  have i2: "sys_inv ext cells idle s2" by (rule sys_run_inv [OF assms(1) 2(1) i1])
  obtain l3 s3 where 3: "sys_run ext bus ops s2 l3 s3" "set l3 \<subseteq> {Config_Save Pool_B}" "\<not> eeprom_locked s3"
    "length l3 \<le> (if asked_to_save (web_at s2 Pool_B) = None then 0 else LEN + 2)" "mqtt_at s3 = mqtt_at s2"
    "web_at s3 = (web_at s2)(Pool_B := if asked_to_save (web_at s2 Pool_B) = None then web_at s2 Pool_B else Resetting)"
    "pending s3 = (case asked_to_save (web_at s2 Pool_B) of None \<Rightarrow> pending s2 | Some c \<Rightarrow> c)"
    "shown_leds (dev s3) = shown_leds (dev s2)"
    using settle_config [OF i2, of Pool_B ops] 2(3) by blast
  have B: "web_at s2 Pool_B = web_at s Pool_B" using 1(6) 2(6) by simp
  have "sys_run ext bus ops s (l1 @ l2 @ l3) s3" using 1(1) 2(1) 3(1) by (blast intro: run_append)
  moreover have "web_at s3 = settled \<circ> web_at s"
  proof
    show "web_at s3 q = (settled \<circ> web_at s) q" for q
      using B 1(6) 2(6) 3(6) by (cases q) (simp_all add: settled_def)
  qed
  moreover have "stored_last s s3"
    unfolding stored_last_def using B 1(6,7) 2(7) 3(7)
    by (auto split: option.splits) (metis pool_ids option.distinct(1))+
  moreover have "length (l1 @ l2 @ l3) \<le>
      10 + (\<Sum>q\<leftarrow>[Pool_A, Pool_B]. if asked_to_save (web_at s q) = None then 0 else LEN + 2)"
    using 1(2) 2(4) 3(4) unfolding B 1(6) by simp
  moreover have "set (l1 @ l2 @ l3) \<subseteq> {Led_Save, Config_Save Pool_A, Config_Save Pool_B}"
    using 1(3) 2(2) 3(2) by auto
  ultimately show ?thesis using 1(5,8) 2(5,8) 3(3,5,8)
    by (intro exI [of _ "l1 @ l2 @ l3"] exI [of _ s3]) simp
qed

lemma settle_all:
  assumes "fixed_capacity ext" and "sys_inv ext cells idle s"
  shows "\<exists>ls s'. sys_run ext bus ops s ls s' \<and> set ls \<subseteq> {Led_Save, Config_Save Pool_A, Config_Save Pool_B} \<and>
    length ls \<le> 10 + (\<Sum>q\<leftarrow>[Pool_A, Pool_B]. if asked_to_save (web_at s q) = None then 0 else LEN + 2) \<and>
    \<not> eeprom_locked s' \<and> (\<forall>x i due. mqtt_at s' \<noteq> Led_Locking x due) \<and> web_at s' = settled \<circ> web_at s \<and>
    stored_last s s' \<and> shown_leds (dev s') = shown_leds (dev s)"
proof (cases "\<exists>q c i. web_at s q = Config_Writing c i")
  case False
  then have "\<not> eeprom_locked s \<or> (\<exists>x i due. mqtt_at s = Led_Writing x i due)" by (auto simp: eeprom_locked_def)
  then show ?thesis by (rule settle_free [OF assms])
next
  case True
  then obtain q c i where q: "web_at s q = Config_Writing c i" by blast
  then obtain l1 s1 where 1: "sys_run ext bus ops s l1 s1" "set l1 \<subseteq> {Config_Save q}" "\<not> eeprom_locked s1"
    "length l1 \<le> LEN + 2" "web_at s1 = (web_at s)(q := Resetting)" "pending s1 = c" "shown_leds (dev s1) = shown_leds (dev s)"
    using settle_config [OF assms(2), of q ops] by auto
  have "sys_inv ext cells idle s1" by (rule sys_run_inv [OF assms(1) 1(1) assms(2)])
  from settle_free [OF assms(1) this, of ops] 1(3) obtain l2 s2 where
    2: "sys_run ext bus ops s1 l2 s2" "set l2 \<subseteq> {Led_Save, Config_Save Pool_A, Config_Save Pool_B}"
    "length l2 \<le> 10 + (\<Sum>p\<leftarrow>[Pool_A, Pool_B]. if asked_to_save (web_at s1 p) = None then 0 else LEN + 2)"
    "\<not> eeprom_locked s2" "\<forall>x i due. mqtt_at s2 \<noteq> Led_Locking x due" "web_at s2 = settled \<circ> web_at s1"
    "stored_last s1 s2" "shown_leds (dev s2) = shown_leds (dev s1)" by blast
  have "sys_run ext bus ops s (l1 @ l2) s2" using 1(1) 2(1) by (rule run_append [rotated])
  moreover have "web_at s2 = settled \<circ> web_at s" unfolding 2(6) 1(5) by (intro HOL.ext) (auto simp: settled_def q)
  moreover have "stored_last s s2"
  proof (cases "\<forall>p. asked_to_save (web_at s1 p) = None")
    case True
    with 2(7) 1(6) q have "asked_to_save (web_at s q) = Some (pending s2)" by (simp add: stored_last_def)
    then show ?thesis unfolding stored_last_def by (auto intro: exI [of _ q])
  next
    case False
    then obtain p where p: "asked_to_save (web_at s1 p) = Some (pending s2)" using 2(7) by (auto simp: stored_last_def split: if_splits)
    then have "asked_to_save (web_at s p) = Some (pending s2)" unfolding 1(5) by (cases "p = q") auto
    then show ?thesis unfolding stored_last_def by (auto intro: exI [of _ p])
  qed
  moreover have "length (l1 @ l2) \<le> 10 + (\<Sum>p\<leftarrow>[Pool_A, Pool_B]. if asked_to_save (web_at s p) = None then 0 else LEN + 2)"
    using 1(4) 2(3) q unfolding 1(5) by (cases q) simp_all
  moreover have "set (l1 @ l2) \<subseteq> {Led_Save, Config_Save Pool_A, Config_Save Pool_B}"
    using 1(2) 2(2) by (cases q) auto
  ultimately show ?thesis using 1(7) 2(4,5,8) by (intro exI [of _ "l1 @ l2"] exI [of _ s2]) simp
qed

end

section \<open>Concrete devices\<close>

type_synonym logged_system = "(sim, (bytes \<times> bytes \<times> bool) list) system"

definition reading_of :: "('d, 'c) system \<Rightarrow> reading" where
  "reading_of s =
    (let t = of_nat (clock_ms s div 1000) in
     \<lparr>at_validate = t, at_login = (t, t, t),
      shows_view = \<lparr>v_outputs = outputs (dev s), v_link = True, v_mqtt = mqtt_online (dev s), v_uptime = t\<rparr>,
      shows_reset = reason s\<rparr>)"

lemma reads_reading: "reads s (reading_of s)"
  by (simp add: reads_def reading_of_def Let_def)

text \<open>A broker that accepts everything, and a first message that changes an LED.\<close>

lemma log_connect:
  "\<exists>c'. mqtt_connect log_client cfg r True (c, g) = (True, c', g\<lparr>mqtt_online := True\<rparr>)"
  by (simp add: mqtt_connect_def log_client_def subscribe_all_def SUBSCRIBE_TOPICS_def publish_retained_def publish_def Let_def)

lemma led_message_pending:
  assumes "sim_idle chip" and "event_command ev = Some cmd" and "led_update cmd = Some update"
    and "update (stored_state (sim_cells chip)) = x" and "x \<noteq> stored_state (sim_cells chip)"
  shows "\<exists>(s0 :: logged_system) s d. started bounded_append sim_bus chip 0 s0 \<and>
    sys_run bounded_append sim_bus log_client s0 [Connect True, Round (Body ev)] s \<and>
    mqtt_at s = Led_Locking x 10000 \<and> \<not> eeprom_locked s \<and> eeprom (dev s) = Some d \<and> sim_idle d \<and>
    sim_cells d = sim_cells chip"
proof -
  let ?start = "\<lambda>g. start_system bounded_append g (booting bounded_append (sim_cells chip)) (fst (read_and_clear 0 power_on_flags)) [] :: logged_system"
  obtain g d where g: "started bounded_append sim_bus chip 0 (?start g)" "led_cache g = Some (stored_state (sim_cells chip))"
    "eeprom g = Some d" "sim_idle d" "sim_cells d = sim_cells chip"
    using start_exists [OF sim_responsive assms(1), of bounded_append 0 power_on_flags "[]"] by (elim exE conjE)
  let ?s0 = "?start g"
  obtain c' where "mqtt_connect log_client (running ?s0) (reason ?s0) True ([], dev ?s0) = (True, c', (dev ?s0)\<lparr>mqtt_online := True\<rparr>)"
    using log_connect by blast
  from Connected [OF _ this, of bounded_append sim_bus]
  have conn: "sys_step bounded_append sim_bus log_client ?s0 (Connect True)
      (?s0\<lparr>client := c', dev := g\<lparr>mqtt_online := True\<rparr>, mqtt_at := Polling 10000\<rparr>)" (is "sys_step _ _ _ _ _ ?s1")
    by (simp add: start_system_def HEARTBEAT_INTERVAL_MS_def)
  have "heartbeat_due log_client (clock_ms ?s1) 10000 (client ?s1) = (10000, c')"
    by (simp add: heartbeat_due_def start_system_def)
  from Round_Led [OF _ this assms(2,3), of bounded_append sim_bus]
  have led: "sys_step bounded_append sim_bus log_client ?s1 (Round (Body ev))
      (?s1\<lparr>client := c', dev := (dev ?s1)\<lparr>outputs := drive_leds cmd (outputs (dev ?s1))\<rparr>, mqtt_at := Led_Locking x 10000\<rparr>)"
    (is "sys_step _ _ _ _ _ ?s2")
    using assms(4,5) g(2) by (simp add: changed_state_def)
  have "eeprom (dev ?s2) = Some d" "\<not> eeprom_locked ?s2" "mqtt_at ?s2 = Led_Locking x 10000"
    using g(3) by (simp_all add: eeprom_locked_def start_system_def)
  with run_Cons [OF conn run_one [OF led]] g show ?thesis by (intro exI [of _ ?s0] exI [of _ ?s2] exI [of _ d] conjI)
qed

text \<open>The same message with its save run to the end.\<close>

lemma led_message_saved:
  assumes "sim_idle chip" and "event_command ev = Some cmd" and "led_update cmd = Some update"
    and "update (stored_state (sim_cells chip)) = x" and "x \<noteq> stored_state (sim_cells chip)"
  shows "\<exists>(s0 :: logged_system) ls s. started bounded_append sim_bus chip 0 s0 \<and>
    sys_run bounded_append sim_bus log_client s0 ls s \<and> mqtt_at s = Polling 10000 \<and> led_cache (dev s) = Some x"
proof -
  obtain s0 s d where s: "started bounded_append sim_bus chip 0 (s0 :: logged_system)"
    "sys_run bounded_append sim_bus log_client s0 [Connect True, Round (Body ev)] s"
    "mqtt_at s = Led_Locking x 10000" "\<not> eeprom_locked s" "eeprom (dev s) = Some d" "sim_idle d"
    using led_message_pending [OF assms] by blast
  obtain d' where w: "sys_run bounded_append sim_bus log_client s (replicate (Suc 8) Led_Save)
      (s\<lparr>dev := (dev s)\<lparr>eeprom := Some d'\<rparr>, mqtt_at := Led_Writing x 8 10000\<rparr>)" (is "sys_run _ _ _ _ _ ?s")
    using ee.led_write_run [OF s(3-6), of 8 bounded_append log_client] by auto
  have "sys_step bounded_append sim_bus log_client ?s Led_Save
      (?s\<lparr>dev := (dev ?s)\<lparr>led_cache := Some x\<rparr>, mqtt_at := Polling 10000\<rparr>)" (is "sys_step _ _ _ _ _ ?s'")
    by (rule Led_Done) simp
  from run_append [OF run_append [OF run_one [OF this] w] s(2)] s(1)
  show ?thesis by (intro exI [of _ s0] exI exI [of _ ?s'] conjI) (assumption | simp)+
qed

lemma blank_chip_facts:
  "sim_idle blank_chip" "booting bounded_append (sim_cells blank_chip) = default_config bounded_append"
  "stored_state (sim_cells blank_chip) = default_output"
proof -
  show "sim_idle blank_chip" by (simp add: sim_idle_def blank_chip_def)
  have "from_bytes bounded_append (window (sim_cells blank_chip) CONFIG_BASE LEN) = None" by code_simp
  then show "booting bounded_append (sim_cells blank_chip) = default_config bounded_append" by (simp add: booting_def)
  show "stored_state (sim_cells blank_chip) = default_output" by code_simp
qed

lemma led1_on_message:
  "event_command (Publish False TOPIC_LED1 (str ''on'')) = Some (output_cmd.Led1 True)"
  "event_command (Publish False TOPIC_LED2 (str ''on'')) = Some (output_cmd.Led2 True)"
proof -
  have "mqtt_command TOPIC_LED1 (str ''on'') = Some (output_cmd.Led1 True)"
    "mqtt_command TOPIC_LED2 (str ''on'') = Some (output_cmd.Led2 True)" by code_simp+
  then show "event_command (Publish False TOPIC_LED1 (str ''on'')) = Some (output_cmd.Led1 True)"
    "event_command (Publish False TOPIC_LED2 (str ''on'')) = Some (output_cmd.Led2 True)"
    by (simp_all add: event_command_def del: str_Cons)
qed

text \<open>Two requests that save, on a device without a login.\<close>

definition plain_save :: bytes where
  "plain_save = request_head [request_line (str ''POST'') (str ''/save'')] @ str ''prefix=24''"

lemma plain_save_facts:
  "plain_save \<noteq> []" "utf8_valid plain_save"
  "http_method (parse_request plain_save) = str ''POST''" "path (parse_request plain_save) = str ''/save''"
  "body (parse_request plain_save) = Some (str ''prefix=24'')"
  "parse_form bounded_append (str ''prefix=24'') (default_config bounded_append) = Some (default_config bounded_append)"
proof -
  have words: "plain_word (str ''POST'')" "plain_word (str ''/save'')" by code_simp+
  have "parse_request plain_save = \<lparr>raw = plain_save, http_method = str ''POST'', path = str ''/save'', query = []\<rparr>"
    using parse_request_line [OF words, of "[]" "str ''prefix=24''"] by (simp add: plain_save_def)
  then show "http_method (parse_request plain_save) = str ''POST''" "path (parse_request plain_save) = str ''/save''"
    by simp_all
  show "body (parse_request plain_save) = Some (str ''prefix=24'')"
    by (rule body_request [of "[request_line (str ''POST'') (str ''/save'')]"])
      (simp_all add: plain_save_def request_line_def)
  show "plain_save \<noteq> []" "utf8_valid plain_save" by code_simp+
  have pairs: "split_on 38 (str ''prefix=24'') = [str ''prefix=24'']" by code_simp
  have pair: "form_pair bounded_append c (str ''prefix=24'') d = set_field bounded_append c (str ''prefix'') (str ''24'') d" for c d
    by (rule form_pair_eq [where e = "str ''24''"]; code_simp)
  have "parse_prefix (str ''24'') = Some 24" by code_simp
  then show "parse_form bounded_append (str ''prefix=24'') (default_config bounded_append)
      = Some (default_config bounded_append)"
    unfolding parse_form_def pairs fold_option.simps pair
    by (simp add: set_field_def default_config_def DEFAULT_PREFIX_def)
qed

lemma open_submits:
  assumes "req \<noteq> []" and "utf8_valid req" and "http_method (parse_request req) = str ''POST''"
    and "path (parse_request req) = str ''/save''" and "body (parse_request req) = Some b"
    and "parse_form ext b cfg = Some c" and "web_user cfg = []" and "web_pass cfg = []"
  shows "submits ext (start_pool ext cfg t) now (Some req) s = Some (s, c)"
proof -
  obtain x xs where "req = x # xs" using assms(1) by (cases req) auto
  moreover have "authenticate_request ext (start_pool ext cfg t) now (parse_request req) s = Inr (True, [], s)"
    using assms(7,8) by (simp add: authenticate_request_def start_pool_def)
  ultimately show ?thesis using assms(2-6) by (auto simp: submits_def save_submission_def from_utf8_def)
qed

text \<open>A device with a login, visited by a browser and then reset.\<close>

definition login_chip :: sim where
  "login_chip = blank_chip\<lparr>sim_cells := overlay (\<lambda>_. 0xFF) CONFIG_BASE (to_bytes login_config)\<rparr>"

lemma login_chip_facts:
  "sim_idle login_chip" "booting bounded_append (sim_cells login_chip) = login_config"
proof -
  show "sim_idle login_chip" by (simp add: login_chip_def sim_idle_def blank_chip_def)
  have "utf8_valid (str ''op'')" "utf8_valid (str ''a b'')" by code_simp+
  then have "wf_config login_config"
    using hl.default_config_wf by (auto simp: login_config_def wf_config_def wf_string_def CRED_MAX_def)
  then have "from_bytes bounded_append (to_bytes login_config) = Some login_config" by (rule hl.from_to_bytes)
  moreover have "window (sim_cells login_chip) CONFIG_BASE LEN = to_bytes login_config"
    using window_overlay [of "to_bytes login_config"] by (simp add: login_chip_def)
  ultimately show "booting bounded_append (sim_cells login_chip) = login_config" by (simp add: booting_def)
qed

lemma visited_and_reset:
  "\<exists>(s0 :: logged_system) now s. started bounded_append sim_bus login_chip 0 s0 \<and> running s0 = login_config \<and>
    sys_run bounded_append sim_bus log_client s0
      [Request Pool_A now (Some first_request) (send_login_form HTTP_401_LOGIN None), Restart] s"
proof -
  obtain s0 :: logged_system where s0: "started bounded_append sim_bus login_chip 0 s0" "running s0 = login_config"
    using restart_exists [OF sim_responsive login_chip_facts(1), of bounded_append 0] login_chip_facts(2) by auto
  then obtain t where p: "pools s0 Pool_A = start_pool bounded_append login_config t" and closed: "session_token (web_session s0) = 0"
    and acc: "web_at s0 = (\<lambda>_. Accepting)"
    using started_closed [OF s0(1)] by (auto simp: started_def)
  have auth: "p_auth_required (pools s0 Pool_A)" by (simp add: p start_pool_def login_config_def)
  let ?st = "\<lparr>sess = web_session s0, ee = eeprom (dev s0)\<rparr>" and ?form = "send_login_form HTTP_401_LOGIN None"
  have "serve_connection bounded_append sim_bus (pools s0 Pool_A) (reading_of s0) (Some first_request) ?st = Inr (?form, ?st)"
    by (simp add: serve_closed [OF auth _ first_request_valid] closed first_request_refused)
  from Served [OF _ reads_reading closed_submits [OF auth closed] this, of log_client] acc
  have step: "sys_step bounded_append sim_bus log_client s0 (Request Pool_A (reading_of s0) (Some first_request) ?form)
      (s0\<lparr>web_session := web_session s0, dev := (dev s0)\<lparr>eeprom := eeprom (dev s0)\<rparr>,
        web_at := (web_at s0)(Pool_A := if Reset \<in> set ?form then Resetting else Accepting)\<rparr>)" (is "sys_step _ _ _ _ _ ?s1")
    by simp
  obtain d where d: "eeprom (dev ?s1) = Some d" "sim_idle d"
    using ee.started_inv [OF bounded_capacity s0(1) login_chip_facts(1)] by (auto simp: sys_inv_def)
  obtain s2 :: logged_system where "started bounded_append sim_bus d 0 s2"
    using restart_exists [OF sim_responsive d(2)] by blast
  from run_Cons [OF step run_one [OF Reset [OF d(1) this]]] s0 show ?thesis by blast
qed

end
