(* ===== verification/System_Properties.thy ===== *)
theory System_Properties
  imports System_Runs
begin

text \<open>
  What holds of the whole device in every run, and the ways in which saves, restarts and power cuts
  interfere.
\<close>

section \<open>The device agrees with itself\<close>

text \<open>
  C2: the device agrees with itself: in every run since a start, whatever the tasks' interleaving, the
  messages, the requests, the panics and the resets at any moment, on a chip that answers, the
  relay is closed exactly inside a pulse that ends within two seconds; outside an LED save, what
  the LEDs show is what the cache and the EEPROM hold; outside a configuration save, the EEPROM
  holds the configuration saved last; the running configuration is well-formed; and the EEPROM
  has one writer at most.
\<close>

theorem device_stays_coherent:
  assumes "responsive_at24c02 bus cells idle" and "fixed_capacity ext"
    and "started ext bus chip mk s0" and "idle chip" and "sys_run ext bus ops s0 ls s"
  shows "(get_relay (outputs (dev s)) \<longleftrightarrow>
      (\<exists>deadline. relay_at s = Pulsing deadline \<and> deadline \<le> clock_ms s + RELAY_PULSE)) \<and>
    wf_config (running s) \<and> one_writer s \<and>
    (\<exists>d. eeprom (dev s) = Some d \<and>
      ((\<forall>x i due. mqtt_at s \<noteq> Led_Locking x due \<and> mqtt_at s \<noteq> Led_Writing x i due) \<longrightarrow>
        led_cache (dev s) = Some (shown_leds (dev s)) \<and> stored_state (cells d) = shown_leds (dev s)) \<and>
      ((\<forall>q c i. web_at s q \<noteq> Config_Writing c i) \<longrightarrow> booting ext (cells d) = pending s))"
proof -
  have "sys_inv ext cells idle s0"
    using responsive_at24c02.started_inv [OF assms(1-4)] by blast
  with responsive_at24c02.sys_run_inv [OF assms(1,2,5)] have "sys_inv ext cells idle s" by blast
  then obtain d where d: "eeprom (dev s) = Some d" "relay_ok (clock_ms s) (relay_at s) (dev s)"
    "leds_ok cells (mqtt_at s) d (dev s)" "config_ok ext (cells d) s" "one_writer s"
    by (auto simp: sys_inv_def)
  have "get_relay (outputs (dev s)) \<longleftrightarrow>
      (\<exists>deadline. relay_at s = Pulsing deadline \<and> deadline \<le> clock_ms s + RELAY_PULSE)"
    using d(2) by (cases "relay_at s") (auto simp: relay_ok_def)
  moreover have "led_cache (dev s) = Some (shown_leds (dev s)) \<and> stored_state (cells d) = shown_leds (dev s)"
    if "\<forall>x i due. mqtt_at s \<noteq> Led_Locking x due \<and> mqtt_at s \<noteq> Led_Writing x i due"
    using d(3) that by (cases "mqtt_at s") (auto simp: leds_ok_def)
  ultimately show ?thesis using d(1,4,5) by (auto simp: config_ok_def)
qed

theorem device_stays_coherent_witness:
  "\<exists>(s0 :: logged_system) ls s d. started bounded_append sim_bus blank_chip 0 s0 \<and>
    sys_run bounded_append sim_bus log_client s0 ls s \<and> led_cache (dev s) = Some \<lparr>led1 = True, led2 = False\<rparr> \<and>
    shown_leds (dev s) = \<lparr>led1 = True, led2 = False\<rparr> \<and>
    eeprom (dev s) = Some d \<and> stored_state (sim_cells d) = \<lparr>led1 = True, led2 = False\<rparr>"
proof -
  let ?x = "\<lparr>led1 = True, led2 = False\<rparr>"
  obtain s0 ls s where s: "started bounded_append sim_bus blank_chip 0 (s0 :: logged_system)"
    "sys_run bounded_append sim_bus log_client s0 ls s" "mqtt_at s = Polling 10000" "led_cache (dev s) = Some ?x"
    using led_message_saved [OF blank_chip_facts(1) led1_on_message(1), of "\<lambda>s. s\<lparr>led1 := True\<rparr>" ?x]
    by (auto simp: blank_chip_facts default_output_def)
  then have "shown_leds (dev s) = ?x \<and> (\<exists>d. eeprom (dev s) = Some d \<and> stored_state (sim_cells d) = ?x)"
    using device_stays_coherent [OF sim_responsive bounded_capacity s(1) blank_chip_facts(1) s(2)] by auto
  with s show ?thesis by blast
qed

section \<open>Nobody without credentials changes the configuration\<close>

text \<open>
  C3: the stored configuration is safe from everyone without its password, across restarts: on a
  device started with a login configured, in every run of all tasks, with any messages, resets
  and requests of which none carries the right credentials, every answer of either web task is a
  fixed refusal, and the configuration that runs and the one the next boot will load stay what
  they were. No panic an attacker can cause and no reset opens a way in.
\<close>

theorem configuration_is_guarded:
  assumes "responsive_at24c02 bus cells idle" and "fixed_capacity ext"
    and "started ext bus chip mk s0" and "idle chip" and "sys_run ext bus ops s0 ls s"
    and "web_user (running s0) \<noteq> [] \<or> web_pass (running s0) \<noteq> []"
    and "\<forall>l\<in>set ls. no_credentials ext (running s0) l"
  shows "running s = running s0 \<and> (\<forall>l\<in>set ls. refused l) \<and> session_token (web_session s) = 0 \<and>
    (\<exists>d. eeprom (dev s) = Some d \<and> booting ext (cells d) = running s0)"
proof -
  have "sys_inv ext cells idle s0"
    using responsive_at24c02.started_inv [OF assms(1-4)] by blast
  moreover have "guarded (running s0) s0" using started_closed [OF assms(3)] by (simp add: guarded_def)
  ultimately have "guarded (running s0) s" "sys_inv ext cells idle s" "\<forall>l\<in>set ls. refused l"
    using guarded_run [OF assms(1,2,5) _ _ assms(7,6)] by auto
  then show ?thesis by (auto simp: guarded_def sys_inv_def config_ok_def)
qed

theorem configuration_is_guarded_witness:
  "\<exists>(s0 :: logged_system) ls s. started bounded_append sim_bus login_chip 0 s0 \<and> length ls = 2 \<and>
    sys_run bounded_append sim_bus log_client s0 ls s \<and> running s = login_config \<and>
    send_login_form HTTP_401_LOGIN None \<in> refusals"
proof -
  obtain s0 now s where r: "started bounded_append sim_bus login_chip 0 (s0 :: logged_system)" "running s0 = login_config"
    "sys_run bounded_append sim_bus log_client s0
      [Request Pool_A now (Some first_request) (send_login_form HTTP_401_LOGIN None), Restart] s"
    using visited_and_reset by blast
  let ?ls = "[Request Pool_A now (Some first_request) (send_login_form HTTP_401_LOGIN None), Restart]"
  have "web_user (running s0) \<noteq> [] \<or> web_pass (running s0) \<noteq> []" by (simp add: r(2) login_config_def)
  moreover have "\<forall>l\<in>set ?ls. no_credentials bounded_append (running s0) l"
    by (simp add: no_credentials_def first_request_no_login)
  ultimately have "running s = login_config" "send_login_form HTTP_401_LOGIN None \<in> refusals"
    using configuration_is_guarded [OF sim_responsive bounded_capacity r(1) login_chip_facts(1) r(3)] r(2)
    by (auto simp: refused_def)
  with r(1,3) show ?thesis by (intro exI [of _ s0] exI [of _ ?ls] exI [of _ s]) simp
qed

section \<open>The EEPROM never blocks\<close>

text \<open>
  C8: the EEPROM's mutex cannot deadlock, and no save is lost to waiting: from any moment of any run on a
  chip that answers, with whatever saves begun or waiting in the MQTT task and in both web tasks,
  there is a continuation of at most \<open>10 + 2 * (LEN + 2)\<close> steps, all of them steps of those saves, after
  which nothing holds or waits for the EEPROM, every web task that was saving has come to its
  restart, the LEDs are as they were and are what the cache and the EEPROM hold, and the next boot
  loads a configuration that one of the web tasks was asked to store, or the one of before when
  none was.
\<close>

theorem saves_can_always_finish:
  assumes "responsive_at24c02 bus cells idle" and "fixed_capacity ext"
    and "started ext bus chip mk s0" and "idle chip" and "sys_run ext bus ops s0 ls s"
  shows "\<exists>ls' s' d. sys_run ext bus ops s ls' s' \<and>
    set ls' \<subseteq> {Led_Save, Config_Save Pool_A, Config_Save Pool_B} \<and> length ls' \<le> 10 + 2 * (LEN + 2) \<and>
    (\<forall>x i due. mqtt_at s' \<noteq> Led_Locking x due \<and> mqtt_at s' \<noteq> Led_Writing x i due) \<and>
    (\<forall>q. web_at s' q = (if asked_to_save (web_at s q) = None then web_at s q else Resetting)) \<and>
    shown_leds (dev s') = shown_leds (dev s) \<and> led_cache (dev s') = Some (shown_leds (dev s)) \<and>
    eeprom (dev s') = Some d \<and> stored_state (cells d) = shown_leds (dev s) \<and>
    (if \<forall>q. asked_to_save (web_at s q) = None then booting ext (cells d) = pending s
     else \<exists>q. asked_to_save (web_at s q) = Some (booting ext (cells d)))"
proof -
  note inv = responsive_at24c02.sys_run_inv [OF assms(1,2)]
  have s: "sys_inv ext cells idle s" using inv [OF assms(5)] responsive_at24c02.started_inv [OF assms(1-4)] by blast
  obtain ls' s' where r: "sys_run ext bus ops s ls' s'" "set ls' \<subseteq> {Led_Save, Config_Save Pool_A, Config_Save Pool_B}"
    "length ls' \<le> 10 + (\<Sum>q\<leftarrow>[Pool_A, Pool_B]. if asked_to_save (web_at s q) = None then 0 else LEN + 2)"
    "\<not> eeprom_locked s'" "\<forall>x i due. mqtt_at s' \<noteq> Led_Locking x due" "web_at s' = settled \<circ> web_at s"
    "stored_last s s'" "shown_leds (dev s') = shown_leds (dev s)"
    using responsive_at24c02.settle_all [OF assms(1,2) s, of ops] by blast
  obtain d where d: "eeprom (dev s') = Some d" "leds_ok cells (mqtt_at s') d (dev s')" "config_ok ext (cells d) s'"
    using inv [OF r(1) s] by (auto simp: sys_inv_def)
  have out: "\<forall>x i due. mqtt_at s' \<noteq> Led_Locking x due \<and> mqtt_at s' \<noteq> Led_Writing x i due"
    and "booting ext (cells d) = pending s'"
    using r(4,5) d(3) by (auto simp: eeprom_locked_def config_ok_def)
  moreover from out have "led_cache (dev s') = Some (shown_leds (dev s'))" "stored_state (cells d) = shown_leds (dev s')"
    using d(2) by (cases "mqtt_at s'"; simp add: leds_ok_def)+
  moreover have "length ls' \<le> 10 + 2 * (LEN + 2)" using r(3) by (auto split: if_splits)
  ultimately show ?thesis using r(1,2,6-8) d(1)
    by (intro exI [of _ ls'] exI [of _ s'] exI [of _ d]) (simp add: settled_def stored_last_def)
qed

theorem saves_can_always_finish_witness:
  "\<exists>(s0 :: logged_system) ls s ls' s' d. started bounded_append sim_bus blank_chip 0 s0 \<and>
    sys_run bounded_append sim_bus log_client s0 ls s \<and>
    web_at s = (\<lambda>q. Config_Locking (case q of Pool_A \<Rightarrow> sample_saved | Pool_B \<Rightarrow> default_config bounded_append)) \<and>
    sys_run bounded_append sim_bus log_client s ls' s' \<and> web_at s' = (\<lambda>_. Resetting) \<and> eeprom (dev s') = Some d \<and>
    booting bounded_append (sim_cells d) \<in> {sample_saved, default_config bounded_append}"
proof -
  let ?cfg = "default_config bounded_append" and ?A = "Some save_request" and ?B = "Some plain_save"
  obtain s0 :: logged_system where s0: "started bounded_append sim_bus blank_chip 0 s0" "running s0 = ?cfg"
    using restart_exists [OF sim_responsive blank_chip_facts(1), of bounded_append 0] blank_chip_facts(2) by auto
  have idle: "web_at s0 = (\<lambda>_. Accepting)" using s0(1) by (auto simp: started_def)
  have none: "web_user ?cfg = []" "web_pass ?cfg = []" by (simp_all add: default_config_def)
  have sub: "submits bounded_append (pools s0 Pool_A) (reading_of s0) ?A (web_session s0) = Some (web_session s0, sample_saved)"
    "submits bounded_append (pools s0 Pool_B) (reading_of s0) ?B (web_session s0) = Some (web_session s0, ?cfg)"
    using s0 open_submits [OF save_request_facts sample_form_parses none] open_submits [OF plain_save_facts none]
    by (auto simp: started_def) metis+
  let ?s1 = "s0\<lparr>web_session := web_session s0, web_at := (web_at s0)(Pool_A := Config_Locking sample_saved)\<rparr>"
  let ?s = "?s1\<lparr>web_session := web_session s0, web_at := (web_at ?s1)(Pool_B := Config_Locking ?cfg)\<rparr>"
  have one: "sys_step bounded_append sim_bus log_client s0 (Request Pool_A (reading_of s0) ?A []) ?s1"
    using Save_Begin [OF _ reads_reading sub(1)] idle by simp
  have two: "sys_step bounded_append sim_bus log_client ?s1 (Request Pool_B (reading_of s0) ?B []) ?s"
    using Save_Begin [of ?s1 Pool_B "reading_of s0" bounded_append ?B "web_session s0" ?cfg] sub(2) idle reads_reading [of s0]
    by (simp add: reads_def)
  have run: "sys_run bounded_append sim_bus log_client s0 [Request Pool_A (reading_of s0) ?A [], Request Pool_B (reading_of s0) ?B []] ?s"
    by (rule run_Cons [OF one run_one [OF two]])
  have at: "web_at ?s q = Config_Locking (case q of Pool_A \<Rightarrow> sample_saved | Pool_B \<Rightarrow> ?cfg)" for q by (cases q) simp_all
  obtain ls' s' d where f: "sys_run bounded_append sim_bus log_client ?s ls' s'"
    "\<forall>q. web_at s' q = (if asked_to_save (web_at ?s q) = None then web_at ?s q else Resetting)" "eeprom (dev s') = Some d"
    "if \<forall>q. asked_to_save (web_at ?s q) = None then booting bounded_append (sim_cells d) = pending ?s
     else \<exists>q. asked_to_save (web_at ?s q) = Some (booting bounded_append (sim_cells d))"
    using saves_can_always_finish [OF sim_responsive bounded_capacity s0(1) blank_chip_facts(1) run] by (elim exE conjE)
  have "web_at s' = (\<lambda>_. Resetting)" using f(2) unfolding at by auto
  moreover obtain q where "booting bounded_append (sim_cells d) = (case q of Pool_A \<Rightarrow> sample_saved | Pool_B \<Rightarrow> ?cfg)"
    using f(4) unfolding at by (auto dest: sym)
  then have "booting bounded_append (sim_cells d) \<in> {sample_saved, ?cfg}" by (auto split: pool_id.splits)
  moreover have "web_at ?s = (\<lambda>q. Config_Locking (case q of Pool_A \<Rightarrow> sample_saved | Pool_B \<Rightarrow> ?cfg))" using at by blast
  ultimately show ?thesis using s0(1) run f(1,3) by (intro exI conjI)
qed

section \<open>Interference\<close>

text \<open>
  C10: two configuration saves at once can leave a mixture that nobody submitted, on a chip that
  answers and with no failure anywhere: the first save restarts the device 200 ms after its last
  byte, without the EEPROM's lock, while the second is writing; wherever in the second image the
  restart falls, the next boot reads its beginning followed by the rest of the first.
\<close>

theorem concurrent_saves_mix:
  fixes s :: "('d, 'c) system"
  assumes "responsive_at24c02 bus cells idle" and "eeprom (dev s) = Some d" and "idle d"
    and "web_at s = (\<lambda>_. Accepting)" and "\<not> eeprom_locked s"
    and "reads s n1" and "submits ext (pools s Pool_A) n1 r1 (web_session s) = Some (se1, a)"
    and "reads s n2" and "submits ext (pools s Pool_B) n2 r2 se1 = Some (se2, b)" and "k \<le> LEN"
  shows "\<exists>ls s'. sys_run ext bus ops s (Request Pool_A n1 r1 [] # Request Pool_B n2 r2 [] # ls) s' \<and>
    set ls \<subseteq> {Config_Save Pool_A, Config_Save Pool_B} \<and>
    running s' = (case from_bytes ext (torn (to_bytes b) k (to_bytes a)) of None \<Rightarrow> default_config ext | Some c \<Rightarrow> c)"
proof -
  note run = responsive_at24c02.config_write_run [OF assms(1)]
  let ?s1 = "s\<lparr>web_session := se1, web_at := (web_at s)(Pool_A := Config_Locking a)\<rparr>"
  let ?s2 = "?s1\<lparr>web_session := se2, web_at := (web_at ?s1)(Pool_B := Config_Locking b)\<rparr>"
  have "sys_step ext bus ops s (Request Pool_A n1 r1 []) ?s1"
    using Save_Begin [OF _ assms(6,7)] assms(4) by simp
  moreover have "sys_step ext bus ops ?s1 (Request Pool_B n2 r2 []) ?s2"
    using Save_Begin [of ?s1 Pool_B n2 ext r2 se2 b bus ops] assms(4,8,9) by (simp add: reads_def)
  moreover have "\<not> eeprom_locked ?s2" using assms(4,5) by (auto simp: eeprom_locked_def)
  then obtain d1 where d1: "sys_run ext bus ops ?s2 (replicate (Suc LEN) (Config_Save Pool_A))
      (?s2\<lparr>dev := (dev s)\<lparr>eeprom := Some d1\<rparr>, web_at := (web_at ?s2)(Pool_A := Config_Writing a LEN)\<rparr>)" "idle d1"
      "window (cells d1) CONFIG_BASE LEN = to_bytes a"
    using run [of ?s2 Pool_A a d LEN ext ops] assms(2,3) torn_all(1) [of _ "to_bytes a"] by auto
  let ?s3 = "?s2\<lparr>dev := (dev s)\<lparr>eeprom := Some d1\<rparr>, web_at := (web_at ?s2)(Pool_A := Config_Writing a LEN)\<rparr>"
  let ?s4 = "?s3\<lparr>web_at := (web_at ?s3)(Pool_A := Resetting), pending := a\<rparr>"
  have "sys_step ext bus ops ?s3 (Config_Save Pool_A) ?s4" by (rule Save_Done) simp
  moreover have "\<not> eeprom_locked ?s4" using assms(4,5) by (auto simp: eeprom_locked_def)
  then obtain d2 where d2: "sys_run ext bus ops ?s4 (replicate (Suc k) (Config_Save Pool_B))
      (?s4\<lparr>dev := (dev ?s4)\<lparr>eeprom := Some d2\<rparr>, web_at := (web_at ?s4)(Pool_B := Config_Writing b k)\<rparr>)" "idle d2"
      "window (cells d2) CONFIG_BASE LEN = torn (to_bytes b) k (to_bytes a)"
    using run [of ?s4 Pool_B b d1 k ext ops] d1(2,3) assms(10) by auto
  let ?s5 = "?s4\<lparr>dev := (dev ?s4)\<lparr>eeprom := Some d2\<rparr>, web_at := (web_at ?s4)(Pool_B := Config_Writing b k)\<rparr>"
  obtain s' :: "('d, 'c) system" where st: "started ext bus d2 (marker (dev ?s5)) s'" and run': "running s' = booting ext (cells d2)"
    using restart_exists [OF assms(1) d2(2), of ext "marker (dev ?s5)"] by blast
  then have "sys_step ext bus ops ?s5 (Config_Save Pool_A) s'"
    using Web_Reset [of ?s5 Pool_A d2 ext bus s' ops] by simp
  ultimately have "sys_run ext bus ops s (Request Pool_A n1 r1 [] # Request Pool_B n2 r2 [] #
      replicate (Suc LEN) (Config_Save Pool_A) @ [Config_Save Pool_A] @ replicate (Suc k) (Config_Save Pool_B) @ [Config_Save Pool_A]) s'"
    using d1(1) d2(1) by (blast intro: run_Cons run_append run_one)
  moreover have "running s' = (case from_bytes ext (torn (to_bytes b) k (to_bytes a)) of None \<Rightarrow> default_config ext | Some c \<Rightarrow> c)"
    unfolding run' by (simp add: booting_def d2(3))
  ultimately show ?thesis by (intro exI conjI) auto
qed

theorem concurrent_saves_mix_witness:
  "\<exists>(s0 :: logged_system) ls s. started bounded_append sim_bus blank_chip 0 s0 \<and>
    sys_run bounded_append sim_bus log_client s0 ls s \<and>
    running s = (default_config bounded_append)\<lparr>web_pass := str ''x&y''\<rparr> \<and>
    running s \<notin> {default_config bounded_append, sample_saved}"
proof -
  let ?cfg = "default_config bounded_append"
  obtain s0 :: logged_system where s0: "started bounded_append sim_bus blank_chip 0 s0" "running s0 = ?cfg"
    using restart_exists [OF sim_responsive blank_chip_facts(1), of bounded_append 0] blank_chip_facts(2) by auto
  obtain d where d: "eeprom (dev s0) = Some d" "sim_idle d"
    using ee.started_inv [OF bounded_capacity s0(1) blank_chip_facts(1)] by (auto simp: sys_inv_def)
  have idle: "web_at s0 = (\<lambda>_. Accepting)" "\<not> eeprom_locked s0" using s0(1) by (auto simp: started_def eeprom_locked_def)
  have none: "web_user ?cfg = []" "web_pass ?cfg = []" by (simp_all add: default_config_def)
  have "submits bounded_append (pools s0 Pool_A) (reading_of s0) (Some save_request) (web_session s0) = Some (web_session s0, sample_saved)"
    "submits bounded_append (pools s0 Pool_B) (reading_of s0) (Some plain_save) (web_session s0) = Some (web_session s0, ?cfg)"
    using s0 open_submits [OF save_request_facts sample_form_parses none] open_submits [OF plain_save_facts none]
    by (auto simp: started_def) metis+
  moreover have "from_bytes bounded_append (torn (to_bytes ?cfg) 40 (to_bytes sample_saved)) = Some (?cfg\<lparr>web_pass := str ''x&y''\<rparr>)"
    by code_simp
  ultimately obtain ls s where "sys_run bounded_append sim_bus log_client s0 ls s" "running s = ?cfg\<lparr>web_pass := str ''x&y''\<rparr>"
    using concurrent_saves_mix [OF sim_responsive d idle reads_reading _ reads_reading, of bounded_append "Some save_request"
        "web_session s0" sample_saved "Some plain_save" "web_session s0" ?cfg 40 log_client]
    by (auto simp: LEN_def)
  moreover have "?cfg\<lparr>web_pass := str ''x&y''\<rparr> \<notin> {?cfg, sample_saved}"
    by (auto simp: sample_saved_def default_config_def DEFAULT_PREFIX_def)
  ultimately show ?thesis using s0(1) by metis
qed

text \<open>
  C11: on a device that has saved before, so that its record has the magic bytes, a power cut in an
  LED save loses at most what was being written. Cut between two bytes, after whichever of the
  eight, the restart shows each LED as it was stored or as it was asked for, the first LED's change
  before the second's, and before the sixth byte nothing has changed. Cut inside the write cycle
  of byte \<open>i\<close>, after which that one cell may hold anything: in a magic byte, the restart shows the
  stored LEDs if the cell still has its value and two dark LEDs otherwise; in the byte of an LED,
  what the cell says, which may be wrong for this one LED only; in any other byte, what the cut
  before it would have left.
\<close>

theorem power_cut_keeps_leds:
  fixes s :: "('d, 'c) system"
  assumes "responsive_at24c02 bus cells idle" and "fixed_capacity ext"
    and "mqtt_at s = Led_Locking x due" and "\<not> eeprom_locked s" and "eeprom (dev s) = Some d" and "idle d"
    and "window (cells d) STATE_BASE 4 = STATE_MAGIC" and "i \<le> 8"
  shows "\<exists>s1 d1. sys_run ext bus ops s (replicate (Suc i) Led_Save) s1 \<and> eeprom (dev s1) = Some d1 \<and>
    (\<exists>s2 :: ('d, 'c) system. started ext bus d1 mk s2) \<and>
    (\<forall>s2 :: ('d, 'c) system. started ext bus d1 mk s2 \<longrightarrow> shown_leds (dev s2) = cut_shows i x (stored_state (cells d))) \<and>
    (i < 8 \<longrightarrow> (\<forall>d2 (s2 :: ('d, 'c) system).
      idle d2 \<and> (\<forall>a. a \<noteq> STATE_BASE + of_nat i \<longrightarrow> cells d2 a = cells d1 a) \<and> started ext bus d2 mk s2 \<longrightarrow>
      shown_leds (dev s2) = mid_cut_shows i x (stored_state (cells d)) (cells d2 (STATE_BASE + of_nat i))))"
proof -
  let ?b = "window (cells d) STATE_BASE 8"
  have "take 4 ?b = STATE_MAGIC" using assms(7) by (simp add: window_def take_map)
  note cut = cut_state [OF length_window this, folded stored_state_def]
  obtain s1 d1 where c: "sys_run ext bus ops s (replicate (Suc i) Led_Save) s1" "eeprom (dev s1) = Some d1" "idle d1"
    "\<forall>mk (s2 :: ('d, 'c) system). started ext bus d1 mk s2 \<longrightarrow> shown_leds (dev s2) = state_of_image (Some (torn (image_of_state x) i ?b))"
    "i < 8 \<longrightarrow> (\<forall>d2 mk (s2 :: ('d, 'c) system). idle d2 \<longrightarrow> (\<forall>a. a \<noteq> STATE_BASE + of_nat i \<longrightarrow> cells d2 a = cells d1 a) \<longrightarrow>
      started ext bus d2 mk s2 \<longrightarrow>
      shown_leds (dev s2) = state_of_image (Some ((torn (image_of_state x) i ?b)[i := cells d2 (STATE_BASE + of_nat i)])))"
    using responsive_at24c02.cut_led_save [OF assms(1,3-6,8,2), of ops] by (elim exE conjE)
  obtain s2 :: "('d, 'c) system" where s2: "started ext bus d1 mk s2"
    using restart_exists [OF assms(1) c(3), of ext mk] by blast
  show ?thesis
  proof (rule exI [of _ s1], rule exI [of _ d1], intro conjI allI impI c(1,2))
    show "\<exists>s2 :: ('d, 'c) system. started ext bus d1 mk s2" using s2 by (rule exI)
    show "shown_leds (dev s2) = cut_shows i x (stored_state (cells d))"
      if "started ext bus d1 mk s2" for s2 :: "('d, 'c) system"
      using c(4) that by (simp add: cut(1) [OF assms(8)])
    show "shown_leds (dev s2) = mid_cut_shows i x (stored_state (cells d)) (cells d2 (STATE_BASE + of_nat i))"
      if "i < 8" and "idle d2 \<and> (\<forall>a. a \<noteq> STATE_BASE + of_nat i \<longrightarrow> cells d2 a = cells d1 a) \<and> started ext bus d2 mk s2"
      for d2 and s2 :: "('d, 'c) system"
      using c(5) that unfolding cut(2) [OF that(1)] by blast
  qed
qed

theorem power_cut_keeps_leds_witness:
  "\<exists>(s :: logged_system) s1 d1 s2 s3. mqtt_at s = Led_Locking \<lparr>led1 = True, led2 = True\<rparr> 10000 \<and>
    sys_run bounded_append sim_bus log_client s (replicate 7 Led_Save) s1 \<and> eeprom (dev s1) = Some d1 \<and>
    started bounded_append sim_bus d1 0 (s2 :: logged_system) \<and> shown_leds (dev s2) = \<lparr>led1 = True, led2 = False\<rparr> \<and>
    started bounded_append sim_bus \<lparr>sim_cells = (sim_cells d1)(STATE_BASE + 6 := 0x7F), sim_busy = 0, sim_faults = []\<rparr> 0 (s3 :: logged_system) \<and>
    shown_leds (dev s3) = \<lparr>led1 = True, led2 = True\<rparr>"
proof -
  let ?x = "\<lparr>led1 = True, led2 = True\<rparr>"
  obtain s d where s: "mqtt_at (s :: logged_system) = Led_Locking ?x 10000" "\<not> eeprom_locked s" "eeprom (dev s) = Some d"
    "sim_idle d" "sim_cells d = sim_cells stored_chip"
    using led_message_pending [OF stored_chip_facts(1) led1_on_message(2), of "\<lambda>s. s\<lparr>led2 := True\<rparr>" ?x]
    by (auto simp: stored_chip_facts(3))
  have magic: "window (sim_cells d) STATE_BASE 4 = STATE_MAGIC" unfolding s(5) by code_simp
  have six: "(6 :: nat) \<le> 8" by simp
  have old: "stored_state (sim_cells d) = \<lparr>led1 = True, led2 = False\<rparr>" unfolding s(5) stored_chip_facts(3) by simp
  obtain s1 d1 and s2 :: logged_system where c: "sys_run bounded_append sim_bus log_client s (replicate (Suc 6) Led_Save) s1" "eeprom (dev s1) = Some d1"
    "started bounded_append sim_bus d1 0 s2"
    "\<forall>s2 :: logged_system. started bounded_append sim_bus d1 0 s2 \<longrightarrow>
      shown_leds (dev s2) = cut_shows 6 ?x (stored_state (sim_cells d))"
    "(6 :: nat) < 8 \<longrightarrow> (\<forall>d2 (s2 :: logged_system).
      sim_idle d2 \<and> (\<forall>a. a \<noteq> STATE_BASE + of_nat 6 \<longrightarrow> sim_cells d2 a = sim_cells d1 a) \<and> started bounded_append sim_bus d2 0 s2 \<longrightarrow>
      shown_leds (dev s2) = mid_cut_shows 6 ?x (stored_state (sim_cells d)) (sim_cells d2 (STATE_BASE + of_nat 6)))"
    using power_cut_keeps_leds [OF sim_responsive bounded_capacity s(1-4) magic six, of log_client 0] by (elim exE conjE)
  let ?d2 = "\<lparr>sim_cells = (sim_cells d1)(STATE_BASE + 6 := 0x7F), sim_busy = 0, sim_faults = []\<rparr>"
  have idle: "sim_idle ?d2" by (simp add: sim_idle_def)
  obtain s3 :: logged_system where s3: "started bounded_append sim_bus ?d2 0 s3"
    using restart_exists [OF sim_responsive idle, of bounded_append 0] by blast
  have "shown_leds (dev s3) = mid_cut_shows 6 ?x (stored_state (sim_cells d)) (sim_cells ?d2 (STATE_BASE + of_nat 6))"
    using c(5) [THEN mp, THEN spec, THEN spec, THEN mp, of ?d2 s3] idle s3 by simp
  then have torn: "shown_leds (dev s3) = ?x" unfolding old by (simp add: cut_shows_def mid_cut_shows_def)
  have "shown_leds (dev s2) = cut_shows 6 ?x (stored_state (sim_cells d))" using c(3,4) by blast
  then have clean: "shown_leds (dev s2) = \<lparr>led1 = True, led2 = False\<rparr>" unfolding old by (simp add: cut_shows_def)
  have "sys_run bounded_append sim_bus log_client s (replicate 7 Led_Save) s1" using c(1) by (simp del: replicate_Suc)
  with s(1) c(2,3) clean s3 torn show ?thesis by blast
qed

text \<open>
  C12: on a chip that has never held LED states a power cut during the first save turns LEDs on that
  nobody switched on: once the four magic bytes are written the erased cells behind them count as
  two lit LEDs, whatever the message had asked for.
\<close>

theorem first_save_cut_lights_leds:
  fixes s :: "('d, 'c) system"
  assumes "responsive_at24c02 bus cells idle" and "fixed_capacity ext"
    and "mqtt_at s = Led_Locking x due" and "\<not> eeprom_locked s" and "eeprom (dev s) = Some d" and "idle d"
    and "window (cells d) STATE_BASE 8 = replicate 8 0xFF" and "i \<in> {4, 5}"
  shows "stored_state (cells d) = default_output \<and>
    (\<exists>s1 d1. sys_run ext bus ops s (replicate (Suc i) Led_Save) s1 \<and> eeprom (dev s1) = Some d1 \<and>
      (\<exists>s2 :: ('d, 'c) system. started ext bus d1 mk s2) \<and>
      (\<forall>s2 :: ('d, 'c) system. started ext bus d1 mk s2 \<longrightarrow> shown_leds (dev s2) = \<lparr>led1 = True, led2 = True\<rparr>))"
proof -
  let ?b = "window (cells d) STATE_BASE 8"
  have "i \<le> 8" using assms(8) by auto
  have on: "state_of_image (Some (torn (image_of_state x) i ?b)) = \<lparr>led1 = True, led2 = True\<rparr>"
    using assms(7,8) by (subst torn_state) (auto simp: STATE_MAGIC_def eval_nat_numeral)
  have off: "stored_state (cells d) = default_output"
    using assms(7) by (simp add: stored_state_def state_of_image_def sub_slice_def STATE_MAGIC_def eval_nat_numeral)
  obtain s1 d1 where c: "sys_run ext bus ops s (replicate (Suc i) Led_Save) s1" "eeprom (dev s1) = Some d1" "idle d1"
    "\<forall>mk (s2 :: ('d, 'c) system). started ext bus d1 mk s2 \<longrightarrow> shown_leds (dev s2) = \<lparr>led1 = True, led2 = True\<rparr>"
    using responsive_at24c02.cut_led_save [OF assms(1,3-6) \<open>i \<le> 8\<close> assms(2)] unfolding on by blast
  with off restart_exists [OF assms(1) c(3), of ext mk] show ?thesis by blast
qed

theorem first_save_cut_lights_leds_witness:
  "\<exists>(s :: logged_system) s1 d1 s2. mqtt_at s = Led_Locking \<lparr>led1 = True, led2 = False\<rparr> 10000 \<and>
    sys_run bounded_append sim_bus log_client s (replicate 5 Led_Save) s1 \<and>
    eeprom (dev s1) = Some d1 \<and> started bounded_append sim_bus d1 0 (s2 :: logged_system) \<and>
    shown_leds (dev s2) = \<lparr>led1 = True, led2 = True\<rparr>"
proof -
  let ?x = "\<lparr>led1 = True, led2 = False\<rparr>"
  obtain s d where s: "mqtt_at (s :: logged_system) = Led_Locking ?x 10000" "\<not> eeprom_locked s" "eeprom (dev s) = Some d"
    "sim_idle d" "sim_cells d = sim_cells blank_chip"
    using led_message_pending [OF blank_chip_facts(1) led1_on_message(1), of "\<lambda>s. s\<lparr>led1 := True\<rparr>" ?x]
    by (auto simp: blank_chip_facts default_output_def)
  have "window (sim_cells d) STATE_BASE 8 = replicate 8 0xFF" unfolding s(5) by code_simp
  from first_save_cut_lights_leds [OF sim_responsive bounded_capacity s(1-4) this, of 4 log_client 0]
  obtain s1 d1 where c: "sys_run bounded_append sim_bus log_client s (replicate 5 Led_Save) s1" "eeprom (dev s1) = Some d1"
    "\<exists>s2 :: logged_system. started bounded_append sim_bus d1 0 s2"
    "\<forall>s2 :: logged_system. started bounded_append sim_bus d1 0 s2 \<longrightarrow> shown_leds (dev s2) = \<lparr>led1 = True, led2 = True\<rparr>"
    by (auto simp: eval_nat_numeral)
  with s(1) show ?thesis by metis
qed

end
