(* ===== verification/Rust_Str_Valid.thy ===== *)
theory Rust_Str_Valid
  imports Rust_Str
begin

text \<open>
  The type \<open>str\<close> as an invariant: every \<open>str\<close> method of \<open>Rust_Str\<close> takes valid UTF-8 to valid UTF-8.
  Rust's compiler and library guarantee this; here it is a theorem about the byte strings that
  stand for them, so that a model that cut a character in two would be found out.
\<close>

section \<open>Characters\<close>

text \<open>The first character of a valid string can be followed by any valid string, and by no other.\<close>

lemma utf8_char:
  assumes v: "utf8_valid (b # bs)"
  shows "\<exists>cs r. bs = cs @ r \<and> (\<forall>c\<in>set cs. is_cont c) \<and> utf8_valid r \<and>
    (\<forall>r'. utf8_valid (b # cs @ r') \<longleftrightarrow> utf8_valid r')"
proof (cases "b < 0x80")
  case True
  with v show ?thesis by (intro exI [of _ "[]"] exI [of _ bs]) (simp add: utf8_valid.simps(2))
next
  case ge: False
  consider (two) "0xC2 \<le> b" "b \<le> 0xDF" | (three) "0xE0 \<le> b" "b \<le> 0xEF" "\<not> (0xC2 \<le> b \<and> b \<le> 0xDF)"
    | (four) "0xF0 \<le> b" "b \<le> 0xF4" "\<not> (0xC2 \<le> b \<and> b \<le> 0xDF)" "\<not> (0xE0 \<le> b \<and> b \<le> 0xEF)"
    using v ge by (auto simp: utf8_valid.simps(2) split: if_splits)
  then show ?thesis
  proof cases
    case two
    with v ge obtain c r where "bs = [c] @ r" "is_cont c" "utf8_valid r"
      by (cases bs) (auto simp: utf8_valid.simps(2))
    with two ge show ?thesis
      by (intro exI [of _ "[c]"] exI [of _ r]) (simp add: utf8_valid.simps(2))
  next
    case three
    with v ge obtain c d r where r: "bs = [c, d] @ r" "is_cont c" "is_cont d" "utf8_valid r"
      "(b = 0xE0 \<longrightarrow> 0xA0 \<le> c) \<and> (b = 0xED \<longrightarrow> c \<le> 0x9F)"
      by (simp add: utf8_valid.simps(2) split: list.splits)
    have "utf8_valid (b # [c, d] @ r') \<longleftrightarrow> utf8_valid r'" for r'
      using three ge r(2,3,5) by (subst utf8_valid.simps(2)) auto
    with r show ?thesis by (intro exI [of _ "[c, d]"] exI [of _ r]) simp
  next
    case four
    with v ge obtain c d e r where r: "bs = [c, d, e] @ r" "is_cont c" "is_cont d" "is_cont e" "utf8_valid r"
      "(b = 0xF0 \<longrightarrow> 0x90 \<le> c) \<and> (b = 0xF4 \<longrightarrow> c \<le> 0x8F)"
      by (simp add: utf8_valid.simps(2) split: list.splits)
    have "utf8_valid (b # [c, d, e] @ r') \<longleftrightarrow> utf8_valid r'" for r'
      using four ge r(2-4,6) by (subst utf8_valid.simps(2)) auto
    with r show ?thesis by (intro exI [of _ "[c, d, e]"] exI [of _ r]) simp
  qed
qed

lemma utf8_append: "utf8_valid s \<Longrightarrow> utf8_valid (s @ t) \<longleftrightarrow> utf8_valid t"
proof (induction "length s" arbitrary: s rule: less_induct)
  case less
  show ?case
  proof (cases s)
    case (Cons b bs)
    obtain cs r where r: "bs = cs @ r" "utf8_valid r" "\<And>r'. utf8_valid (b # cs @ r') \<longleftrightarrow> utf8_valid r'"
      using utf8_char [of b bs] less.prems Cons by blast
    have "utf8_valid (r @ t) = utf8_valid t" using less.hyps [of r] r(1,2) Cons by simp
    with r(1) r(3) [of "r @ t"] Cons show ?thesis by simp
  qed simp
qed

text \<open>Cutting a valid string before a byte that continues no character leaves two valid strings.\<close>

lemma utf8_cut:
  assumes "utf8_valid (s @ t)" and "t = [] \<or> \<not> is_cont (hd t)"
  shows "utf8_valid s \<and> utf8_valid t"
  using assms(1)
proof (induction "length s" arbitrary: s rule: less_induct)
  case less
  show ?case
  proof (cases s)
    case (Cons b bs)
    obtain cs r where r: "bs @ t = cs @ r" "\<forall>c\<in>set cs. is_cont c" "utf8_valid r"
      "\<And>r'. utf8_valid (b # cs @ r') \<longleftrightarrow> utf8_valid r'"
      using utf8_char [of b "bs @ t"] less.prems Cons by auto
    have "length cs \<le> length bs"
    proof (rule ccontr)
      assume "\<not> ?thesis"
      with r(1) obtain x xs where "cs = bs @ x # xs" "t = x # xs @ r"
        by (auto simp: append_eq_append_conv2 neq_Nil_conv)
      with r(2) assms(2) show False by simp
    qed
    with r(1) obtain u where u: "bs = cs @ u" "r = u @ t" by (auto simp: append_eq_append_conv2)
    with less.hyps [of u] r(3) Cons have "utf8_valid u \<and> utf8_valid t" by simp
    with u r(4) Cons show ?thesis by simp
  qed (use less.prems in simp)
qed

lemma utf8_cut_ascii:
  assumes "utf8_valid (s @ c # t)" and "c < 0x80"
  shows "utf8_valid s" and "utf8_valid t" and "utf8_valid (s @ [c])"
proof -
  from utf8_cut [OF assms(1)] is_cont_ascii [OF assms(2)] have s: "utf8_valid s" "utf8_valid (c # t)" by auto
  moreover have c: "utf8_valid [c]" using assms(2) by (simp add: ascii_valid)
  ultimately show "utf8_valid s" "utf8_valid t" "utf8_valid (s @ [c])"
    using utf8_append [OF c, of t] utf8_append [OF s(1), of "[c]"] by simp_all
qed

lemma utf8_concat: "\<forall>c\<in>set cs. utf8_valid c \<Longrightarrow> utf8_valid (concat cs)"
  by (induction cs) (auto simp: utf8_append)

lemma chars_valid: "utf8_valid s \<Longrightarrow> \<forall>c\<in>set (chars s). utf8_valid c"
proof (induction s rule: chars.induct)
  case (2 b bs)
  have "dropWhile is_cont bs = [] \<or> \<not> is_cont (hd (dropWhile is_cont bs))"
    using hd_dropWhile by blast
  then have "utf8_valid (b # takeWhile is_cont bs)" "utf8_valid (dropWhile is_cont bs)"
    using utf8_cut [of "b # takeWhile is_cont bs" "dropWhile is_cont bs"] 2 by auto
  with 2 show ?case by simp
qed simp

section \<open>The methods\<close>

lemma trim_valid:
  assumes "utf8_valid s"
  shows "utf8_valid (trim_start s)" and "utf8_valid (trim_end s)" and "utf8_valid (trim s)"
proof -
  have "utf8_valid (trim_start s) \<and> utf8_valid (trim_end s)" if "utf8_valid s" for s
    using chars_valid [OF that] by (auto simp: trim_start_def trim_end_def intro!: utf8_concat dest!: set_dropWhileD)
  with assms show "utf8_valid (trim_start s)" "utf8_valid (trim_end s)" "utf8_valid (trim s)"
    by (auto simp: trim_def)
qed

lemma join_split_on: "join c (split_on c s) = s"
proof (induction s)
  case (Cons b bs)
  obtain p ps where "split_on c bs = p # ps" by (meson neq_Nil_conv split_on_not_Nil)
  with Cons show ?case by (cases ps) auto
qed simp

lemma join_valid: "utf8_valid (join c ps) \<Longrightarrow> c < 0x80 \<Longrightarrow> \<forall>p\<in>set ps. utf8_valid p"
  by (induction c ps rule: join.induct) (auto dest: utf8_cut_ascii)

lemma split_on_valid: "utf8_valid s \<Longrightarrow> c < 0x80 \<Longrightarrow> \<forall>p\<in>set (split_on c s). utf8_valid p"
  using join_valid [of c "split_on c s"] by (simp add: join_split_on)

lemma split_once_eq: "split_once c s = Some (k, v) \<Longrightarrow> s = k @ c # v \<and> c \<notin> set k"
proof -
  assume "split_once c s = Some (k, v)"
  then have "c \<in> set s" "k = takeWhile (\<lambda>b. b \<noteq> c) s" "v = tl (dropWhile (\<lambda>b. b \<noteq> c) s)"
    by (auto simp: split_once_def split: if_splits)
  moreover have "dropWhile (\<lambda>b. b \<noteq> c) s \<noteq> []" "hd (dropWhile (\<lambda>b. b \<noteq> c) s) = c"
    using \<open>c \<in> set s\<close> hd_dropWhile [of "\<lambda>b. b \<noteq> c" s] by (auto simp: dropWhile_eq_Nil_conv)
  moreover have "c \<notin> set (takeWhile (\<lambda>b. b \<noteq> c) s)" by (auto dest: set_takeWhileD)
  ultimately show ?thesis by (metis list.collapse takeWhile_dropWhile_id)
qed

lemma split_once_valid:
  "utf8_valid s \<Longrightarrow> c < 0x80 \<Longrightarrow> split_once c s = Some (k, v) \<Longrightarrow> utf8_valid k \<and> utf8_valid v"
  using split_once_eq utf8_cut_ascii by metis

lemma split_kv_valid: "utf8_valid s \<Longrightarrow> c < 0x80 \<Longrightarrow> utf8_valid (split_key c s) \<and> utf8_valid (split_value c s)"
  by (auto simp: split_key_def split_value_def dest: split_once_valid split: option.split)

lemma split_inclusive_valid: "utf8_valid s \<Longrightarrow> c < 0x80 \<Longrightarrow> \<forall>p\<in>set (split_inclusive c s). utf8_valid p"
proof (induction "length s" arbitrary: s rule: less_induct)
  case less
  show ?case
  proof (cases "split_once c s")
    case None
    then have "c \<notin> set s" by (simp add: split_once_def split: if_splits)
    then have "split_inclusive c s = (if s = [] then [] else [s])" by (induction s) auto
    with less.prems show ?thesis by simp
  next
    case (Some kv)
    obtain k v where s: "s = k @ c # v" and k: "c \<notin> set k"
      using Some split_once_eq [of c s] by (cases kv) blast
    have "split_inclusive c s = (k @ [c]) # split_inclusive c v"
      unfolding s using k by (induction k) auto
    moreover have "utf8_valid v" "utf8_valid (k @ [c])"
      using utf8_cut_ascii [OF less.prems(1) [unfolded s] less.prems(2)] by auto
    moreover have "length v < length s" by (simp add: s)
    ultimately show ?thesis using less.hyps [OF _ _ less.prems(2)] by simp
  qed
qed

lemma strip_suffix1_valid: "utf8_valid s \<Longrightarrow> c < 0x80 \<Longrightarrow> strip_suffix1 c s = Some t \<Longrightarrow> utf8_valid t"
  using utf8_cut_ascii(1) [of "butlast s" "last s" "[]"] by (auto simp: strip_suffix1_def split: if_splits)

lemma strip_line_end_valid: "utf8_valid l \<Longrightarrow> utf8_valid (strip_line_end l)"
proof (cases "strip_suffix1 10 l")
  case (Some l')
  assume "utf8_valid l"
  then have "utf8_valid l'" using strip_suffix1_valid [OF _ _ Some] by simp
  then show ?thesis using strip_suffix1_valid [of l' 13] by (cases "strip_suffix1 13 l'") (simp_all add: strip_line_end_def Some)
qed (simp add: strip_line_end_def)

lemma lines_valid: "utf8_valid s \<Longrightarrow> \<forall>l\<in>set (lines s). utf8_valid l"
  using split_inclusive_valid [of s 10] by (auto simp: lines_def strip_line_end_valid)

lemma split_ws_chars_valid: "\<forall>c\<in>set cs. utf8_valid c \<Longrightarrow> \<forall>p\<in>set (split_ws_chars cs). utf8_valid p"
  by (induction cs) (auto simp: utf8_append split: list.splits)

lemma split_whitespace_valid: "utf8_valid s \<Longrightarrow> \<forall>p\<in>set (split_whitespace s). utf8_valid p"
  using split_ws_chars_valid [OF chars_valid] by (auto simp: split_whitespace_def)

lemma strip_prefix_split: "strip_prefix p s = Some r \<longleftrightarrow> s = p @ r"
  by (induction p s rule: strip_prefix.induct) auto

lemma strip_prefix_valid: "utf8_valid s \<Longrightarrow> utf8_valid p \<Longrightarrow> strip_prefix p s = Some r \<Longrightarrow> utf8_valid r"
  by (auto simp: strip_prefix_split utf8_append)

lemma find_sub_at: "find_sub p s = Some n \<Longrightarrow> \<exists>u v. s = u @ p @ v \<and> length u = n"
proof (induction s arbitrary: n)
  case (Cons b bs)
  show ?case
  proof (cases "strip_prefix p (b # bs)")
    case None
    with Cons.prems obtain m where "find_sub p bs = Some m" "n = Suc m" by auto
    with Cons.IH obtain u v where "b # bs = (b # u) @ p @ v" "length (b # u) = n" by fastforce
    then show ?thesis by blast
  next
    case (Some r)
    then have "b # bs = p @ r" by (simp add: strip_prefix_split)
    moreover have "n = 0" using Some Cons.prems by simp
    ultimately show ?thesis by (intro exI [of _ "[]"] exI [of _ r]) simp
  qed
qed (auto split: if_splits)

text \<open>A slice at a boundary.\<close>

lemma boundary_valid:
  assumes "utf8_valid s" and "is_char_boundary s n"
  shows "utf8_valid (take n s) \<and> utf8_valid (drop n s)"
proof -
  have "drop n s = [] \<or> \<not> is_cont (hd (drop n s))"
    using assms(2) utf8_valid_not_cont [OF assms(1)]
    by (cases "n = 0") (auto simp: is_char_boundary_def hd_drop_conv_nth)
  with utf8_cut [of "take n s" "drop n s"] assms(1) show ?thesis by simp
qed

text \<open>The end of an ASCII string found inside a valid string is a boundary.\<close>

lemma find_sub_boundary:
  assumes "utf8_valid s" and "find_sub p s = Some n" and "ascii p" and "p \<noteq> []"
  shows "n + length p \<le> length s \<and> is_char_boundary s (n + length p)"
proof -
  obtain u v where s: "s = u @ p @ v" "length u = n" using find_sub_at [OF assms(2)] by blast
  have "p = butlast p @ [last p]" "last p < 0x80" using assms(3,4) by (simp_all add: ascii_def)
  then have "utf8_valid v" using utf8_cut_ascii(2) [of "u @ butlast p" "last p" v] assms(1) s(1) by (metis append.assoc append_Cons append_Nil)
  then have "v \<noteq> [] \<longrightarrow> \<not> is_cont (hd v)" using utf8_valid_not_cont by blast
  with s show ?thesis by (auto simp: is_char_boundary_def nth_append hd_conv_nth neq_Nil_conv)
qed

end
