(* ===== verification/Request_Types.thy ===== *)
theory Request_Types
  imports Web_Server Rust_Str_Valid
begin

text \<open>
  The strings \<open>src/web.rs\<close> cuts out of a request: each is a \<open>&str\<close>, so each must be valid UTF-8
  again, and the unchecked slice that takes the body must start at a character boundary.
\<close>

lemma next_or_valid: "utf8_valid d \<Longrightarrow> \<forall>x\<in>set xs. utf8_valid x \<Longrightarrow> utf8_valid (next_or d xs)"
  by (cases xs) auto

lemma parse_request_valid:
  assumes "utf8_valid req"
  shows "utf8_valid (http_method (parse_request req))" "utf8_valid (path (parse_request req))"
    "utf8_valid (query (parse_request req))"
proof -
  let ?parts = "split_whitespace (next_or [] (lines req))"
  let ?target = "next_or (str ''/'') (tl ?parts)"
  have parts: "\<forall>p\<in>set ?parts. utf8_valid p"
    using split_whitespace_valid next_or_valid [OF _ lines_valid [OF assms], of "[]"] by simp
  then have "\<forall>p\<in>set (tl ?parts). utf8_valid p" by (cases ?parts) auto
  moreover have "utf8_valid (str ''/'')" by code_simp
  ultimately have target: "utf8_valid ?target" by (rule next_or_valid [rotated])
  have q: "utf8_valid p \<and> utf8_valid q" if "split_once 63 ?target = Some (p, q)" for p q
    using split_once_valid [OF target _ that] by simp
  show "utf8_valid (http_method (parse_request req))"
    using next_or_valid [OF _ parts, of "[]"] by (simp add: parse_request_def Let_def split: prod.split)
  show "utf8_valid (path (parse_request req))" "utf8_valid (query (parse_request req))"
    using q target by (auto simp: parse_request_def Let_def simp del: str_Cons split: option.split prod.split)
qed

lemma head_end_boundary:
  assumes "utf8_valid req" and "find_sub head_end req = Some start"
  shows "start + 4 \<le> length req" and "is_char_boundary req (start + 4)"
proof -
  have "ascii head_end" "head_end \<noteq> []" "length head_end = 4" by (simp_all add: head_end_def)
  with find_sub_boundary [OF assms] show "start + 4 \<le> length req" "is_char_boundary req (start + 4)" by auto
qed

lemma body_valid: "utf8_valid (raw r) \<Longrightarrow> body r = Some b \<Longrightarrow> utf8_valid b"
  using head_end_boundary boundary_valid by (auto simp: body_def)

lemma find_cookie_valid:
  "\<forall>c\<in>set cs. utf8_valid c \<Longrightarrow> utf8_valid name \<Longrightarrow> find_cookie name cs = Some v \<Longrightarrow> utf8_valid v"
proof (induction cs)
  case (Cons c cs)
  show ?case
  proof (cases "find_cookie name cs = Some v")
    case False
    obtain rest val where "strip_prefix name (trim c) = Some rest" "strip_prefix (str ''='') (trim_start rest) = Some val"
      "v = trim val"
      using Cons.prems(3) False by (auto simp: Let_def simp del: str_Cons split: option.splits)
    moreover have "utf8_valid (str ''='')" by code_simp
    ultimately show ?thesis
      using Cons.prems(1,2) strip_prefix_valid trim_valid by (metis list.set_intros(1))
  qed (use Cons in auto)
qed simp

lemma cookie_loop_valid:
  "\<forall>l\<in>set ls. utf8_valid l \<Longrightarrow> utf8_valid name \<Longrightarrow> cookie_loop name ls = Inr (Some v) \<Longrightarrow> utf8_valid v"
proof (induction ls)
  case (Cons l ls)
  show ?case
  proof (cases "cookie_loop name ls = Inr (Some v)")
    case False
    then have l: "7 \<le> length l" "\<not> splits_char l"
      and v: "find_cookie name (split_on 59 (trim (drop 7 l))) = Some v"
      using Cons.prems(3) slice_prefix [of l]
      by (auto simp: cookie_loop.simps Let_def not_less split: if_splits option.splits sum.splits)
    then have "is_char_boundary l 7" by (auto simp: is_char_boundary_def splits_char_def)
    then have "utf8_valid (trim (drop 7 l))"
      using boundary_valid [of l 7] Cons.prems(1) trim_valid(3) by simp
    then have "\<forall>c\<in>set (split_on 59 (trim (drop 7 l))). utf8_valid c" by (rule split_on_valid) simp
    then show ?thesis by (rule find_cookie_valid [OF _ Cons.prems(2) v])
  qed (use Cons in auto)
qed simp

text \<open>
  C23: everything the server cuts out of a request is a string again: from a request that passed
  \<open>from_utf8\<close>, the method, the path, the query, the body, every key and value of a submitted form and
  the value of any cookie are valid UTF-8, however many multi-byte characters the request holds;
  and the slice that takes the body is inside the request, at a character boundary, so it cannot
  panic.
\<close>

theorem request_parts_are_strings:
  assumes "utf8_valid req"
  shows "utf8_valid (http_method (parse_request req)) \<and> utf8_valid (path (parse_request req)) \<and>
    utf8_valid (query (parse_request req)) \<and>
    (\<forall>b. body (parse_request req) = Some b \<longrightarrow> utf8_valid b \<and>
      (\<forall>pair\<in>set (split_on 38 b). utf8_valid (trim (split_key 61 pair)) \<and> utf8_valid (trim (split_value 61 pair)))) \<and>
    (\<forall>start. find_sub head_end req = Some start \<longrightarrow> start + 4 \<le> length req \<and> is_char_boundary req (start + 4)) \<and>
    (\<forall>name v. utf8_valid name \<and> extract_cookie req name = Inr (Some v) \<longrightarrow> utf8_valid v)"
proof -
  have "utf8_valid (trim (split_key 61 pair)) \<and> utf8_valid (trim (split_value 61 pair))"
    if "utf8_valid b" and "pair \<in> set (split_on 38 b)" for b pair
    using that split_on_valid [of b 38] split_kv_valid [of pair 61] trim_valid(3) by simp
  moreover have "utf8_valid b" if "body (parse_request req) = Some b" for b
    using body_valid [OF _ that] assms by simp
  ultimately show ?thesis
    using parse_request_valid [OF assms] head_end_boundary [OF assms] cookie_loop_valid [OF lines_valid [OF assms]]
    by (auto simp: extract_cookie_def)
qed

text \<open>A form with a two-byte character in it.\<close>

definition accented_form :: bytes where
  "accented_form = request_head [request_line (str ''POST'') (str ''/save'')] @ str ''id='' @ [0xC3, 0xA9]"

theorem request_parts_are_strings_witness:
  "body (parse_request accented_form) = Some (str ''id='' @ [0xC3, 0xA9]) \<and> utf8_valid (str ''id='' @ [0xC3, 0xA9])"
proof -
  have "utf8_valid accented_form" by code_simp
  moreover have "body (parse_request accented_form) = Some (str ''id='' @ [0xC3, 0xA9])"
    by (rule body_request [of "[request_line (str ''POST'') (str ''/save'')]"])
      (simp_all add: accented_form_def request_line_def)
  ultimately show ?thesis using request_parts_are_strings [of accented_form] by blast
qed

end
