(* ===== verification/Startup.thy ===== *)
theory Startup
  imports System "HOL-Library.Multiset"
begin

text \<open>
  \<open>main\<close> of \<open>src/main.rs\<close> from reset to the last spawned task, and the beginnings of the tasks of
  \<open>src/mqtt.rs\<close> and \<open>src/web.rs\<close> up to their loops: the clock tree, the two register writes, the order
  in which tasks start, and the static cells they take their buffers from. \<open>Boot\<close> has what is
  decided in between. \<open>embassy_net\<close>'s address constructor is a parameter, since it can panic.
\<close>

section \<open>Clocks\<close>

datatype sysclk = PLL1_P
datatype pll_source = HSE
datatype hse_mode = Oscillator

record rcc_config =
  hse :: nat
  mode :: hse_mode
  pll_src :: pll_source
  prediv :: nat
  mul :: nat
  divp :: "nat option"
  divq :: "nat option"
  divr :: "nat option"
  ahb_pre :: nat
  apb1_pre :: nat
  apb2_pre :: nat
  sys :: sysclk

definition rcc_cfg :: rcc_config where
  "rcc_cfg = \<lparr>hse = 25000000, mode = Oscillator, pll_src = HSE, prediv = 25, mul = 336, divp = Some 2, divq = Some 7, divr = None,
     ahb_pre = 1, apb1_pre = 4, apb2_pre = 2, sys = PLL1_P\<rparr>"

text \<open>The frequencies of the chip's clock tree, in Hertz; a timer behind a divided bus runs at twice its clock.\<close>

definition vco :: "rcc_config \<Rightarrow> nat" where "vco c = hse c div prediv c * mul c"
definition sysclk_hz :: "rcc_config \<Rightarrow> nat" where
  "sysclk_hz c = (case sys c of PLL1_P \<Rightarrow> (case divp c of Some p \<Rightarrow> vco c div p | None \<Rightarrow> 0))"
definition timer_hz :: "rcc_config \<Rightarrow> nat \<Rightarrow> nat" where
  "timer_hz c pre = sysclk_hz c div ahb_pre c div pre * (if pre = 1 then 1 else 2)"

text \<open>
  The comments of \<open>main\<close> in numbers: 168 MHz, buses and PLL within the data sheet's limits, a half
  period of the bus recovery of 5 microseconds, and a prescaler of TIM2 that fits 16 bits at a
  tick of 1 MHz and does not at one of 1 kHz.
\<close>

lemma clock_tree:
  "sysclk_hz rcc_cfg = 168000000" "hse rcc_cfg div prediv rcc_cfg = 1000000" "vco rcc_cfg \<le> 432000000"
  "vco rcc_cfg div 7 = 48000000"
  "sysclk_hz rcc_cfg div ahb_pre rcc_cfg div apb1_pre rcc_cfg = 42000000"
  "sysclk_hz rcc_cfg div ahb_pre rcc_cfg div apb2_pre rcc_cfg = 84000000"
  "HALF * 1000000 = 5 * sysclk_hz rcc_cfg"
  "timer_hz rcc_cfg (apb1_pre rcc_cfg) div 1000000 - 1 < 2 ^ 16"
  "timer_hz rcc_cfg (apb1_pre rcc_cfg) div 1000 - 1 \<ge> 2 ^ 16"
  by (simp_all add: rcc_cfg_def vco_def sysclk_hz_def timer_hz_def HALF_def)

section \<open>Static cells and tasks\<close>

text \<open>\<open>StaticCell::init\<close> panics on a cell that was initialised before.\<close>

datatype static_cell = PACKET_QUEUE | STACK_RESOURCES | RX_BUF | TX_BUF | MQTT_BUF
  | Rx pool_id | Tx pool_id | Req pool_id

definition init_cell :: "static_cell \<Rightarrow> static_cell list \<Rightarrow> panic + static_cell list" where
  "init_cell c used = (if c \<in> set used then Inl Failed_Assertion else Inr (c # used))"

fun init_cells :: "static_cell list \<Rightarrow> static_cell list \<Rightarrow> panic + static_cell list" where
  "init_cells [] used = Inr used"
| "init_cells (c # cs) used = and_then (init_cell c used) (init_cells cs)"

text \<open>The buffers of a pool, and their sizes in bytes.\<close>

definition web_pool_buffers :: "pool_id \<Rightarrow> (static_cell \<times> nat) list" where
  "web_pool_buffers q = [(Rx q, 1536), (Tx q, 4096), (Req q, 1536)]"

definition run_web_pool :: "pool_id \<Rightarrow> static_cell list \<Rightarrow> panic + static_cell list" where
  "run_web_pool buffers used = init_cells (map fst (web_pool_buffers buffers)) used"

datatype net_wait = Link_Up | Config_Up

text \<open>What the network tasks wait for, and the cells they then take; the MQTT task's broker address.\<close>

definition web_task :: "static_cell list \<Rightarrow> net_wait list \<times> (panic + static_cell list)" where
  "web_task used = ([Link_Up, Config_Up], run_web_pool Pool_A used)"

definition web_task_b :: "static_cell list \<Rightarrow> net_wait list \<times> (panic + static_cell list)" where
  "web_task_b used = ([Link_Up, Config_Up], run_web_pool Pool_B used)"

definition mqtt_buffers :: "(static_cell \<times> nat) list" where
  "mqtt_buffers = [(RX_BUF, 1536), (TX_BUF, 1536), (MQTT_BUF, 2048)]"

definition mqtt_task :: "static_cell list \<Rightarrow> net_wait list \<times> (panic + static_cell list)" where
  "mqtt_task used = ([Link_Up, Config_Up], init_cells (map fst mqtt_buffers) used)"

definition broker_addr :: "network_config \<Rightarrow> ipv4 \<times> u16" where
  "broker_addr cfg = (broker_ip cfg, broker_port cfg)"

datatype task_fn = Heartbeat_Led_Task | Watchdog_Task | Relay_Task | Net_Task | Mqtt_Task | Web_Task | Web_Task_B

text \<open>
  \<open>spawner.spawn(t(..).unwrap())\<close>: a task function makes one task, a second call answers an error.
  A spawned task runs when \<open>main\<close> awaits, and first takes its cells.
\<close>

definition spawn :: "task_fn \<Rightarrow> task_fn list \<Rightarrow> panic + task_fn list" where
  "spawn t ts = (if t \<in> set ts then Inl Unwrap_Failed else Inr (ts @ [t]))"

fun begin_task :: "task_fn \<Rightarrow> static_cell list \<Rightarrow> panic + static_cell list" where
  "begin_task Mqtt_Task used = snd (mqtt_task used)"
| "begin_task Web_Task used = snd (web_task used)"
| "begin_task Web_Task_B used = snd (web_task_b used)"
| "begin_task _ used = Inr used"

fun begin_tasks :: "task_fn list \<Rightarrow> static_cell list \<Rightarrow> panic + static_cell list" where
  "begin_tasks [] used = Inr used"
| "begin_tasks (t # ts) used = and_then (begin_task t used) (begin_tasks ts)"

text \<open>Every task takes its own cells, so the tasks of any list without repetition can begin in any order.\<close>

fun task_cells :: "task_fn \<Rightarrow> static_cell list" where
  "task_cells Mqtt_Task = [RX_BUF, TX_BUF, MQTT_BUF]"
| "task_cells Web_Task = [Rx Pool_A, Tx Pool_A, Req Pool_A]"
| "task_cells Web_Task_B = [Rx Pool_B, Tx Pool_B, Req Pool_B]"
| "task_cells _ = []"

lemma init_cells_append: "init_cells (xs @ ys) used = and_then (init_cells xs used) (init_cells ys)"
  by (induction xs arbitrary: used) (auto simp: init_cell_def)

lemma begin_task_cells: "begin_task t used = init_cells (task_cells t) used"
  by (cases t) (simp_all add: mqtt_task_def web_task_def web_task_b_def mqtt_buffers_def run_web_pool_def web_pool_buffers_def)

lemma begin_tasks_cells: "begin_tasks ts used = init_cells (concat (map task_cells ts)) used"
proof (induction ts arbitrary: used)
  case (Cons t ts)
  then show ?case by (cases "init_cells (task_cells t) used") (simp_all add: begin_task_cells init_cells_append)
qed simp

lemma init_cells_distinct:
  "distinct cs \<Longrightarrow> set cs \<inter> set used = {} \<Longrightarrow> init_cells cs used = Inr (rev cs @ used)"
  by (induction cs arbitrary: used) (auto simp: init_cell_def)

lemma distinct_concat_mset:
  fixes f :: "'a \<Rightarrow> 'b list"
  assumes "mset ts = mset ts'" and "distinct (concat (map f ts'))"
  shows "distinct (concat (map f ts))" "set (concat (map f ts)) = set (concat (map f ts'))"
proof -
  have "mset (concat (map f ts)) = sum_mset (image_mset (mset \<circ> f) (mset ts))" for ts :: "'a list"
    by (induction ts) auto
  then have "mset (concat (map f ts)) = mset (concat (map f ts'))" using assms(1) by simp
  with assms(2) show "distinct (concat (map f ts))" "set (concat (map f ts)) = set (concat (map f ts'))"
    using mset_eq_imp_distinct_iff mset_eq_setD by blast+
qed

section \<open>The main task\<close>

text \<open>
  The constructor of an address with its prefix length; its documentation allows a panic for
  lengths above 32 only.
\<close>

type_synonym 'n cidr_new = "ipv4 \<Rightarrow> u8 \<Rightarrow> panic + 'n"

locale cidr_contract =
  fixes cidr :: "'n cidr_new"
  assumes cidr_new_ok: "p \<le> 32 \<Longrightarrow> \<exists>n. cidr a p = Inr n"
begin

lemma stored_address: "wf_config c \<Longrightarrow> \<exists>n. cidr (ip c) (prefix_len c) = Inr n"
  by (simp add: wf_config_def cidr_new_ok)

end

record ahb1lpenr =
  ethlpen :: bool
  ethrxlpen :: bool
  ethtxlpen :: bool

record 'n static_config_v4 =
  address :: 'n
  gateway_v4 :: "ipv4 option"
  dns_servers :: "ipv4 list"

datatype 'n boot_event = Clocks rcc_config | Demcr u32 | Ahb1lpenr ahb1lpenr | Await nat | Led3 bool
  | Line gpio | I2c_Khz nat | Pins output_pins | Ethernet bytes | Stack "'n static_config_v4" u64 | Spawned task_fn

definition demcr_trcena :: "u32 \<Rightarrow> u32" where
  "demcr_trcena r = r OR push_bit 24 1"

text \<open>\<open>u64::from_le_bytes\<close>, of the first eight bytes of the identifier.\<close>

fun from_le_bytes :: "bytes \<Rightarrow> u64" where
  "from_le_bytes [] = 0"
| "from_le_bytes (b # bs) = ucast b + 256 * from_le_bytes bs"

definition seed_of :: "bytes \<Rightarrow> u64" where
  "seed_of uid = from_le_bytes (take 8 uid)"

text \<open>
  The events are in the order of the code. \<open>boot\<close> does what the main task decides between the
  recovery of the bus and the relay task; it reads the reset marker too, which no event in between
  depends on. The tasks are spawned with the configuration and the reset reason that are returned.
\<close>

definition main_task ::
  "heapless \<Rightarrow> 'n cidr_new \<Rightarrow> ('d, 'e) i2c_bus \<Rightarrow> 'd \<Rightarrow> u32 \<Rightarrow> csr \<Rightarrow> u32 \<Rightarrow> ahb1lpenr \<Rightarrow> (nat \<Rightarrow> bool) \<Rightarrow> bytes \<Rightarrow>
    panic + ('n boot_event list \<times> task_fn list \<times> static_cell list \<times> reset_reason \<times> network_config \<times> 'd device)" where
  "main_task ext cidr bus chip soft_marker flags demcr lp sda uid =
    and_then (spawn Heartbeat_Led_Task []) (\<lambda>ts.
    and_then (spawn Watchdog_Task ts) (\<lambda>ts.
    and_then (boot ext bus chip soft_marker flags) (\<lambda>(reset_reason, net_cfg, g).
    and_then (spawn Relay_Task ts) (\<lambda>ts.
    and_then (init_cell PACKET_QUEUE []) (\<lambda>used.
    and_then (cidr (ip net_cfg) (prefix_len net_cfg)) (\<lambda>addr.
    and_then (init_cell STACK_RESOURCES used) (\<lambda>used.
    and_then (spawn Net_Task ts) (\<lambda>ts.
    and_then (spawn Mqtt_Task ts) (\<lambda>ts.
    and_then (spawn Web_Task ts) (\<lambda>ts.
    and_then (spawn Web_Task_B ts) (\<lambda>ts.
      Inr ([Clocks rcc_cfg, Demcr (demcr_trcena demcr),
            Ahb1lpenr (lp\<lparr>ethlpen := True, ethrxlpen := True, ethtxlpen := True\<rparr>), Await 100,
            Led3 True, Spawned Heartbeat_Led_Task, Spawned Watchdog_Task]
          @ map Line (i2c_recovery sda)
          @ [I2c_Khz 100, Pins output_pins_at_boot, Spawned Relay_Task, Ethernet (mac_addr uid),
            Stack \<lparr>address = addr, gateway_v4 = Some (gateway net_cfg), dns_servers = []\<rparr> (seed_of uid), Await 3000,
            Spawned Net_Task, Spawned Mqtt_Task, Spawned Web_Task, Spawned Web_Task_B],
          ts, used, reset_reason, net_cfg, g))))))))))))"

text \<open>How long the main task has waited when a task is spawned, and which tasks it spawned in which order.\<close>

fun spawned :: "'n boot_event list \<Rightarrow> task_fn list" where
  "spawned [] = []"
| "spawned (Spawned t # es) = t # spawned es"
| "spawned (_ # es) = spawned es"

fun waited_before :: "task_fn \<Rightarrow> 'n boot_event list \<Rightarrow> nat" where
  "waited_before t [] = 0"
| "waited_before t (Spawned t' # es) = (if t = t' then 0 else waited_before t es)"
| "waited_before t (Await n # es) = n + waited_before t es"
| "waited_before t (_ # es) = waited_before t es"

lemma spawned_append [simp]: "spawned (xs @ ys) = spawned xs @ spawned ys"
  by (induction xs rule: spawned.induct) auto

lemma spawned_lines [simp]: "spawned (map Line gs) = []"
  by (induction gs) auto

lemma waited_append [simp]:
  "waited_before t (xs @ ys) = waited_before t xs + (if t \<in> set (spawned xs) then 0 else waited_before t ys)"
  by (induction xs rule: spawned.induct) auto

lemma waited_lines [simp]: "waited_before t (map Line gs) = 0"
  by (induction gs) auto

lemma tasks_begin:
  assumes "mset ts = mset [Heartbeat_Led_Task, Watchdog_Task, Relay_Task, Net_Task, Mqtt_Task, Web_Task, Web_Task_B]"
  shows "\<exists>used. begin_tasks ts [STACK_RESOURCES, PACKET_QUEUE] = Inr used"
proof -
  let ?all = "[Heartbeat_Led_Task, Watchdog_Task, Relay_Task, Net_Task, Mqtt_Task, Web_Task, Web_Task_B]"
  have d: "distinct (concat (map task_cells ?all))" by simp
  have "set (concat (map task_cells ts)) \<inter> set [STACK_RESOURCES, PACKET_QUEUE] = {}"
    using distinct_concat_mset(2) [OF assms d] by simp
  then show ?thesis
    using init_cells_distinct [OF distinct_concat_mset(1) [OF assms d]] by (simp add: begin_tasks_cells)
qed

text \<open>
  C9: the firmware starts from anything: whatever the EEPROM, the bus, the marker, the reset flags
  and the lines of the bus are, \<open>main\<close> reaches its end without a panic, has spawned each of the
  seven tasks once, the network ones 3.1 s after the clocks are up, with the stored address and a
  gateway in the stack, the relay open and the LEDs shown as cached; and in whatever order the
  executor then begins the tasks, none of them finds a buffer taken. The state it hands over is
  where the runs of \<open>System\<close> start.
\<close>

theorem firmware_starts:
  assumes "fixed_capacity ext" and "cidr_contract cidr"
  shows "\<exists>ev ts used cfg g. main_task ext cidr bus chip mk flags demcr lp sda uid =
      Inr (ev, ts, used, fst (read_and_clear mk flags), cfg, g) \<and> wf_config cfg \<and>
    ready (outputs g) \<and> \<not> get_relay (outputs g) \<and> led_cache g = Some (shown_leds g) \<and>
    started ext bus chip mk (start_system ext g cfg (fst (read_and_clear mk flags)) c) \<and>
    ts = spawned ev \<and> distinct ts \<and> set ts = {t. True} \<and>
    (\<forall>t \<in> {Net_Task, Mqtt_Task, Web_Task, Web_Task_B}. waited_before t ev = 3100) \<and>
    (\<exists>addr. cidr (ip cfg) (prefix_len cfg) = Inr addr \<and>
      Stack \<lparr>address = addr, gateway_v4 = Some (gateway cfg), dns_servers = []\<rparr> (seed_of uid) \<in> set ev) \<and>
    (\<forall>order. mset order = mset ts \<longrightarrow> (\<exists>used'. begin_tasks order used = Inr used'))"
proof -
  obtain cfg g where b: "boot ext bus chip mk flags = Inr (fst (read_and_clear mk flags), cfg, g)"
    and wf: "wf_config cfg" and safe: "ready (outputs g)" "\<not> get_relay (outputs g)" "led_cache g = Some (shown_leds g)"
    using boot_is_safe [OF assms(1), of bus chip mk flags] by blast
  obtain addr where a: "cidr (ip cfg) (prefix_len cfg) = Inr addr"
    using cidr_contract.stored_address [OF assms(2) wf] by blast
  have all: "set [Heartbeat_Led_Task, Watchdog_Task, Relay_Task, Net_Task, Mqtt_Task, Web_Task, Web_Task_B] = {t. True}"
    using task_fn.exhaust by auto
  show ?thesis
    using wf safe a all tasks_begin start_system_started [OF b] by (simp add: main_task_def b spawn_def init_cell_def)
qed

text \<open>An instance of the constructor, which keeps the pair.\<close>

definition ipv4_cidr :: "(ipv4 \<times> u8) cidr_new" where
  "ipv4_cidr a p = (if p \<le> 32 then Inr (a, p) else Inl Failed_Assertion)"

interpretation ci: cidr_contract ipv4_cidr
  by unfold_locales (auto simp: ipv4_cidr_def)

theorem firmware_starts_witness:
  "\<exists>ev ts used cfg g. main_task bounded_append ipv4_cidr sim_bus (blank_chip\<lparr>sim_faults := [True, True]\<rparr>)
      0xBAADF00D power_on_flags 0 \<lparr>ethlpen = False, ethrxlpen = False, ethtxlpen = False\<rparr> (\<lambda>_. False) [1, 2, 3, 4, 5, 6, 7, 8, 9, 10, 11, 12]
      = Inr (ev, ts, used, PowerOn, cfg, g) \<and> distinct ts \<and> set ts = {t. True} \<and>
    (\<exists>used'. begin_tasks (rev ts) used = Inr used')"
proof -
  have "fst (read_and_clear 0xBAADF00D power_on_flags) = PowerOn"
    by (simp add: read_and_clear_def tag_defs power_on_flags_def)
  then obtain ev ts used cfg g where m: "main_task bounded_append ipv4_cidr sim_bus (blank_chip\<lparr>sim_faults := [True, True]\<rparr>)
      0xBAADF00D power_on_flags 0 \<lparr>ethlpen = False, ethrxlpen = False, ethtxlpen = False\<rparr> (\<lambda>_. False)
      [1, 2, 3, 4, 5, 6, 7, 8, 9, 10, 11, 12] = Inr (ev, ts, used, PowerOn, cfg, g)" "distinct ts" "set ts = {t. True}"
    "\<forall>order. mset order = mset ts \<longrightarrow> (\<exists>used'. begin_tasks order used = Inr used')"
    using firmware_starts [OF bounded_capacity ci.cidr_contract_axioms, where bus = sim_bus
        and chip = "blank_chip\<lparr>sim_faults := [True, True]\<rparr>" and mk = "0xBAADF00D" and flags = power_on_flags
        and demcr = 0 and lp = "\<lparr>ethlpen = False, ethrxlpen = False, ethtxlpen = False\<rparr>" and sda = "\<lambda>_. False"
        and uid = "[1, 2, 3, 4, 5, 6, 7, 8, 9, 10, 11, 12]" and c = "()"]
    by (elim exE conjE) simp
  have "mset (rev ts) = mset ts" by simp
  with m(4) have "\<exists>used'. begin_tasks (rev ts) used = Inr used'" by blast
  with m(1-3) show ?thesis by blast
qed

end
