(* ===== verification/Spec2Isabelle.thy ===== *)
theory Spec2Isabelle
  imports Debouncer System_Properties Request_Types Startup
begin

text \<open>
  Verification development for the firmware of the JZF407VET6 board: an STM32F407 that drives two
  LEDs and a relay, takes commands over MQTT, and is watched and configured through a web page.
  The firmware is two Rust crates, the hardware-free \<open>logic/\<close> and the Embassy application \<open>src/\<close>.

  \<^bold>\<open>The program and its model.\<close> Seven tasks share a few statics: the EEPROM behind a mutex, the
  cached LED states, the outputs, the relay's trigger and its change notification, the MQTT
  flag, and the web session. Every task is cooperative, so the code between two awaits runs without
  the others. Each file is modelled first as the function it is, a handler or a turn of a task;
  the tasks are then put together as a step relation. The theories follow the files:

  \<^item> \<open>Prelude\<close>: machine words, byte strings, panics as values, mutexes, shared lemmas.
  \<^item> \<open>Rust_Str\<close>: the \<open>str\<close> methods the code calls, on UTF-8 bytes (trimming, splitting, lines,
    searching, slicing with its panic, decimal parsing and printing).
  \<^item> \<open>Heapless\<close>: the crate's bounded containers, a parameter \<open>ext\<close> of every definition that uses
    them; the locale \<open>fixed_capacity\<close> is its contract, \<open>bounded_append\<close> its instance.
  \<^item> \<open>Debouncer\<close>, \<open>Led_Dispatch\<close>, \<open>Auth_Token\<close>, \<open>Net_Config\<close>, \<open>Web_Form\<close>: the five modules of
    \<open>logic/src\<close>.
  \<^item> \<open>Eeprom\<close>: \<open>src/eeprom.rs\<close> over an I2C bus that is a record of operations. The locale \<open>at24c02\<close>
    says what an acknowledged and a refused transfer do to the chip's cells, \<open>responsive_at24c02\<close>
    adds that an idle chip answers; the simulated chip (256 cells, a write cycle, a schedule of
    faults) interprets both.
  \<^item> \<open>Config_Store\<close> (\<open>src/config.rs\<close>), \<open>Persistence\<close> (\<open>src/persistence.rs\<close>), \<open>Fault_Marker\<close>
    (\<open>src/fault_marker.rs\<close>), \<open>Outputs\<close> (\<open>src/outputs.rs\<close>), \<open>Mqtt\<close> (\<open>src/mqtt.rs\<close>), \<open>Sse\<close> (\<open>src/sse.rs\<close>).
  \<^item> \<open>src/web.rs\<close> in seven theories: \<open>Web_Text\<close> (its fixed texts), \<open>Web_Socket\<close> (what handlers do to a
    socket), \<open>Web_Request\<close> (request and cookie), \<open>Web_Session\<close> (session, login, lockout),
    \<open>Web_Pages\<close> (dashboard and JSON), \<open>Config_Form\<close> (the submitted form), \<open>Web_Server\<close> (authentication,
    routing, connections).
  \<^item> \<open>Rust_Str_Valid\<close> and \<open>Request_Types\<close>: the \<open>str\<close> methods keep UTF-8 validity, and with them every
    part the server cuts out of a request.
  \<^item> \<open>Boot\<close>: the part of \<open>src/main.rs\<close> that decides something, and the periods of \<open>heartbeat.rs\<close> and
    \<open>watchdog.rs\<close>. \<open>Startup\<close>: all of \<open>main\<close>, from the clock tree to the last spawned task, and the
    tasks' beginnings; the locale \<open>cidr_contract\<close> is what it needs of \<open>embassy_net\<close>'s address type.
  \<^item> \<open>System\<close>: the whole device. Its state is the statics, the position of each task, the broker
    connection and the clock; \<open>sys_step\<close> lets any task take its next step, time pass, a handler panic,
    or the power fail. \<open>System_Runs\<close> builds runs (a message, a save, a cut, the ends of all saves) and
    the concrete devices; its lemma \<open>event_steps\<close> ties the steps of a message to \<open>handle_event\<close>.
    \<open>System_Properties\<close> states what holds in every run and what goes wrong in some.

  \<^bold>\<open>Conventions.\<close> A definition has the name of the code it models. A Rust panic is \<open>Inl\<close> of a
  \<open>panic\<close>, an error \<open>Inl\<close> or \<open>None\<close>. Machine integers are words; \<open>usize\<close> indices and clock readings in
  milliseconds are natural numbers, as a 64-bit tick counter does not wrap in the device's life.
  Every \<open>Instant::now()\<close> is an argument of its own. Handlers return the list of actions on their
  socket, since the code ignores the results of its writes; \<open>sse.rs\<close>, which does not, gets them as
  inputs. Endless loops are modelled by their turn and run over a list of inputs (connections,
  events, rounds, samples, steps of an inductive relation), of any length: no fuel is involved.

  \<^bold>\<open>Steps of the device.\<close> In \<open>System\<close> a task stops where others can see it between two awaits: before
  it gets the EEPROM, and after every byte it wrote, as each byte is followed by its write cycle.
  A round of the MQTT loop, a poll of the relay task, setting up the broker connection, and a
  request that saves nothing are one step each: the awaits inside them wait for the network, after
  what the handler does to the shared state. The wait of 200 or 300 ms before a requested reset is
  a state of its own, in which the other tasks go on. The LED cache's mutex has one user, so it
  needs no step. An event stream gives its web task back at once, where the code keeps it until
  the client goes; the model has more runs than the device, not fewer. A reset keeps the chip, loses
  everything else, and finds the marker as a restart left it or, after a power cut, with any value.
  A byte counts as stored when the chip acknowledged it, so a reset step never falls inside a write
  cycle. A cut there, which may leave anything in the one cell being written, is covered as a start:
  every property of runs holds from a start on any idle chip, and the one about LED saves says what
  the restart shows for every value of that cell.

  \<^bold>\<open>What the lemmas show.\<close> Of the logic crate: the debouncer refines a counter; the dispatch table
  is complete; the login token decodes by RFC 4648, and exactly which pairs it confuses; the
  configuration image and its parser are inverse on well-formed configurations; form decoding is
  the inverse of form encoding; escaping is sound. Of storage: what a successful and what a torn
  write leave, that the two records stay apart, and where the LED cache and the chip come to
  disagree. Of the outputs: the relay is closed only inside a pulse of two seconds. Of the web
  server: nothing but the right credentials opens it, guessing is limited, abandoned sessions expire
  whatever polls them, the page shows the names safely and hides the passwords, a saved form is
  what boots next; and exactly which requests bring it down. Of MQTT: LED messages persist, no
  message loops, heartbeats keep time, and what the echo of a relay state does. Of the whole: it starts from anything, without a panic and with a buffer for
  every task; it resumes as it was after a remote reboot; in every interleaving relay, LEDs, cache
  and EEPROM agree and the EEPROM has one writer; nobody without credentials changes the
  configuration, not even by crashing it; the EEPROM cannot block, every save in progress can come to
  its end; and three ways in which a restart meets a save that is not finished, two of them harmful.

  \<^bold>\<open>Not modelled.\<close> The libraries: Embassy's executor, timers, drivers and TCP stack, the MQTT
  client, \<open>defmt\<close> logging; what the register writes of \<open>main\<close> do to the hardware. \<open>net.rs\<close> only
  runs the network stack, \<open>buttons.rs\<close> is commented out. Socket timeouts and buffer sizes are
  Embassy's; a request is what one \<open>read\<close> returned.
\<close>

section \<open>Properties that span components\<close>

text \<open>
  C16: a reboot command over MQTT comes back as it went. From any state in which the LEDs, the cache
  and the EEPROM agree, the command ends the task with the marker set; the boot that follows, on
  the same chip and with whatever reset flags, reports a remote reboot and shows the LEDs as they
  were, with the relay open. A retained command does nothing.
\<close>

theorem mqtt_reboot_resumes:
  assumes "responsive_at24c02 bus cells idle" and "led_inv cells idle g"
  shows "\<exists>g' d. handle_event bus ops (Publish False TOPIC_REBOOT m) (c, g) = (Resets, c, g') \<and> eeprom g' = Some d \<and>
    (\<exists>cfg g''. boot ext bus d (marker g') flags = Inr (RemoteReboot, cfg, g'') \<and> shown_leds g'' = shown_leds g \<and>
      \<not> get_relay (outputs g'')) \<and>
    handle_event bus ops (Publish True TOPIC_REBOOT m) (c, g) = (Goes_On, c, g)"
proof -
  obtain d where d: "eeprom g = Some d" "idle d" "stored_state (cells d) = shown_leds g"
    using assms(2) by (auto simp: led_inv_def coherent_def)
  have "mqtt_command TOPIC_REBOOT m = Some Reboot"
    by (simp add: mqtt_command_def dispatch_def dispatch_special_def TOPIC_REBOOT_def split: option.split)
  then have "handle_event bus ops (Publish False TOPIC_REBOOT m) (c, g)
      = (Resets, c, g\<lparr>marker := mark_remote_reboot (marker g)\<rparr>)"
    by (simp add: handle_event_def)
  moreover have "fst (read_and_clear (mark_remote_reboot (marker g)) flags) = RemoteReboot"
    using tags_distinct by (simp add: read_and_clear_def mark_remote_reboot_def)
  then have "\<exists>cfg g''. boot ext bus d (mark_remote_reboot (marker g)) flags = Inr (RemoteReboot, cfg, g'') \<and>
      shown_leds g'' = shown_leds g \<and> \<not> get_relay (outputs g'')"
    using boot_core [OF assms(1) d(2), of ext "mark_remote_reboot (marker g)" flags] d(3) by auto
  moreover have "handle_event bus ops (Publish True TOPIC_REBOOT m) (c, g) = (Goes_On, c, g)"
    by (simp add: handle_event_def)
  ultimately show ?thesis using d(1) by auto
qed

theorem mqtt_reboot_resumes_witness:
  "\<exists>g'. handle_event sim_bus log_client (Publish False TOPIC_REBOOT []) ([], boot_device) = (Resets, [], g') \<and>
    (\<exists>d cfg g''. eeprom g' = Some d \<and>
      boot bounded_append sim_bus d (marker g') power_on_flags = Inr (RemoteReboot, cfg, g''))"
  using mqtt_reboot_resumes [where ops = log_client and m = "[]" and c = "[]" and ext = bounded_append
      and flags = power_on_flags, OF sim_responsive boot_device_inv] by blast

end
